theory Spec2Isabelle
  imports Complex_Main "HOL-Library.Word" "HOL-Library.Monad_Syntax"
begin

unbundle bit_operations_syntax

section \<open>Data model\<close>

text \<open>
  The Go code works on fixed-width unsigned integers. A \<open>float32\<close> (\<open>float64\<close>) is
  represented by its IEEE bit pattern: \<open>math.Float32bits\<close> and \<open>math.Float32frombits\<close>
  are bit casts, so they are the identity on this representation.
\<close>

type_synonym byte = "8 word"
type_synonym uint16 = "16 word"
type_synonym uint32 = "32 word"
type_synonym uint64 = "64 word"
type_synonym int32 = "32 word"
type_synonym float32 = "32 word"
type_synonym float64 = "64 word"
type_synonym VaxFFloat = "32 word"
type_synonym VaxGFloat = "64 word"

text \<open>An \<open>error\<close> value is the message given to \<open>errors.New\<close>; \<open>nil\<close> is \<open>None\<close>.\<close>

type_synonym error = "string option"

subsection \<open>Constants of conversions.go\<close>

definition SignBit :: uint32 where "SignBit = 0x80000000"

definition VaxFExponentMask :: uint32 where "VaxFExponentMask = 0x7F800000"
definition VaxFExponentSize :: uint32 where "VaxFExponentSize = 8"
definition VaxFExponentBias :: uint32 where
  "VaxFExponentBias = push_bit (unat (VaxFExponentSize - 1)) 1"
definition VaxFMantissaMask :: uint32 where "VaxFMantissaMask = 0x007FFFFF"
definition VaxFMantissaSize :: uint32 where "VaxFMantissaSize = 23"
definition VaxFHiddenBit :: uint32 where
  "VaxFHiddenBit = push_bit (unat VaxFMantissaSize) 1"

definition VaxGExponentMask :: uint32 where "VaxGExponentMask = 0x7FF00000"
definition VaxGExponentSize :: uint32 where "VaxGExponentSize = 11"
definition VaxGExponentBias :: uint32 where
  "VaxGExponentBias = push_bit (unat (VaxGExponentSize - 1)) 1"
definition VaxGMantissaMask :: uint32 where "VaxGMantissaMask = 0x000FFFFF"
definition VaxGMantissaSize :: uint32 where "VaxGMantissaSize = 20"
definition VaxGHiddenBit :: uint32 where
  "VaxGHiddenBit = push_bit (unat VaxGMantissaSize) 1"

definition IeeeSExponentMask :: uint32 where "IeeeSExponentMask = 0x7F800000"
definition IeeeSExponentSize :: uint32 where "IeeeSExponentSize = 8"
definition IeeeSExponentBias :: uint32 where
  "IeeeSExponentBias = push_bit (unat (IeeeSExponentSize - 1)) 1 - 1"
definition IeeeSMantissaMask :: uint32 where "IeeeSMantissaMask = 0x007FFFFF"
definition IeeeSMantissaSize :: uint32 where "IeeeSMantissaSize = 23"
definition IeeeSHiddenBit :: uint32 where
  "IeeeSHiddenBit = push_bit (unat IeeeSMantissaSize) 1"

definition IeeeTExponentMask :: uint32 where "IeeeTExponentMask = 0x7FF00000"
definition IeeeTExponentSize :: uint32 where "IeeeTExponentSize = 11"
definition IeeeTExponentBias :: uint32 where
  "IeeeTExponentBias = push_bit (unat (IeeeTExponentSize - 1)) 1 - 1"
definition IeeeTMantissaMask :: uint32 where "IeeeTMantissaMask = 0x000FFFFF"
definition IeeeTMantissaSize :: uint32 where "IeeeTMantissaSize = 20"
definition IeeeTHiddenBit :: uint32 where
  "IeeeTHiddenBit = push_bit (unat IeeeTMantissaSize) 1"

subsection \<open>Bit-layout utility\<close>

text \<open>
  A Go slice is a list of bytes whose capacity is its length. \<open>b[lo:hi]\<close> panics when the
  bounds are out of range; a panic is \<open>None\<close>.
\<close>

definition slice :: "byte list \<Rightarrow> nat \<Rightarrow> nat \<Rightarrow> byte list option" where
  "slice b lo hi =
     (if lo \<le> hi \<and> hi \<le> length b then Some (take (hi - lo) (drop lo b)) else None)"

text \<open>\<open>binary.BigEndian.Uint16\<close> of the standard library: \<open>uint16(b[1]) | uint16(b[0])<<8\<close>,
  after a bounds check on \<open>b[1]\<close>.\<close>

definition BigEndian_Uint16 :: "byte list \<Rightarrow> uint16 option" where
  "BigEndian_Uint16 b =
     (if 1 < length b then Some (ucast (b ! 1) OR push_bit 8 (ucast (b ! 0))) else None)"

text \<open>\<open>binary.BigEndian.PutUint32\<close> and \<open>PutUint64\<close> of the standard library, as the
  bytes they store, most significant first.\<close>

definition BigEndian_PutUint32 :: "uint32 \<Rightarrow> byte list" where
  "BigEndian_PutUint32 v =
     [ucast (drop_bit 24 v), ucast (drop_bit 16 v), ucast (drop_bit 8 v), ucast v]"

definition BigEndian_PutUint64 :: "uint64 \<Rightarrow> byte list" where
  "BigEndian_PutUint64 v =
     [ucast (drop_bit 56 v), ucast (drop_bit 48 v), ucast (drop_bit 40 v),
      ucast (drop_bit 32 v), ucast (drop_bit 24 v), ucast (drop_bit 16 v),
      ucast (drop_bit 8 v), ucast v]"

text \<open>\<open>uint32FromVaxbits\<close> reads a 32-bit VAX doubleword.\<close>

definition uint32FromVaxbits :: "byte list \<Rightarrow> uint32 option" where
  "uint32FromVaxbits b = do {
     b02 \<leftarrow> slice b 0 2;
     lo \<leftarrow> BigEndian_Uint16 b02;
     b24 \<leftarrow> slice b 2 4;
     hi \<leftarrow> BigEndian_Uint16 b24;
     Some (ucast lo OR push_bit 16 (ucast hi))
   }"

text \<open>\<open>uint32FromVax\<close> swaps the 16-bit words in a 32-bit doubleword.\<close>

definition uint32FromVax :: "uint32 \<Rightarrow> uint32" where
  "uint32FromVax v = drop_bit 16 v OR push_bit 16 (v AND 0x0FFFF)"

section \<open>Decoding: vaxtofloat32.go and vaxtofloat64.go\<close>

text \<open>
  The local constants of \<open>Float32fromVaxFFloat\<close>. \<open>ExponentAdjustment\<close> is an
  \<open>int32\<close>; the suffix tells the functions' equally named constants apart.
\<close>

definition ExponentAdjustment_F :: int32 where
  "ExponentAdjustment_F = 1 + VaxFExponentBias - IeeeSExponentBias"

definition InPlaceExponentAdjustment_F :: uint32 where
  "InPlaceExponentAdjustment_F = push_bit (unat IeeeSMantissaSize) ExponentAdjustment_F"

text \<open>
  \<open>Float32fromVaxFFloat\<close> returns the float32 representation of a VAX F_Float. The
  variable \<open>e\<close> is an \<open>int32\<close>: its right shift is arithmetic and its comparison with 0
  is signed. A Go shift by a count of 32 or more gives 0, as \<open>drop_bit\<close> and
  \<open>push_bit\<close> do. The result is the pair of the returned value and the returned error;
  \<open>None\<close> is a panic on a buffer that is too short.
\<close>

definition Float32fromVaxFFloat :: "byte list \<Rightarrow> (float32 \<times> error) option" where
  "Float32fromVaxFFloat buf = do {
     vaxpart1 \<leftarrow> uint32FromVaxbits buf;
     let e = vaxpart1 AND VaxFExponentMask;
     if e = 0 then
       if vaxpart1 AND SignBit = SignBit
       then Some (0, Some ''F_Float to S_Float: VAX reserved operand fault'')
       else Some (0, None)
     else do {
       let e = signed_drop_bit (unat VaxFMantissaSize) e;
       let e = e - ExponentAdjustment_F;
       if 0 <s e
       then Some (vaxpart1 - InPlaceExponentAdjustment_F, None)
       else Some ((vaxpart1 AND SignBit) OR
                  drop_bit (unat (1 - e)) (VaxFHiddenBit OR (vaxpart1 AND VaxFMantissaMask)),
                  None)
     }
   }"

definition ExponentAdjustment_G :: int32 where
  "ExponentAdjustment_G = 1 + VaxGExponentBias - IeeeTExponentBias"

definition InPlaceExponentAdjustment_G :: uint32 where
  "InPlaceExponentAdjustment_G = push_bit (unat IeeeTMantissaSize) ExponentAdjustment_G"

text \<open>
  \<open>Float64fromVaxGFloat\<close> returns the float64 representation of a VAX G_Float. It
  keeps the error in a variable and returns the assembled halves in every branch.
\<close>

definition Float64fromVaxGFloat :: "byte list \<Rightarrow> (float64 \<times> error) option" where
  "Float64fromVaxGFloat buf = do {
     b04 \<leftarrow> slice buf 0 4;
     vaxpart2 \<leftarrow> uint32FromVaxbits b04;
     b48 \<leftarrow> slice buf 4 8;
     vaxpart1 \<leftarrow> uint32FromVaxbits b48;
     let e = vaxpart1 AND VaxGExponentMask;
     let (ieeepart1, ieeepart2, err) =
       (if e = 0 then
          (0, 0, if vaxpart1 AND SignBit = SignBit
                 then Some ''G_Float to T_Float: VAX reserved operand fault'' else None)
        else
          let e = signed_drop_bit (unat VaxGMantissaSize) e;
              e = e - ExponentAdjustment_G
          in if 0 <s e
             then (vaxpart1 - InPlaceExponentAdjustment_G, vaxpart2, None)
             else
               let vaxpart1 = (vaxpart1 AND (SignBit OR VaxGMantissaMask)) OR VaxGHiddenBit
               in ((vaxpart1 AND SignBit) OR
                     drop_bit (unat (1 - e)) (vaxpart1 AND (VaxGHiddenBit OR VaxGMantissaMask)),
                   push_bit (unat (31 + e)) vaxpart1 OR drop_bit (unat (1 - e)) vaxpart2,
                   None));
     Some (push_bit 32 (ucast ieeepart1 :: uint64) OR ucast ieeepart2, err)
   }"

section \<open>Encoding: VaxFFloatfromFloat32 and VaxGFloatfromFloat64\<close>

definition ExponentAdjustment_toF :: uint32 where
  "ExponentAdjustment_toF = 1 + VaxFExponentBias - IeeeSExponentBias"

text \<open>
  The loop \<open>for (m & HiddenBit) == 0 { m <<= 1; e -= 1 }\<close> of
  \<open>VaxFFloatfromFloat32\<close>, on the variables \<open>m\<close> and \<open>e\<close> (both \<open>uint32\<close>). It does
  not return when no shift brings a bit to the hidden-bit position; that is \<open>None\<close>.
\<close>

partial_function (option) normalize_F :: "uint32 \<Rightarrow> uint32 \<Rightarrow> (uint32 \<times> uint32) option" where
  "normalize_F m e =
     (if m AND VaxFHiddenBit = 0 then normalize_F (push_bit 1 m) (e - 1) else Some (m, e))"

declare normalize_F.simps [code]

text \<open>
  \<open>VaxFFloatfromFloat32\<close> returns the VAX F_Float representation of a float32. Here
  \<open>e\<close> is a \<open>uint32\<close>, as the expression it is declared from: \<open>e -= 1\<close> wraps around
  and the comparisons are unsigned.
\<close>

definition VaxFFloatfromFloat32 :: "float32 \<Rightarrow> (VaxFFloat \<times> error) option" where
  "VaxFFloatfromFloat32 f = do {
     let ieeepart1 = f;
     (result, err) \<leftarrow>
       (if ieeepart1 AND NOT SignBit = 0 then Some (0, None)
        else
          let e = ieeepart1 AND IeeeSExponentMask in
          if e = IeeeSExponentMask
          then Some ((ieeepart1 AND SignBit) OR VaxFExponentMask,
                     Some ''no VAX equivalent for IEEE +-Infinity and +-NaN'')
          else do {
            let e = drop_bit (unat VaxFMantissaSize) e;
            let m = ieeepart1 AND VaxFMantissaMask;
            (m, e) \<leftarrow>
              (if e = 0 then do {
                 (m, e) \<leftarrow> normalize_F (push_bit 1 m) e;
                 Some (m AND VaxFMantissaMask, e)
               } else Some (m, e));
            let e = e + ExponentAdjustment_toF;
            if e \<le> 0 then Some (0, None)
            else if e > 2 * VaxFExponentBias - 1
            then Some ((ieeepart1 AND SignBit) OR NOT SignBit,
                       Some ''IEEE S_Float too large for VAX F_Float'')
            else Some ((ieeepart1 AND SignBit) OR push_bit (unat VaxFMantissaSize) e OR m, None)
          });
     Some (uint32FromVax result, err)
   }"

definition ExponentAdjustment_toG :: uint32 where
  "ExponentAdjustment_toG = 1 + VaxGExponentBias - IeeeTExponentBias"

text \<open>
  The loop of \<open>VaxGFloatfromFloat64\<close>, on \<open>m\<close>, \<open>vaxpart2\<close> and \<open>e\<close>: each pass
  moves the top bit of the low half into the mantissa.
\<close>

partial_function (option) normalize_G ::
    "uint32 \<Rightarrow> uint32 \<Rightarrow> uint32 \<Rightarrow> (uint32 \<times> uint32 \<times> uint32) option" where
  "normalize_G m vaxpart2 e =
     (if m AND VaxGHiddenBit = 0
      then normalize_G (push_bit 1 m OR drop_bit 31 vaxpart2) (push_bit 1 vaxpart2) (e - 1)
      else Some (m, vaxpart2, e))"

declare normalize_G.simps [code]

definition VaxGFloatfromFloat64 :: "float64 \<Rightarrow> (VaxGFloat \<times> error) option" where
  "VaxGFloatfromFloat64 f = do {
     let in64 = f;
     let ieeepart1 = (ucast (drop_bit 32 in64) :: uint32);
     let vaxpart2 = (ucast (in64 AND 0x0FFFFFFFF) :: uint32);
     (vaxpart1, vaxpart2, err) \<leftarrow>
       (if (ieeepart1 AND NOT SignBit) OR vaxpart2 = 0 then Some (0, vaxpart2, None)
        else
          let e = ieeepart1 AND IeeeTExponentMask in
          if e = IeeeTExponentMask
          then Some ((ieeepart1 AND SignBit) OR VaxGExponentMask, 0,
                     Some ''no VAX equivalent for IEEE +-Infinity and +-NaN'')
          else do {
            let e = drop_bit (unat VaxGMantissaSize) e;
            let m = ieeepart1 AND VaxGMantissaMask;
            (m, vaxpart2, e) \<leftarrow>
              (if e = 0 then do {
                 (m, vaxpart2, e) \<leftarrow>
                   normalize_G (push_bit 1 m OR drop_bit 31 vaxpart2) (push_bit 1 vaxpart2) e;
                 Some (m AND VaxGMantissaMask, vaxpart2, e)
               } else Some (m, vaxpart2, e));
            let e = e + ExponentAdjustment_toG;
            if e \<le> 0 then Some (0, 0, None)
            else if e > 2 * VaxGExponentBias - 1
            then Some ((ieeepart1 AND SignBit) OR NOT SignBit, 0xFFFFFFFF,
                       Some ''IEEE T_Float too large for VAX G_Float'')
            else Some ((ieeepart1 AND SignBit) OR push_bit (unat VaxGMantissaSize) e OR m,
                       vaxpart2, None)
          });
     Some (push_bit 32 (ucast (uint32FromVax vaxpart2) :: uint64) OR
             ucast (uint32FromVax vaxpart1), err)
   }"

section \<open>Fields of the formats\<close>

text \<open>
  The layouts drawn in conversions.go. An unpacked F_floating word and an IEEE S_floating
  word are both \<open>s eeeeeeee m(23)\<close>. The high word of an unpacked G_floating value and of
  an IEEE T_floating value are both \<open>s eeeeeeeeeee m(20)\<close>, followed by a low word of 32
  more mantissa bits.
\<close>

definition vaxF_exponent :: "uint32 \<Rightarrow> uint32" where
  "vaxF_exponent w = drop_bit (unat VaxFMantissaSize) (w AND VaxFExponentMask)"

definition ieeeS_exponent :: "float32 \<Rightarrow> uint32" where
  "ieeeS_exponent x = drop_bit (unat IeeeSMantissaSize) (x AND IeeeSExponentMask)"

definition vaxG_exponent :: "uint32 \<Rightarrow> uint32" where
  "vaxG_exponent w = drop_bit (unat VaxGMantissaSize) (w AND VaxGExponentMask)"

definition ieeeT_exponent :: "uint32 \<Rightarrow> uint32" where
  "ieeeT_exponent x = drop_bit (unat IeeeTMantissaSize) (x AND IeeeTExponentMask)"

text \<open>The two 32-bit words of a 64-bit value, and the value made of two words.\<close>

definition hi32 :: "uint64 \<Rightarrow> uint32" where
  "hi32 d = ucast (drop_bit 32 d)"

definition lo32 :: "uint64 \<Rightarrow> uint32" where
  "lo32 d = ucast d"

definition join64 :: "uint32 \<Rightarrow> uint32 \<Rightarrow> uint64" where
  "join64 h l = push_bit 32 (ucast h) OR ucast l"

text \<open>
  The halves \<open>(vaxpart1, vaxpart2)\<close> that \<open>Float64fromVaxGFloat\<close> unpacks from its
  buffer, in the order the function reads them.
\<close>

definition unpack_G :: "byte list \<Rightarrow> (uint32 \<times> uint32) option" where
  "unpack_G buf = do {
     b04 \<leftarrow> slice buf 0 4;
     vaxpart2 \<leftarrow> uint32FromVaxbits b04;
     b48 \<leftarrow> slice buf 4 8;
     vaxpart1 \<leftarrow> uint32FromVaxbits b48;
     Some (vaxpart1, vaxpart2)
   }"

text \<open>
  The re-biased exponent \<open>e' = e - (1 + legacyBias - ieeeBias)\<close> of the decoders, in
  unbounded integers.
\<close>

definition rebiased_F :: "uint32 \<Rightarrow> int" where
  "rebiased_F w =
     uint (vaxF_exponent w) - (1 + uint VaxFExponentBias - uint IeeeSExponentBias)"

definition rebiased_G :: "uint32 \<Rightarrow> int" where
  "rebiased_G w =
     uint (vaxG_exponent w) - (1 + uint VaxGExponentBias - uint IeeeTExponentBias)"

text \<open>
  The number of passes of the encoders' normalisation loop, counted in unbounded naturals:
  \<open>m\<close> is the mantissa after the first shift and \<open>h\<close> the value of the hidden bit. A
  zero mantissa, on which the loop does not end, counts as no pass.
\<close>

function shifts_to_hidden :: "nat \<Rightarrow> nat \<Rightarrow> nat" where
  "shifts_to_hidden h m = (if m = 0 \<or> h \<le> m then 0 else Suc (shifts_to_hidden h (2 * m)))"
  by pat_completeness auto
termination
  by (relation "measure (\<lambda>(h, m). h - m)") auto

declare shifts_to_hidden.simps [simp del]

text \<open>
  The adjusted exponent \<open>e' = e + (1 + legacyBias - ieeeBias)\<close> of the encoders, in
  unbounded integers: \<open>e\<close> is the exponent field of a normalized input, and 0 less the
  number of passes of the normalisation loop for a subnormal one.
\<close>

definition adjusted_S :: "float32 \<Rightarrow> int" where
  "adjusted_S f =
     (if ieeeS_exponent f = 0
      then - int (shifts_to_hidden (2 ^ 23) (2 * unat (f AND IeeeSMantissaMask)))
      else uint (ieeeS_exponent f))
     + (1 + uint VaxFExponentBias - uint IeeeSExponentBias)"

definition adjusted_T :: "float64 \<Rightarrow> int" where
  "adjusted_T d =
     (if ieeeT_exponent (hi32 d) = 0
      then - int (shifts_to_hidden (2 ^ 52)
                   (2 * unat (join64 (hi32 d AND IeeeTMantissaMask) (lo32 d))))
      else uint (ieeeT_exponent (hi32 d)))
     + (1 + uint VaxGExponentBias - uint IeeeTExponentBias)"

text \<open>
  The representable normalized range of the legacy formats, on IEEE bit patterns with the
  sign bit cleared. An F_floating number is \<open>2^(e-128) * 0.1m\<close> with \<open>e\<close> from 1 to 255:
  the smallest magnitude \<open>2^-128\<close> is the IEEE single \<open>0x00200000\<close> and the largest,
  \<open>2^127 * (1 - 2^-24)\<close>, is \<open>0x7EFFFFFF\<close>. A G_floating number is \<open>2^(e-1024) * 0.1m\<close>
  with \<open>e\<close> from 1 to 2047: from \<open>2^-1024\<close> to \<open>2^1023 * (1 - 2^-53)\<close>.
\<close>

definition in_vaxF_range :: "float32 \<Rightarrow> bool" where
  "in_vaxF_range f \<longleftrightarrow>
     0x00200000 \<le> f AND NOT SignBit \<and> f AND NOT SignBit \<le> 0x7EFFFFFF"

definition in_vaxG_range :: "float64 \<Rightarrow> bool" where
  "in_vaxG_range d \<longleftrightarrow>
     0x0004000000000000 \<le> d AND 0x7FFFFFFFFFFFFFFF \<and>
     d AND 0x7FFFFFFFFFFFFFFF \<le> 0x7FDFFFFFFFFFFFFF"

text \<open>
  The number a finite IEEE S_floating pattern stands for: \<open>(-1)^s * 2^(e-127) * 1.m\<close>,
  and \<open>(-1)^s * 2^(1-127) * 0.m\<close> in subnormal form.
\<close>

definition ieeeS_value :: "float32 \<Rightarrow> rat" where
  "ieeeS_value x =
     (let s = (if x AND SignBit = 0 then 1 else - 1);
          e = unat (ieeeS_exponent x);
          m = unat (x AND IeeeSMantissaMask)
      in if e = 0 then s * of_nat (2 * m) / 2 ^ 150
         else s * of_nat ((2 ^ 23 + m) * 2 ^ e) / 2 ^ 150)"

section \<open>Constants and single bits\<close>

lemmas cdefs = SignBit_def VaxFExponentMask_def VaxFExponentSize_def VaxFExponentBias_def
  VaxFMantissaMask_def VaxFMantissaSize_def VaxFHiddenBit_def
  VaxGExponentMask_def VaxGExponentSize_def VaxGExponentBias_def
  VaxGMantissaMask_def VaxGMantissaSize_def VaxGHiddenBit_def
  IeeeSExponentMask_def IeeeSExponentSize_def IeeeSExponentBias_def
  IeeeSMantissaMask_def IeeeSMantissaSize_def IeeeSHiddenBit_def
  IeeeTExponentMask_def IeeeTExponentSize_def IeeeTExponentBias_def
  IeeeTMantissaMask_def IeeeTMantissaSize_def IeeeTHiddenBit_def
  ExponentAdjustment_F_def InPlaceExponentAdjustment_F_def
  ExponentAdjustment_G_def InPlaceExponentAdjustment_G_def
  ExponentAdjustment_toF_def ExponentAdjustment_toG_def

lemma expmaskF: "(0x7F800000::uint32) = push_bit 23 (mask 8)"
  by (simp add: mask_eq_exp_minus_1 push_bit_eq_mult)
lemma bit_pow32: "bit ((2::uint32) ^ m) n \<longleftrightarrow> n = m \<and> m < 32"
  by (auto simp add: bit_exp_iff possible_bit_word)

lemma cvals:
  "VaxFMantissaMask = mask 23" "VaxGMantissaMask = mask 20"
  "IeeeSMantissaMask = mask 23" "IeeeTMantissaMask = mask 20"
  "VaxFExponentMask = push_bit 23 (mask 8)" "VaxGExponentMask = push_bit 20 (mask 11)"
  "IeeeSExponentMask = push_bit 23 (mask 8)" "IeeeTExponentMask = push_bit 20 (mask 11)"
  by (simp_all add: cdefs mask_eq_exp_minus_1 push_bit_eq_mult)

lemma bit_consts:
  "bit SignBit n \<longleftrightarrow> n = 31"
  "bit VaxFHiddenBit n \<longleftrightarrow> n = 23"
  "bit VaxGHiddenBit n \<longleftrightarrow> n = 20"
proof -
  have e: "SignBit = 2 ^ 31" "VaxFHiddenBit = 2 ^ 23" "VaxGHiddenBit = 2 ^ 20"
    by (simp_all add: cdefs)
  show "bit SignBit n \<longleftrightarrow> n = 31" "bit VaxFHiddenBit n \<longleftrightarrow> n = 23"
    "bit VaxGHiddenBit n \<longleftrightarrow> n = 20"
    unfolding e bit_pow32 by simp_all
qed

section \<open>Arithmetic on the exponent field\<close>

text \<open>
  Subtracting \<open>c << n\<close> from a word subtracts \<open>c\<close> from the bits above \<open>n\<close> and leaves
  the low \<open>n\<close> bits alone.
\<close>

lemma sub_in_place:
  fixes w :: uint32
  shows "w - push_bit n c = push_bit n (drop_bit n w - c) OR take_bit n w"
proof -
  have "w - push_bit n c = (push_bit n (drop_bit n w) + take_bit n w) - push_bit n c"
    by (simp add: bits_ident)
  also have "\<dots> = push_bit n (drop_bit n w - c) + take_bit n w"
    by (simp add: push_bit_eq_mult algebra_simps)
  also have "\<dots> = push_bit n (drop_bit n w - c) OR take_bit n w"
    by (rule disjunctive_add) (auto simp add: bit_simps)
  finally show ?thesis .
qed

lemma sint_sub2:
  fixes x :: uint32
  assumes "uint x < 2^30"
  shows "sint (x - 2) = uint x - 2"
proof -
  have p: "(2::int) ^ 31 = 2147483648" "(2::int) ^ 30 = 1073741824" by simp_all
  have nn: "- (2 ^ 31) \<le> uint x" "- (2 ^ 31) \<le> uint x - 2" "uint x < 2 ^ 31" "uint x - 2 < 2 ^ 31"
    using assms uint_ge_0[of x] unfolding p by linarith+
  have "signed_take_bit 31 (uint x) = uint x"
    by (rule signed_take_bit_int_eq_self) (rule nn)+
  then have "sint x = uint x"
    by (simp add: sint_uint)
  then have "sint (x - 2) = signed_take_bit 31 (uint x - 2)"
    by (simp add: sint_word_diff)
  also have "\<dots> = uint x - 2"
    by (rule signed_take_bit_int_eq_self) (rule nn)+
  finally show ?thesis by simp
qed

section \<open>The branches of the decoders\<close>

text \<open>
  Each decoder takes one of three branches, selected by the exponent field of the unpacked
  input and by the sign of the re-biased exponent.
\<close>

lemma vaxF_exponent_eq: "vaxF_exponent w = take_bit 8 (drop_bit 23 w)"
  unfolding vaxF_exponent_def VaxFExponentMask_def VaxFMantissaSize_def expmaskF
  by (rule bit_eqI) (auto simp add: bit_simps)

lemma vaxF_exponent_lt: "uint (vaxF_exponent w) < 256"
  unfolding vaxF_exponent_eq
  using take_bit_int_less_exp[of 8 "uint (drop_bit 23 w)"] by (simp add: unsigned_take_bit_eq)

lemma and_expmaskF: "w AND VaxFExponentMask = push_bit 23 (vaxF_exponent w)"
  unfolding vaxF_exponent_def VaxFExponentMask_def VaxFMantissaSize_def expmaskF
  by (rule bit_eqI) (auto simp add: bit_simps)

lemma vaxF_mask_zero_iff: "(w AND VaxFExponentMask = 0) = (vaxF_exponent w = 0)"
proof
  assume "w AND VaxFExponentMask = 0"
  then show "vaxF_exponent w = 0" by (simp add: vaxF_exponent_def)
next
  assume "vaxF_exponent w = 0"
  then show "w AND VaxFExponentMask = 0" by (simp add: and_expmaskF)
qed

lemma sdrop_F: "signed_drop_bit 23 (w AND VaxFExponentMask) = vaxF_exponent w"
  unfolding vaxF_exponent_def VaxFExponentMask_def VaxFMantissaSize_def expmaskF
  by (rule bit_eqI) (auto simp add: bit_simps)

lemma rebiased_F_eq: "rebiased_F w = uint (vaxF_exponent w) - 2"
  by (simp add: rebiased_F_def cdefs)

lemma F_positive_iff: "(0 <s vaxF_exponent w - 2) = (0 < rebiased_F w)"
  using vaxF_exponent_lt[of w]
  by (simp add: word_sless_alt sint_sub2 rebiased_F_eq)

lemma small_cases:
  fixes e :: uint32
  assumes "e \<noteq> 0" "uint e \<le> 2"
  shows "e = 1 \<or> e = 2"
proof -
  have "uint e = 0 \<or> uint e = 1 \<or> uint e = 2" using assms(2) uint_ge_0[of e] by arith
  then show ?thesis using assms(1) 
    by (auto simp add: word_uint_eq_iff)
qed

lemma F_dec_zero:
  assumes "uint32FromVaxbits buf = Some w" "vaxF_exponent w = 0"
  shows "Float32fromVaxFFloat buf =
     Some (0, if w AND SignBit = SignBit
              then Some ''F_Float to S_Float: VAX reserved operand fault'' else None)"
  using assms by (simp add: Float32fromVaxFFloat_def vaxF_mask_zero_iff)

lemma F_dec_normal:
  assumes "uint32FromVaxbits buf = Some w" "vaxF_exponent w \<noteq> 0" "0 < rebiased_F w"
  shows "Float32fromVaxFFloat buf = Some (w - 0x01000000, None)"
  using assms 
  by (simp add: Float32fromVaxFFloat_def vaxF_mask_zero_iff Let_def VaxFMantissaSize_def sdrop_F
       ExponentAdjustment_F_def InPlaceExponentAdjustment_F_def VaxFExponentBias_def IeeeSExponentBias_def
       VaxFExponentSize_def IeeeSExponentSize_def IeeeSMantissaSize_def F_positive_iff)

lemma F_dec_subnormal:
  assumes "uint32FromVaxbits buf = Some w" "vaxF_exponent w \<noteq> 0" "rebiased_F w \<le> 0"
  shows "Float32fromVaxFFloat buf =
     Some ((w AND SignBit) OR
           drop_bit (nat (1 - rebiased_F w)) (VaxFHiddenBit OR (w AND VaxFMantissaMask)), None)"
proof -
  have "vaxF_exponent w = 1 \<or> vaxF_exponent w = 2"
    using assms(2,3) by (intro small_cases) (simp_all add: rebiased_F_eq)
  then show ?thesis
    using assms(1,2)
    by (auto simp add: Float32fromVaxFFloat_def vaxF_mask_zero_iff Let_def VaxFMantissaSize_def sdrop_F
       ExponentAdjustment_F_def VaxFExponentBias_def IeeeSExponentBias_def
       VaxFExponentSize_def IeeeSExponentSize_def rebiased_F_eq)
qed

lemma expmaskG: "(0x7FF00000::uint32) = push_bit 20 (mask 11)"
  by (simp add: mask_eq_exp_minus_1 push_bit_eq_mult)
lemma vaxG_exponent_eq: "vaxG_exponent w = take_bit 11 (drop_bit 20 w)"
  unfolding vaxG_exponent_def VaxGExponentMask_def VaxGMantissaSize_def expmaskG
  by (rule bit_eqI) (auto simp add: bit_simps)

lemma vaxG_exponent_lt: "uint (vaxG_exponent w) < 2048"
  unfolding vaxG_exponent_eq
  using take_bit_int_less_exp[of 11 "uint (drop_bit 20 w)"] by (simp add: unsigned_take_bit_eq)

lemma and_expmaskG: "w AND VaxGExponentMask = push_bit 20 (vaxG_exponent w)"
  unfolding vaxG_exponent_def VaxGExponentMask_def VaxGMantissaSize_def expmaskG
  by (rule bit_eqI) (auto simp add: bit_simps)

lemma vaxG_mask_zero_iff: "(w AND VaxGExponentMask = 0) = (vaxG_exponent w = 0)"
proof
  assume "w AND VaxGExponentMask = 0"
  then show "vaxG_exponent w = 0" by (simp add: vaxG_exponent_def)
next
  assume "vaxG_exponent w = 0"
  then show "w AND VaxGExponentMask = 0" by (simp add: and_expmaskG)
qed

lemma sdrop_G: "signed_drop_bit 20 (w AND VaxGExponentMask) = vaxG_exponent w"
  unfolding vaxG_exponent_def VaxGExponentMask_def VaxGMantissaSize_def expmaskG
  by (rule bit_eqI) (auto simp add: bit_simps)

lemma rebiased_G_eq: "rebiased_G w = uint (vaxG_exponent w) - 2"
  by (simp add: rebiased_G_def cdefs)

lemma G_positive_iff: "(0 <s vaxG_exponent w - 2) = (0 < rebiased_G w)"
  using vaxG_exponent_lt[of w]
  by (simp add: word_sless_alt sint_sub2 rebiased_G_eq)

lemma G_unfold:
  assumes "unpack_G buf = Some (w1, w2)"
  shows "Float64fromVaxGFloat buf = 
    (let vaxpart1 = w1; vaxpart2 = w2;
      e = vaxpart1 AND VaxGExponentMask;
      (ieeepart1, ieeepart2, err) =
       (if e = 0 then
          (0, 0, if vaxpart1 AND SignBit = SignBit
                 then Some ''G_Float to T_Float: VAX reserved operand fault'' else None)
        else
          let e = signed_drop_bit (unat VaxGMantissaSize) e;
              e = e - ExponentAdjustment_G
          in if 0 <s e
             then (vaxpart1 - InPlaceExponentAdjustment_G, vaxpart2, None)
             else
               let vaxpart1 = (vaxpart1 AND (SignBit OR VaxGMantissaMask)) OR VaxGHiddenBit
               in ((vaxpart1 AND SignBit) OR
                     drop_bit (unat (1 - e)) (vaxpart1 AND (VaxGHiddenBit OR VaxGMantissaMask)),
                   push_bit (unat (31 + e)) vaxpart1 OR drop_bit (unat (1 - e)) vaxpart2,
                   None))
     in Some (push_bit 32 (ucast ieeepart1 :: uint64) OR ucast ieeepart2, err))"
  using assms
  by (auto simp add: unpack_G_def Float64fromVaxGFloat_def bind_eq_Some_conv)

lemma G_dec_zero:
  assumes "unpack_G buf = Some (w1, w2)" "vaxG_exponent w1 = 0"
  shows "Float64fromVaxGFloat buf =
     Some (0, if w1 AND SignBit = SignBit
              then Some ''G_Float to T_Float: VAX reserved operand fault'' else None)"
  using assms(2) by (simp add: G_unfold[OF assms(1)] vaxG_mask_zero_iff)

lemma G_dec_normal:
  assumes "unpack_G buf = Some (w1, w2)" "vaxG_exponent w1 \<noteq> 0" "0 < rebiased_G w1"
  shows "Float64fromVaxGFloat buf = Some (join64 (w1 - 0x00200000) w2, None)"
  using assms(2,3)
  by (simp add: G_unfold[OF assms(1)] vaxG_mask_zero_iff Let_def VaxGMantissaSize_def sdrop_G
       ExponentAdjustment_G_def InPlaceExponentAdjustment_G_def VaxGExponentBias_def IeeeTExponentBias_def
       VaxGExponentSize_def IeeeTExponentSize_def IeeeTMantissaSize_def G_positive_iff join64_def)

lemma G_dec_subnormal:
  assumes "unpack_G buf = Some (w1, w2)" "vaxG_exponent w1 \<noteq> 0" "rebiased_G w1 \<le> 0"
  shows "Float64fromVaxGFloat buf =
     (let n = nat (1 - rebiased_G w1);
          v = (w1 AND (SignBit OR VaxGMantissaMask)) OR VaxGHiddenBit
      in Some (join64
            ((v AND SignBit) OR drop_bit n (v AND (VaxGHiddenBit OR VaxGMantissaMask)))
            (push_bit (32 - n) v OR drop_bit n w2), None))"
proof -
  have c: "vaxG_exponent w1 = 1 \<or> vaxG_exponent w1 = 2"
    using assms(2,3) by (intro small_cases) (simp_all add: rebiased_G_eq)
  from c show ?thesis
    using assms(2)
    by (auto simp add: G_unfold[OF assms(1)] vaxG_mask_zero_iff Let_def sdrop_G
       ExponentAdjustment_G_def VaxGExponentBias_def IeeeTExponentBias_def
       VaxGExponentSize_def IeeeTExponentSize_def rebiased_G_eq join64_def 
       VaxGMantissaSize_def[THEN arg_cong, of unat])
qed

section \<open>The fields of the decoded value\<close>

lemma nat_sub_low:
  fixes Q N c :: nat
  assumes "c \<le> Q mod N" "0 < N"
  shows "(Q - c) mod N = Q mod N - c" and "(Q - c) div N = Q div N"
proof -
  have d: "Q = Q div N * N + Q mod N" by simp
  have "Q - c = Q div N * N + (Q mod N - c)"
    using assms(1) by (subst d) (simp only: add_diff_assoc)
  moreover have "Q mod N - c < N"
    using assms(2) by (simp add: less_imp_diff_less)
  ultimately show "(Q - c) mod N = Q mod N - c" and "(Q - c) div N = Q div N"
    by simp_all
qed

lemma unat_take_bit: "unat (take_bit n (w::'a::len word)) = unat w mod 2 ^ n"
  by (subst unsigned_take_bit_eq) (rule take_bit_eq_mod)

lemma unat_drop_bit: "unat (drop_bit n (w::'a::len word)) = unat w div 2 ^ n"
  by (subst unat_drop_bit_eq) (rule drop_bit_eq_div)

lemma small_sub8:
  fixes q :: uint32
  assumes "unat q < 512" "2 \<le> unat (take_bit 8 q)"
  shows "take_bit 8 (q - 2) = take_bit 8 q - 2" "drop_bit 8 (take_bit 9 (q - 2)) = drop_bit 8 q"
proof -
  have a: "2 \<le> unat q mod 256"
    using assms(2) unfolding unat_take_bit by simp
  have "unat q mod 256 \<le> unat q" by (rule mod_less_eq_dividend)
  with a have b: "2 \<le> unat q" by linarith
  have u: "unat (q - 2) = unat q - 2" using b by (simp add: unat_sub word_le_nat_alt)
  have "(2::uint32) \<le> take_bit 8 q"
    using assms(2) by (simp only: word_le_nat_alt) simp
  then have "unat (take_bit 8 q - 2) = unat (take_bit 8 q) - unat (2::uint32)"
    by (rule unat_sub)
  then have t: "unat (take_bit 8 q - 2) = unat q mod 256 - 2"
    unfolding unat_take_bit by simp
  have "unat (take_bit 8 (q - 2)) = (unat q - 2) mod 256"
    unfolding unat_take_bit u by simp
  also have "\<dots> = unat q mod 256 - 2" using a by (intro nat_sub_low) simp_all
  finally show "take_bit 8 (q - 2) = take_bit 8 q - 2"
    by (simp only: word_unat_eq_iff t)
  have lt: "unat q - 2 < 512" using assms(1) by linarith
  have "unat (drop_bit 8 (take_bit 9 (q - 2))) = ((unat q - 2) mod 512) div 256"
    unfolding unat_drop_bit unat_take_bit u by simp
  also have "\<dots> = (unat q - 2) div 256" using lt by simp
  also have "\<dots> = unat q div 256" using a by (intro nat_sub_low) simp_all
  also have "\<dots> = unat (drop_bit 8 q)"
    unfolding unat_drop_bit by simp
  finally show "drop_bit 8 (take_bit 9 (q - 2)) = drop_bit 8 q"
    by (simp only: word_unat_eq_iff)
qed

lemma small_sub11:
  fixes q :: uint32
  assumes "unat q < 4096" "2 \<le> unat (take_bit 11 q)"
  shows "take_bit 11 (q - 2) = take_bit 11 q - 2" "drop_bit 11 (take_bit 12 (q - 2)) = drop_bit 11 q"
proof -
  have a: "2 \<le> unat q mod 2048"
    using assms(2) unfolding unat_take_bit by simp
  have "unat q mod 2048 \<le> unat q" by (rule mod_less_eq_dividend)
  with a have b: "2 \<le> unat q" by linarith
  have u: "unat (q - 2) = unat q - 2" using b by (simp add: unat_sub word_le_nat_alt)
  have "(2::uint32) \<le> take_bit 11 q"
    using assms(2) by (simp only: word_le_nat_alt) simp
  then have "unat (take_bit 11 q - 2) = unat (take_bit 11 q) - unat (2::uint32)"
    by (rule unat_sub)
  then have t: "unat (take_bit 11 q - 2) = unat q mod 2048 - 2"
    unfolding unat_take_bit by simp
  have "unat (take_bit 11 (q - 2)) = (unat q - 2) mod 2048"
    unfolding unat_take_bit u by simp
  also have "\<dots> = unat q mod 2048 - 2" using a by (intro nat_sub_low) simp_all
  finally show "take_bit 11 (q - 2) = take_bit 11 q - 2"
    by (simp only: word_unat_eq_iff t)
  have lt: "unat q - 2 < 4096" using assms(1) by linarith
  have "unat (drop_bit 11 (take_bit 12 (q - 2))) = ((unat q - 2) mod 4096) div 2048"
    unfolding unat_drop_bit unat_take_bit u by simp
  also have "\<dots> = (unat q - 2) div 2048" using lt by simp
  also have "\<dots> = unat q div 2048" using a by (intro nat_sub_low) simp_all
  also have "\<dots> = unat (drop_bit 11 q)"
    unfolding unat_drop_bit by simp
  finally show "drop_bit 11 (take_bit 12 (q - 2)) = drop_bit 11 q"
    by (simp only: word_unat_eq_iff)
qed

lemma ieeeS_exponent_eq: "ieeeS_exponent w = take_bit 8 (drop_bit 23 w)"
  unfolding ieeeS_exponent_def IeeeSMantissaSize_def cvals
  by (rule bit_eqI) (auto simp add: bit_simps)

lemma ieeeT_exponent_eq: "ieeeT_exponent w = take_bit 11 (drop_bit 20 w)"
  unfolding ieeeT_exponent_def IeeeTMantissaSize_def cvals
  by (rule bit_eqI) (auto simp add: bit_simps)

lemma and_SignBit: "w AND SignBit = push_bit 31 (drop_bit 31 w)"
proof (rule bit_eqI)
  fix n
  show "bit (w AND SignBit) n = bit (push_bit 31 (drop_bit 31 w)) n"
    by (cases "n = 31") (auto simp add: bit_simps bit_consts)
qed

lemma unat_drop23: "unat (drop_bit 23 (w::uint32)) < 512"
proof -
  have "unat w < 2 ^ 32" using unsigned_less[of w] by simp
  then show ?thesis unfolding unat_drop_bit by simp
qed

lemma unat_drop20: "unat (drop_bit 20 (w::uint32)) < 4096"
proof -
  have "unat w < 2 ^ 32" using unsigned_less[of w] by simp
  then show ?thesis unfolding unat_drop_bit by simp
qed

lemma in_place_fields:
  fixes y w :: uint32
  shows "(push_bit 23 y OR take_bit 23 w) AND mask 23 = w AND mask 23"
    and "drop_bit 31 (push_bit 23 y OR take_bit 23 w) = drop_bit 8 (take_bit 9 y)"
    and "take_bit 8 (drop_bit 23 (push_bit 23 y OR take_bit 23 w)) = take_bit 8 y"
  by (rule bit_eqI; auto simp add: bit_simps)+

lemma drop31_drop23: "drop_bit 8 (drop_bit 23 (w::uint32)) = drop_bit 31 w"
  by simp

lemma F_normal_fields:
  assumes "0 < rebiased_F w"
  shows "(w - 0x01000000) AND SignBit = w AND SignBit"
    and "(w - 0x01000000) AND IeeeSMantissaMask = w AND VaxFMantissaMask"
    and "uint (ieeeS_exponent (w - 0x01000000)) = rebiased_F w"
proof -
  define q where "q = drop_bit 23 w"
  define y where "y = q - 2"
  have c: "(0x01000000::uint32) = push_bit 23 2" by (simp add: push_bit_eq_mult)
  have r: "w - 0x01000000 = push_bit 23 y OR take_bit 23 w"
    unfolding c q_def y_def by (rule sub_in_place)
  have q: "unat q < 512" unfolding q_def by (rule unat_drop23)
  have e: "3 \<le> uint (take_bit 8 q)"
    using assms by (simp add: rebiased_F_eq vaxF_exponent_eq q_def)
  have "int (unat (take_bit 8 q)) = uint (take_bit 8 q)" by simp
  with e have e': "2 \<le> unat (take_bit 8 q)" by linarith
  note s = small_sub8[OF q e', folded y_def]
  show "(w - 0x01000000) AND IeeeSMantissaMask = w AND VaxFMantissaMask"
    unfolding r cvals by (rule in_place_fields)
  have "drop_bit 31 (w - 0x01000000) = drop_bit 8 (take_bit 9 y)"
    unfolding r by (rule in_place_fields)
  also have "\<dots> = drop_bit 31 w"
    unfolding s q_def by (rule drop31_drop23)
  finally show "(w - 0x01000000) AND SignBit = w AND SignBit"
    by (simp only: and_SignBit)
  have "ieeeS_exponent (w - 0x01000000) = take_bit 8 y"
    unfolding ieeeS_exponent_eq r by (rule in_place_fields)
  also have "\<dots> = take_bit 8 q - 2" by (rule s)
  finally have "ieeeS_exponent (w - 0x01000000) = vaxF_exponent w - 2"
    by (simp only: vaxF_exponent_eq q_def)
  moreover have "uint (vaxF_exponent w - 2) = uint (vaxF_exponent w) - 2"
    using e by (simp add: uint_sub_if' vaxF_exponent_eq q_def word_le_def)
  ultimately show "uint (ieeeS_exponent (w - 0x01000000)) = rebiased_F w"
    by (simp only: rebiased_F_eq)
qed

lemma F_subnormal_fields:
  fixes w :: uint32
  assumes "0 < n" "r = (w AND SignBit) OR drop_bit n (VaxFHiddenBit OR (w AND VaxFMantissaMask))"
  shows "r AND SignBit = w AND SignBit"
    and "r AND IeeeSMantissaMask = drop_bit n (VaxFHiddenBit OR (w AND VaxFMantissaMask))"
    and "ieeeS_exponent r = 0"
  unfolding assms(2) ieeeS_exponent_eq cvals
  by (rule bit_eqI; use assms(1) in \<open>auto simp add: bit_simps bit_consts\<close>)+

lemma hi32_join64: "hi32 (join64 h l) = h"
  unfolding hi32_def join64_def
  by (rule bit_eqI) (auto simp add: bit_simps dest: bit_imp_le_length)

lemma lo32_join64: "lo32 (join64 h l) = l"
  unfolding lo32_def join64_def
  by (rule bit_eqI) (auto simp add: bit_simps)

lemma join64_hi_lo: "join64 (hi32 d) (lo32 d) = d"
  unfolding hi32_def lo32_def join64_def
  by (rule bit_eqI) (auto simp add: bit_simps)

lemma in_place_fields_G:
  fixes y w :: uint32
  shows "(push_bit 20 y OR take_bit 20 w) AND mask 20 = w AND mask 20"
    and "drop_bit 31 (push_bit 20 y OR take_bit 20 w) = drop_bit 11 (take_bit 12 y)"
    and "take_bit 11 (drop_bit 20 (push_bit 20 y OR take_bit 20 w)) = take_bit 11 y"
  by (rule bit_eqI; auto simp add: bit_simps)+

lemma drop31_drop20: "drop_bit 11 (drop_bit 20 (w::uint32)) = drop_bit 31 w"
  by simp

lemma G_normal_fields:
  assumes "0 < rebiased_G w"
  shows "(w - 0x00200000) AND SignBit = w AND SignBit"
    and "(w - 0x00200000) AND IeeeTMantissaMask = w AND VaxGMantissaMask"
    and "uint (ieeeT_exponent (w - 0x00200000)) = rebiased_G w"
proof -
  define q where "q = drop_bit 20 w"
  define y where "y = q - 2"
  have c: "(0x00200000::uint32) = push_bit 20 2" by (simp add: push_bit_eq_mult)
  have r: "w - 0x00200000 = push_bit 20 y OR take_bit 20 w"
    unfolding c q_def y_def by (rule sub_in_place)
  have q: "unat q < 4096" unfolding q_def by (rule unat_drop20)
  have e: "3 \<le> uint (take_bit 11 q)"
    using assms by (simp add: rebiased_G_eq vaxG_exponent_eq q_def)
  have "int (unat (take_bit 11 q)) = uint (take_bit 11 q)" by simp
  with e have e': "2 \<le> unat (take_bit 11 q)" by linarith
  note s = small_sub11[OF q e', folded y_def]
  show "(w - 0x00200000) AND IeeeTMantissaMask = w AND VaxGMantissaMask"
    unfolding r cvals by (rule in_place_fields_G)
  have "drop_bit 31 (w - 0x00200000) = drop_bit 11 (take_bit 12 y)"
    unfolding r by (rule in_place_fields_G)
  also have "\<dots> = drop_bit 31 w"
    unfolding s q_def by (rule drop31_drop20)
  finally show "(w - 0x00200000) AND SignBit = w AND SignBit"
    by (simp only: and_SignBit)
  have "ieeeT_exponent (w - 0x00200000) = take_bit 11 y"
    unfolding ieeeT_exponent_eq r by (rule in_place_fields_G)
  also have "\<dots> = take_bit 11 q - 2" by (rule s)
  finally have "ieeeT_exponent (w - 0x00200000) = vaxG_exponent w - 2"
    by (simp only: vaxG_exponent_eq q_def)
  moreover have "uint (vaxG_exponent w - 2) = uint (vaxG_exponent w) - 2"
    using e by (simp add: uint_sub_if' vaxG_exponent_eq q_def word_le_def)
  ultimately show "uint (ieeeT_exponent (w - 0x00200000)) = rebiased_G w"
    by (simp only: rebiased_G_eq)
qed

lemma bit_join64:
  "bit (join64 a b) k \<longleftrightarrow> (k < 32 \<and> bit b k) \<or> (32 \<le> k \<and> bit a (k - 32))"
  unfolding join64_def
  by (auto simp add: bit_simps dest: bit_imp_le_length)

lemma drop_join64:
  assumes "0 < n" "n \<le> 32"
  shows "drop_bit n (join64 a b) = join64 (drop_bit n a) (push_bit (32 - n) a OR drop_bit n b)"
proof (rule bit_eqI)
  fix k
  show "bit (drop_bit n (join64 a b)) k =
        bit (join64 (drop_bit n a) (push_bit (32 - n) a OR drop_bit n b)) k"
  proof (cases "k < 32")
    case k: True
    show ?thesis
    proof (cases "k + n < 32")
      case True
      then have "\<not> 32 - n \<le> k" by linarith
      with True k show ?thesis
        by (simp add: bit_drop_bit_eq bit_join64 bit_or_iff bit_push_bit_iff add.commute)
    next
      case False
      then have a: "32 - n \<le> k" "32 \<le> n + k" "n + k - 32 = k - (32 - n)" "\<not> n + k < 32"
        using assms by linarith+
      have "\<not> bit b (n + k)" using a(2) by (auto dest: bit_imp_le_length)
      with False k a show ?thesis
        by (simp add: bit_drop_bit_eq bit_join64 bit_or_iff bit_push_bit_iff possible_bit_word)
    qed
  next
    case False
    then have a: "32 \<le> k" "32 \<le> n + k" "\<not> n + k < 32" "n + k - 32 = n + (k - 32)" by linarith+
    show ?thesis using a
      by (simp add: bit_drop_bit_eq bit_join64)
  qed
qed

lemma G_subnormal_fields:
  fixes w1 w2 :: uint32
  assumes "0 < n" "n \<le> 2"
    and "v = (w1 AND (SignBit OR VaxGMantissaMask)) OR VaxGHiddenBit"
    and "h = (v AND SignBit) OR drop_bit n (v AND (VaxGHiddenBit OR VaxGMantissaMask))"
    and "l = push_bit (32 - n) v OR drop_bit n w2"
  shows "h AND SignBit = w1 AND SignBit"
    and "ieeeT_exponent h = 0"
    and "join64 (h AND IeeeTMantissaMask) l =
           drop_bit n (join64 (VaxGHiddenBit OR (w1 AND VaxGMantissaMask)) w2)"
proof -
  define A where "A = VaxGHiddenBit OR (w1 AND VaxGMantissaMask)"
  show "h AND SignBit = w1 AND SignBit"
    unfolding assms(3,4) cvals
    by (rule bit_eqI) (use assms(1) in \<open>auto simp add: bit_simps bit_consts\<close>)
  show "ieeeT_exponent h = 0"
    unfolding assms(3,4) cvals ieeeT_exponent_eq
    by (rule bit_eqI) (use assms(1) in \<open>auto simp add: bit_simps bit_consts\<close>)
  have hm: "h AND IeeeTMantissaMask = drop_bit n A"
    unfolding assms(3,4) cvals A_def
    by (rule bit_eqI) (use assms(1) in \<open>auto simp add: bit_simps bit_consts\<close>)
  have pv: "push_bit (32 - n) v = push_bit (32 - n) A"
  proof (rule bit_eqI)
    fix k
    assume "possible_bit TYPE(uint32) k"
    then have "k < 32" by (simp add: possible_bit_word)
    then have "k - (32 - n) \<noteq> 31" using assms(1,2) by linarith
    then show "bit (push_bit (32 - n) v) k = bit (push_bit (32 - n) A) k"
      unfolding assms(3) cvals A_def
      by (auto simp add: bit_simps bit_consts)
  qed
  have "n \<le> 32" using assms(2) by linarith
  from drop_join64[OF assms(1) this, of A w2]
  show "join64 (h AND IeeeTMantissaMask) l =
           drop_bit n (join64 (VaxGHiddenBit OR (w1 AND VaxGMantissaMask)) w2)"
    unfolding hm assms(5) pv A_def by (rule sym)
qed

section \<open>The byte layout\<close>

lemma uint32FromVaxbits_4:
  "uint32FromVaxbits [b0, b1, b2, b3] =
     Some (ucast (ucast b1 OR push_bit 8 (ucast b0) :: uint16) OR
           push_bit 16 (ucast (ucast b3 OR push_bit 8 (ucast b2) :: uint16)))"
  by (simp add: uint32FromVaxbits_def slice_def BigEndian_Uint16_def)

lemma length4E:
  assumes "length (buf :: 'a list) = 4"
  obtains b0 b1 b2 b3 where "buf = [b0, b1, b2, b3]"
  using assms by (auto simp add: length_Suc_conv numeral_eq_Suc)

lemma length8E:
  assumes "length (buf :: 'a list) = 8"
  obtains b0 b1 b2 b3 b4 b5 b6 b7 where "buf = [b0, b1, b2, b3, b4, b5, b6, b7]"
  using assms by (auto simp add: length_Suc_conv numeral_eq_Suc)

lemma uint32FromVaxbits_total:
  assumes "length buf = 4"
  shows "\<exists>w. uint32FromVaxbits buf = Some w"
  using assms by (elim length4E) (simp add: uint32FromVaxbits_4)

lemma unpack_G_8:
  "unpack_G [b0, b1, b2, b3, b4, b5, b6, b7] =
     Some (the (uint32FromVaxbits [b4, b5, b6, b7]), the (uint32FromVaxbits [b0, b1, b2, b3]))"
  by (simp add: unpack_G_def slice_def uint32FromVaxbits_4)

lemma unpack_G_total:
  assumes "length buf = 8"
  shows "\<exists>w1 w2. unpack_G buf = Some (w1, w2)"
  using assms by (elim length8E) (simp add: unpack_G_8)

lemma m16: "(0xFFFF::uint32) = mask 16" by (simp add: mask_eq_exp_minus_1)

lemma uint32FromVax_eq: "uint32FromVax v = drop_bit 16 v OR push_bit 16 (take_bit 16 v)"
  unfolding uint32FromVax_def m16 by (simp add: take_bit_eq_mask)

lemma be16_of_word:
  fixes y :: uint32
  shows "(ucast (ucast y :: byte) :: uint16) OR push_bit 8 (ucast (ucast (drop_bit 8 y) :: byte))
       = ucast y"
proof (rule bit_eqI)
  fix k
  assume "possible_bit TYPE(uint16) k"
  then have k: "k < 16" by (simp add: possible_bit_word)
  show "bit ((ucast (ucast y :: byte) :: uint16) OR push_bit 8 (ucast (ucast (drop_bit 8 y) :: byte))) k
      = bit (ucast y :: uint16) k"
  proof (cases "k < 8")
    case True
    then show ?thesis using k by (simp add: bit_simps)
  next
    case False
    define j where "j = k - 8"
    have j: "k = 8 + j" "j < 8" using k False unfolding j_def by linarith+
    show ?thesis unfolding j(1) using j(2) by (simp add: bit_simps)
  qed
qed

lemma halves_of_word:
  fixes x :: uint32
  shows "(ucast (ucast (drop_bit 16 x) :: uint16) :: uint32) OR push_bit 16 (ucast (ucast x :: uint16))
       = uint32FromVax x"
proof (rule bit_eqI)
  fix k
  assume "possible_bit TYPE(uint32) k"
  then have k: "k < 32" by (simp add: possible_bit_word)
  show "bit ((ucast (ucast (drop_bit 16 x) :: uint16) :: uint32) OR push_bit 16 (ucast (ucast x :: uint16))) k
      = bit (uint32FromVax x) k"
  proof (cases "k < 16")
    case True
    then show ?thesis using k by (simp add: bit_simps uint32FromVax_eq)
  next
    case False
    define j where "j = k - 16"
    have j: "k = 16 + j" "j < 16" using k False unfolding j_def by linarith+
    show ?thesis unfolding j(1) using j(2)
      by (auto simp add: bit_simps uint32FromVax_eq dest: bit_imp_le_length)
  qed
qed

lemma uint32FromVax_involution: "uint32FromVax (uint32FromVax v) = v"
proof (rule bit_eqI)
  fix k
  assume "possible_bit TYPE(uint32) k"
  then have k: "k < 32" by (simp add: possible_bit_word)
  show "bit (uint32FromVax (uint32FromVax v)) k = bit v k"
  proof (cases "k < 16")
    case True
    then show ?thesis using k by (simp add: bit_simps uint32FromVax_eq)
  next
    case False
    define j where "j = k - 16"
    have j: "k = 16 + j" "j < 16" using k False unfolding j_def by linarith+
    show ?thesis unfolding j(1) using j(2)
      by (auto simp add: bit_simps uint32FromVax_eq dest: bit_imp_le_length)
  qed
qed

lemma put32_unpacks: "uint32FromVaxbits (BigEndian_PutUint32 v) = Some (uint32FromVax v)"
proof -
  have a: "drop_bit 24 v = drop_bit 8 (drop_bit 16 v)" by simp
  show ?thesis
    unfolding BigEndian_PutUint32_def uint32FromVaxbits_4 a be16_of_word halves_of_word ..
qed

lemma unpack_put32: "uint32FromVaxbits (BigEndian_PutUint32 (uint32FromVax r)) = Some r"
  by (simp only: put32_unpacks uint32FromVax_involution)

lemma put64_bytes:
  "BigEndian_PutUint64 d = BigEndian_PutUint32 (hi32 d) @ BigEndian_PutUint32 (lo32 d)"
proof -
  have "(ucast (drop_bit 56 d) :: byte) = ucast (drop_bit 24 (hi32 d))"
       "(ucast (drop_bit 48 d) :: byte) = ucast (drop_bit 16 (hi32 d))"
       "(ucast (drop_bit 40 d) :: byte) = ucast (drop_bit 8 (hi32 d))"
       "(ucast (drop_bit 32 d) :: byte) = ucast (hi32 d)"
       "(ucast (drop_bit 24 d) :: byte) = ucast (drop_bit 24 (lo32 d))"
       "(ucast (drop_bit 16 d) :: byte) = ucast (drop_bit 16 (lo32 d))"
       "(ucast (drop_bit 8 d) :: byte) = ucast (drop_bit 8 (lo32 d))"
       "(ucast d :: byte) = ucast (lo32 d)"
    unfolding hi32_def lo32_def
    by (rule bit_eqI; simp add: bit_simps add.commute)+
  then show ?thesis
    by (simp only: BigEndian_PutUint64_def BigEndian_PutUint32_def append.simps)
qed

lemma unpack_G_put32s:
  "unpack_G (BigEndian_PutUint32 a @ BigEndian_PutUint32 b) =
     Some (uint32FromVax b, uint32FromVax a)"
proof -
  note p = put32_unpacks[unfolded BigEndian_PutUint32_def]
  show ?thesis
    unfolding BigEndian_PutUint32_def append.simps unpack_G_8 p by simp
qed

lemma unpack_put64:
  "unpack_G (BigEndian_PutUint64 (join64 (uint32FromVax v2) (uint32FromVax v1))) = Some (v1, v2)"
  by (simp only: put64_bytes hi32_join64 lo32_join64 unpack_G_put32s uint32FromVax_involution)

section \<open>The branches of the encoders\<close>

lemma and_expmaskS: "x AND IeeeSExponentMask = push_bit 23 (ieeeS_exponent x)"
  unfolding ieeeS_exponent_def IeeeSMantissaSize_def cvals
  by (rule bit_eqI) (auto simp add: bit_simps)

lemma ieeeS_exponent_lt: "uint (ieeeS_exponent w) < 256"
  unfolding ieeeS_exponent_eq
  using take_bit_int_less_exp[of 8 "uint (drop_bit 23 w)"] by (simp add: unsigned_take_bit_eq)

lemma ieeeS_mask_zero_iff: "(x AND IeeeSExponentMask = 0) = (ieeeS_exponent x = 0)"
proof
  assume "x AND IeeeSExponentMask = 0"
  then show "ieeeS_exponent x = 0" by (simp add: ieeeS_exponent_def)
next
  assume "ieeeS_exponent x = 0"
  then show "x AND IeeeSExponentMask = 0" by (simp add: and_expmaskS)
qed

lemma ieeeS_mask_ones_iff: "(x AND IeeeSExponentMask = IeeeSExponentMask) = (ieeeS_exponent x = 255)"
proof
  assume "x AND IeeeSExponentMask = IeeeSExponentMask"
  then have "ieeeS_exponent x = drop_bit 23 IeeeSExponentMask"
    by (simp add: ieeeS_exponent_def IeeeSMantissaSize_def)
  then show "ieeeS_exponent x = 255" by (simp add: IeeeSExponentMask_def)
next
  assume "ieeeS_exponent x = 255"
  then have "x AND IeeeSExponentMask = push_bit 23 255"
    by (simp only: and_expmaskS)
  then show "x AND IeeeSExponentMask = IeeeSExponentMask"
    by (simp add: IeeeSExponentMask_def)
qed

lemma not_SignBit_zero: "x AND NOT SignBit = 0 \<Longrightarrow> ieeeS_exponent x = 0"
proof -
  assume a: "x AND NOT SignBit = 0"
  have "x AND IeeeSExponentMask = (x AND NOT SignBit) AND IeeeSExponentMask"
    unfolding cvals by (rule bit_eqI) (auto simp add: bit_simps bit_consts)
  then show ?thesis by (simp add: a ieeeS_mask_zero_iff[symmetric])
qed

lemma uint_plus2:
  fixes e :: uint32
  assumes "uint e < 2 ^ 31"
  shows "uint (e + 2) = uint e + 2"
proof -
  have "uint e + uint (2::uint32) < 2 ^ LENGTH(32)" using assms by simp
  then have "uint (e + 2) = uint e + uint (2::uint32)" by (simp only: uint_add_lem)
  then show ?thesis by simp
qed

lemma F_enc_zero:
  assumes "f AND NOT SignBit = 0"
  shows "VaxFFloatfromFloat32 f = Some (0, None)"
  using assms by (simp add: VaxFFloatfromFloat32_def uint32FromVax_def)

lemma F_enc_infnan:
  assumes "ieeeS_exponent f = 255"
  shows "VaxFFloatfromFloat32 f =
    Some (uint32FromVax ((f AND SignBit) OR VaxFExponentMask),
          Some ''no VAX equivalent for IEEE +-Infinity and +-NaN'')"
proof -
  have "f AND NOT SignBit \<noteq> 0" using assms not_SignBit_zero[of f] by auto
  then show ?thesis
    using assms by (simp add: VaxFFloatfromFloat32_def ieeeS_mask_ones_iff)
qed

lemma F_enc_finite:
  assumes "ieeeS_exponent f \<noteq> 0" "ieeeS_exponent f \<noteq> 255"
  shows "VaxFFloatfromFloat32 f =
    (if uint (ieeeS_exponent f) = 254
     then Some (uint32FromVax ((f AND SignBit) OR NOT SignBit),
                Some ''IEEE S_Float too large for VAX F_Float'')
     else Some (uint32FromVax ((f AND SignBit) OR push_bit 23 (ieeeS_exponent f + 2) OR
                  (f AND VaxFMantissaMask)), None))"
proof -
  have nz: "f AND NOT SignBit \<noteq> 0" using assms not_SignBit_zero[of f] by auto
  have lt: "uint (ieeeS_exponent f) < 256" by (rule ieeeS_exponent_lt)
  then have u: "uint (ieeeS_exponent f + 2) = uint (ieeeS_exponent f) + 2"
    by (intro uint_plus2) simp
  have e: "drop_bit 23 f AND drop_bit 23 IeeeSExponentMask = ieeeS_exponent f"
    by (simp add: ieeeS_exponent_def IeeeSMantissaSize_def)
  have c: "ExponentAdjustment_toF = 2" "2 * VaxFExponentBias - 1 = 255" "unat VaxFMantissaSize = 23"
    by (simp_all add: cdefs)
  have "0 \<le> uint (ieeeS_exponent f)" by simp
  with u have "uint (ieeeS_exponent f + 2) \<noteq> 0" by linarith
  then have nz2: "ieeeS_exponent f + 2 \<noteq> 0" by auto
  have ne: "uint (ieeeS_exponent f) \<noteq> 255"
    using assms(2) by (simp add: word_uint_eq_iff)
  have gt: "(255 < ieeeS_exponent f + 2) = (uint (ieeeS_exponent f) = 254)"
    using lt u ne by (auto simp add: word_less_def)
  show ?thesis
    using nz assms nz2
    by (simp add: VaxFFloatfromFloat32_def ieeeS_mask_ones_iff e c gt Let_def)
qed

lemma and_expmaskT: "x AND IeeeTExponentMask = push_bit 20 (ieeeT_exponent x)"
  unfolding ieeeT_exponent_def IeeeTMantissaSize_def cvals
  by (rule bit_eqI) (auto simp add: bit_simps)

lemma ieeeT_exponent_lt: "uint (ieeeT_exponent w) < 2048"
  unfolding ieeeT_exponent_eq
  using take_bit_int_less_exp[of 11 "uint (drop_bit 20 w)"] by (simp add: unsigned_take_bit_eq)

lemma ieeeT_mask_zero_iff: "(x AND IeeeTExponentMask = 0) = (ieeeT_exponent x = 0)"
proof
  assume "x AND IeeeTExponentMask = 0"
  then show "ieeeT_exponent x = 0" by (simp add: ieeeT_exponent_def)
next
  assume "ieeeT_exponent x = 0"
  then show "x AND IeeeTExponentMask = 0" by (simp add: and_expmaskT)
qed

lemma ieeeT_mask_ones_iff: "(x AND IeeeTExponentMask = IeeeTExponentMask) = (ieeeT_exponent x = 2047)"
proof
  assume "x AND IeeeTExponentMask = IeeeTExponentMask"
  then have "ieeeT_exponent x = drop_bit 20 IeeeTExponentMask"
    by (simp add: ieeeT_exponent_def IeeeTMantissaSize_def)
  then show "ieeeT_exponent x = 2047" by (simp add: IeeeTExponentMask_def)
next
  assume "ieeeT_exponent x = 2047"
  then have "x AND IeeeTExponentMask = push_bit 20 2047"
    by (simp only: and_expmaskT)
  then show "x AND IeeeTExponentMask = IeeeTExponentMask"
    by (simp add: IeeeTExponentMask_def)
qed

lemma not_SignBit_zero_T: "x AND NOT SignBit = 0 \<Longrightarrow> ieeeT_exponent x = 0"
proof -
  assume a: "x AND NOT SignBit = 0"
  have "x AND IeeeTExponentMask = (x AND NOT SignBit) AND IeeeTExponentMask"
    unfolding cvals by (rule bit_eqI) (auto simp add: bit_simps bit_consts)
  then show ?thesis by (simp add: a ieeeT_mask_zero_iff[symmetric])
qed

lemma lo32_and: "(ucast (d AND 0x0FFFFFFFF) :: uint32) = lo32 (d::uint64)"
proof -
  have m: "(0x0FFFFFFFF :: uint64) = mask 32" by (simp add: mask_eq_exp_minus_1)
  show ?thesis unfolding m lo32_def by (rule bit_eqI) (auto simp add: bit_simps)
qed

lemma G_enc_unfold:
  "VaxGFloatfromFloat64 d =
     (let ieeepart1 = hi32 d; vaxpart2 = lo32 d in
       (if (ieeepart1 AND NOT SignBit) OR vaxpart2 = 0 then Some (0, vaxpart2, None)
        else
          let e = ieeepart1 AND IeeeTExponentMask in
          if e = IeeeTExponentMask
          then Some ((ieeepart1 AND SignBit) OR VaxGExponentMask, 0,
                     Some ''no VAX equivalent for IEEE +-Infinity and +-NaN'')
          else do {
            let e = drop_bit (unat VaxGMantissaSize) e;
            let m = ieeepart1 AND VaxGMantissaMask;
            (m, vaxpart2, e) \<leftarrow>
              (if e = 0 then do {
                 (m, vaxpart2, e) \<leftarrow>
                   normalize_G (push_bit 1 m OR drop_bit 31 vaxpart2) (push_bit 1 vaxpart2) e;
                 Some (m AND VaxGMantissaMask, vaxpart2, e)
               } else Some (m, vaxpart2, e));
            let e = e + ExponentAdjustment_toG;
            if e \<le> 0 then Some (0, 0, None)
            else if e > 2 * VaxGExponentBias - 1
            then Some ((ieeepart1 AND SignBit) OR NOT SignBit, 0xFFFFFFFF,
                       Some ''IEEE T_Float too large for VAX G_Float'')
            else Some ((ieeepart1 AND SignBit) OR push_bit (unat VaxGMantissaSize) e OR m,
                       vaxpart2, None)
          }) \<bind> (\<lambda>(vaxpart1, vaxpart2, err).
     Some (join64 (uint32FromVax vaxpart2) (uint32FromVax vaxpart1), err)))"
  unfolding VaxGFloatfromFloat64_def lo32_and hi32_def[symmetric] join64_def Let_def ..

lemma G_enc_zero:
  assumes "(hi32 d AND NOT SignBit) OR lo32 d = 0"
  shows "VaxGFloatfromFloat64 d = Some (0, None)"
proof -
  have "lo32 d = 0" using assms by (simp add: or_eq_0_iff)
  then show ?thesis
    using assms by (simp add: G_enc_unfold uint32FromVax_def join64_def)
qed

lemma G_enc_infnan:
  assumes "ieeeT_exponent (hi32 d) = 2047"
  shows "VaxGFloatfromFloat64 d =
    Some (join64 (uint32FromVax 0) (uint32FromVax ((hi32 d AND SignBit) OR VaxGExponentMask)),
          Some ''no VAX equivalent for IEEE +-Infinity and +-NaN'')"
proof -
  have "hi32 d AND NOT SignBit \<noteq> 0" using assms not_SignBit_zero_T[of "hi32 d"] by auto
  then have "(hi32 d AND NOT SignBit) OR lo32 d \<noteq> 0" by (simp add: or_eq_0_iff)
  then show ?thesis
    using assms by (simp add: G_enc_unfold ieeeT_mask_ones_iff)
qed

lemma G_enc_finite:
  assumes "ieeeT_exponent (hi32 d) \<noteq> 0" "ieeeT_exponent (hi32 d) \<noteq> 2047"
  shows "VaxGFloatfromFloat64 d =
    (if uint (ieeeT_exponent (hi32 d)) = 2046
     then Some (join64 (uint32FromVax 0xFFFFFFFF) (uint32FromVax ((hi32 d AND SignBit) OR NOT SignBit)),
                Some ''IEEE T_Float too large for VAX G_Float'')
     else Some (join64 (uint32FromVax (lo32 d))
                  (uint32FromVax ((hi32 d AND SignBit) OR push_bit 20 (ieeeT_exponent (hi32 d) + 2) OR
                  (hi32 d AND VaxGMantissaMask))), None))"
proof -
  let ?E = "ieeeT_exponent (hi32 d)"
  have "hi32 d AND NOT SignBit \<noteq> 0" using assms not_SignBit_zero_T[of "hi32 d"] by auto
  then have nz: "(hi32 d AND NOT SignBit) OR lo32 d \<noteq> 0" by (simp add: or_eq_0_iff)
  have lt: "uint ?E < 2048" by (rule ieeeT_exponent_lt)
  then have u: "uint (?E + 2) = uint ?E + 2"
    by (intro uint_plus2) simp
  have e: "drop_bit 20 (hi32 d) AND drop_bit 20 IeeeTExponentMask = ?E"
    by (simp add: ieeeT_exponent_def IeeeTMantissaSize_def)
  have c: "ExponentAdjustment_toG = 2" "2 * VaxGExponentBias - 1 = 2047" "unat VaxGMantissaSize = 20"
    by (simp_all add: cdefs)
  have "0 \<le> uint ?E" by simp
  with u have "uint (?E + 2) \<noteq> 0" by linarith
  then have nz2: "?E + 2 \<noteq> 0" by auto
  have ne: "uint ?E \<noteq> 2047"
    using assms(2) by (simp add: word_uint_eq_iff)
  have gt: "(2047 < ?E + 2) = (uint ?E = 2046)"
    using lt u ne by (auto simp add: word_less_def)
  show ?thesis
    using nz assms nz2
    by (simp add: G_enc_unfold ieeeT_mask_ones_iff e c gt Let_def)
qed

section \<open>Special cases and errors\<close>

lemma saturation_fields_F:
  fixes s :: uint32
  shows "((s AND SignBit) OR VaxFExponentMask) AND SignBit = s AND SignBit"
    and "vaxF_exponent ((s AND SignBit) OR VaxFExponentMask) = 255"
    and "((s AND SignBit) OR VaxFExponentMask) AND VaxFMantissaMask = 0"
    and "((s AND SignBit) OR NOT SignBit) AND SignBit = s AND SignBit"
    and "((s AND SignBit) OR NOT SignBit) AND VaxFExponentMask = VaxFExponentMask"
    and "((s AND SignBit) OR NOT SignBit) AND VaxFMantissaMask = VaxFMantissaMask"
proof -
  have m: "(255::uint32) = mask 8" by (simp add: mask_eq_exp_minus_1)
  show "((s AND SignBit) OR VaxFExponentMask) AND SignBit = s AND SignBit"
    "((s AND SignBit) OR VaxFExponentMask) AND VaxFMantissaMask = 0"
    "((s AND SignBit) OR NOT SignBit) AND SignBit = s AND SignBit"
    "((s AND SignBit) OR NOT SignBit) AND VaxFExponentMask = VaxFExponentMask"
    "((s AND SignBit) OR NOT SignBit) AND VaxFMantissaMask = VaxFMantissaMask"
    unfolding cvals
    by (rule bit_eqI; auto simp add: bit_simps bit_consts)+
  show "vaxF_exponent ((s AND SignBit) OR VaxFExponentMask) = 255"
    unfolding vaxF_exponent_eq m cvals
    by (rule bit_eqI) (auto simp add: bit_simps bit_consts)
qed

lemma saturation_fields_G:
  fixes s :: uint32
  shows "((s AND SignBit) OR VaxGExponentMask) AND SignBit = s AND SignBit"
    and "vaxG_exponent ((s AND SignBit) OR VaxGExponentMask) = 2047"
    and "((s AND SignBit) OR VaxGExponentMask) AND VaxGMantissaMask = 0"
    and "((s AND SignBit) OR NOT SignBit) AND SignBit = s AND SignBit"
    and "((s AND SignBit) OR NOT SignBit) AND VaxGExponentMask = VaxGExponentMask"
    and "((s AND SignBit) OR NOT SignBit) AND VaxGMantissaMask = VaxGMantissaMask"
proof -
  have m: "(2047::uint32) = mask 11" by (simp add: mask_eq_exp_minus_1)
  show "((s AND SignBit) OR VaxGExponentMask) AND SignBit = s AND SignBit"
    "((s AND SignBit) OR VaxGExponentMask) AND VaxGMantissaMask = 0"
    "((s AND SignBit) OR NOT SignBit) AND SignBit = s AND SignBit"
    "((s AND SignBit) OR NOT SignBit) AND VaxGExponentMask = VaxGExponentMask"
    "((s AND SignBit) OR NOT SignBit) AND VaxGMantissaMask = VaxGMantissaMask"
    unfolding cvals
    by (rule bit_eqI; auto simp add: bit_simps bit_consts)+
  show "vaxG_exponent ((s AND SignBit) OR VaxGExponentMask) = 2047"
    unfolding vaxG_exponent_eq m cvals
    by (rule bit_eqI) (auto simp add: bit_simps bit_consts)
qed

lemma SignBit_nonzero: "SignBit \<noteq> 0"
  by (simp add: SignBit_def)

text \<open>
  Claim C9. For every 32-bit value \<open>v\<close>, \<open>uint32FromVax v\<close> exchanges the two 16-bit
  halves of \<open>v\<close>: the high half of the result is the low half of \<open>v\<close> and the low half
  of the result is the high half of \<open>v\<close>. The function is total, and applying it twice
  gives \<open>v\<close> back.
\<close>
theorem uint32FromVax_swaps_halves:
  "drop_bit 16 (uint32FromVax v) = take_bit 16 v \<and>
   take_bit 16 (uint32FromVax v) = drop_bit 16 v \<and>
   uint32FromVax (uint32FromVax v) = v"
proof (intro conjI)
  show "drop_bit 16 (uint32FromVax v) = take_bit 16 v"
    unfolding uint32FromVax_eq by (rule bit_eqI) (auto simp add: bit_simps)
  show "take_bit 16 (uint32FromVax v) = drop_bit 16 v"
    unfolding uint32FromVax_eq by (rule bit_eqI) (auto simp add: bit_simps dest: bit_imp_le_length)
  show "uint32FromVax (uint32FromVax v) = v"
    by (rule uint32FromVax_involution)
qed

text \<open>
  Claim C3. \<open>Float32fromVaxFFloat\<close> and \<open>Float64fromVaxGFloat\<close> return a non-nil error
  exactly when the unpacked input has exponent field 0 and sign bit 1 (a reserved operand);
  the value returned with the error is zero, and every other input gives a nil error.
\<close>
theorem reserved_operand_is_the_only_decode_error:
  "(uint32FromVaxbits buf4 = Some w \<longrightarrow>
      (\<exists>x err. Float32fromVaxFFloat buf4 = Some (x, err) \<and>
         (err \<noteq> None \<longleftrightarrow> vaxF_exponent w = 0 \<and> w AND SignBit = SignBit) \<and>
         (err \<noteq> None \<longrightarrow> x = 0))) \<and>
   (unpack_G buf8 = Some (w1, w2) \<longrightarrow>
      (\<exists>x err. Float64fromVaxGFloat buf8 = Some (x, err) \<and>
         (err \<noteq> None \<longleftrightarrow> vaxG_exponent w1 = 0 \<and> w1 AND SignBit = SignBit) \<and>
         (err \<noteq> None \<longrightarrow> x = 0)))"
proof (intro conjI impI)
  assume u: "uint32FromVaxbits buf4 = Some w"
  consider "vaxF_exponent w = 0" | "vaxF_exponent w \<noteq> 0" "0 < rebiased_F w"
    | "vaxF_exponent w \<noteq> 0" "rebiased_F w \<le> 0" by linarith
  then show "\<exists>x err. Float32fromVaxFFloat buf4 = Some (x, err) \<and>
         (err \<noteq> None \<longleftrightarrow> vaxF_exponent w = 0 \<and> w AND SignBit = SignBit) \<and>
         (err \<noteq> None \<longrightarrow> x = 0)"
  proof cases
    case 1
    then show ?thesis by (simp add: F_dec_zero[OF u])
  next
    case 2
    then show ?thesis by (simp add: F_dec_normal[OF u])
  next
    case 3
    then show ?thesis by (simp add: F_dec_subnormal[OF u])
  qed
next
  assume u: "unpack_G buf8 = Some (w1, w2)"
  consider "vaxG_exponent w1 = 0" | "vaxG_exponent w1 \<noteq> 0" "0 < rebiased_G w1"
    | "vaxG_exponent w1 \<noteq> 0" "rebiased_G w1 \<le> 0" by linarith
  then show "\<exists>x err. Float64fromVaxGFloat buf8 = Some (x, err) \<and>
         (err \<noteq> None \<longleftrightarrow> vaxG_exponent w1 = 0 \<and> w1 AND SignBit = SignBit) \<and>
         (err \<noteq> None \<longrightarrow> x = 0)"
  proof cases
    case 1
    then show ?thesis by (simp add: G_dec_zero[OF u])
  next
    case 2
    then show ?thesis by (simp add: G_dec_normal[OF u])
  next
    case 3
    then show ?thesis by (simp add: G_dec_subnormal[OF u] Let_def)
  qed
qed

theorem reserved_operand_witness:
  "uint32FromVaxbits [0, 0, 0x80, 0] = Some 0x80000000 \<and>
   unpack_G [0, 0, 0, 0, 0, 0, 0x80, 0] = Some (0x80000000, 0) \<and>
   (\<exists>x err. Float32fromVaxFFloat [0, 0, 0x80, 0] = Some (x, err) \<and> err \<noteq> None \<and> x = 0) \<and>
   (\<exists>x err. Float64fromVaxGFloat [0, 0, 0, 0, 0, 0, 0x80, 0] = Some (x, err) \<and>
      err \<noteq> None \<and> x = 0)"
proof -
  have h1: "uint32FromVaxbits [0, 0, 0x80, 0] = Some 0x80000000"
    by (simp add: uint32FromVaxbits_4)
  have h2: "unpack_G [0, 0, 0, 0, 0, 0, 0x80, 0] = Some (0x80000000, 0)"
    by (simp add: unpack_G_8 uint32FromVaxbits_4)
  have f: "vaxF_exponent 0x80000000 = 0" "vaxG_exponent 0x80000000 = 0"
    "(0x80000000::uint32) AND SignBit = SignBit"
    by (simp_all add: vaxF_exponent_def vaxG_exponent_def cdefs)
  from reserved_operand_is_the_only_decode_error
         [of "[0, 0, 0x80, 0]" "0x80000000" "[0, 0, 0, 0, 0, 0, 0x80, 0]" "0x80000000" 0]
  show ?thesis
    unfolding h1 h2 f by auto
qed

text \<open>
  Claim C4. For every IEEE single (double) input whose exponent field is all-ones, that is
  an infinity of either sign or a NaN, \<open>VaxFFloatfromFloat32\<close>
  (\<open>VaxGFloatfromFloat64\<close>) returns the no-VAX-equivalent error together with the
  saturation pattern: the sign bit of the input, an exponent field of all ones and a zero
  mantissa. The pattern is stated on the result with its 16-bit words swapped back.
\<close>
theorem infinity_nan_rejected:
  "(f AND IeeeSExponentMask = IeeeSExponentMask \<longrightarrow>
      (\<exists>r. VaxFFloatfromFloat32 f =
             Some (r, Some ''no VAX equivalent for IEEE +-Infinity and +-NaN'') \<and>
           uint32FromVax r = (f AND SignBit) OR VaxFExponentMask \<and>
           uint32FromVax r AND SignBit = f AND SignBit \<and>
           vaxF_exponent (uint32FromVax r) = 255 \<and>
           uint32FromVax r AND VaxFMantissaMask = 0)) \<and>
   (hi32 d AND IeeeTExponentMask = IeeeTExponentMask \<longrightarrow>
      (\<exists>r. VaxGFloatfromFloat64 d =
             Some (r, Some ''no VAX equivalent for IEEE +-Infinity and +-NaN'') \<and>
           uint32FromVax (lo32 r) = (hi32 d AND SignBit) OR VaxGExponentMask \<and>
           uint32FromVax (lo32 r) AND SignBit = hi32 d AND SignBit \<and>
           vaxG_exponent (uint32FromVax (lo32 r)) = 2047 \<and>
           uint32FromVax (lo32 r) AND VaxGMantissaMask = 0 \<and>
           uint32FromVax (hi32 r) = 0))"
proof (intro conjI impI)
  assume "f AND IeeeSExponentMask = IeeeSExponentMask"
  then have "ieeeS_exponent f = 255" by (simp only: ieeeS_mask_ones_iff)
  from F_enc_infnan[OF this]
  show "\<exists>r. VaxFFloatfromFloat32 f =
             Some (r, Some ''no VAX equivalent for IEEE +-Infinity and +-NaN'') \<and>
           uint32FromVax r = (f AND SignBit) OR VaxFExponentMask \<and>
           uint32FromVax r AND SignBit = f AND SignBit \<and>
           vaxF_exponent (uint32FromVax r) = 255 \<and>
           uint32FromVax r AND VaxFMantissaMask = 0"
    by (simp add: uint32FromVax_involution saturation_fields_F)
next
  assume "hi32 d AND IeeeTExponentMask = IeeeTExponentMask"
  then have "ieeeT_exponent (hi32 d) = 2047" by (simp only: ieeeT_mask_ones_iff)
  from G_enc_infnan[OF this]
  show "\<exists>r. VaxGFloatfromFloat64 d =
             Some (r, Some ''no VAX equivalent for IEEE +-Infinity and +-NaN'') \<and>
           uint32FromVax (lo32 r) = (hi32 d AND SignBit) OR VaxGExponentMask \<and>
           uint32FromVax (lo32 r) AND SignBit = hi32 d AND SignBit \<and>
           vaxG_exponent (uint32FromVax (lo32 r)) = 2047 \<and>
           uint32FromVax (lo32 r) AND VaxGMantissaMask = 0 \<and>
           uint32FromVax (hi32 r) = 0"
    by (simp add: uint32FromVax_involution saturation_fields_G hi32_join64 lo32_join64)
qed

theorem infinity_nan_witness:
  "(0x7F800000 :: float32) AND IeeeSExponentMask = IeeeSExponentMask \<and>
   hi32 0xFFF8000000000000 AND IeeeTExponentMask = IeeeTExponentMask \<and>
   (\<exists>r. VaxFFloatfromFloat32 0x7F800000 =
          Some (r, Some ''no VAX equivalent for IEEE +-Infinity and +-NaN'') \<and>
        uint32FromVax r = 0x7F800000) \<and>
   (\<exists>r. VaxGFloatfromFloat64 0xFFF8000000000000 =
          Some (r, Some ''no VAX equivalent for IEEE +-Infinity and +-NaN'') \<and>
        uint32FromVax (lo32 r) = 0xFFF00000 \<and> uint32FromVax (hi32 r) = 0)"
proof -
  have h1: "(0x7F800000 :: float32) AND IeeeSExponentMask = IeeeSExponentMask"
    by (simp add: IeeeSExponentMask_def)
  have h2: "hi32 0xFFF8000000000000 AND IeeeTExponentMask = IeeeTExponentMask"
    by (simp add: IeeeTExponentMask_def hi32_def)
  have v: "((0x7F800000 :: float32) AND SignBit) OR VaxFExponentMask = 0x7F800000"
    "(hi32 0xFFF8000000000000 AND SignBit) OR VaxGExponentMask = 0xFFF00000"
    by (simp_all add: cdefs hi32_def)
  from infinity_nan_rejected[of "0x7F800000" "0xFFF8000000000000"] h1 h2
  show ?thesis unfolding v by auto
qed

lemma adjusted_S_subnormal: "ieeeS_exponent f = 0 \<Longrightarrow> adjusted_S f \<le> 2"
  by (simp add: adjusted_S_def cdefs)

lemma adjusted_S_normal: "ieeeS_exponent f \<noteq> 0 \<Longrightarrow> adjusted_S f = uint (ieeeS_exponent f) + 2"
  by (simp add: adjusted_S_def cdefs)

lemma adjusted_T_subnormal: "ieeeT_exponent (hi32 d) = 0 \<Longrightarrow> adjusted_T d \<le> 2"
  by (simp add: adjusted_T_def cdefs)

lemma adjusted_T_normal:
  "ieeeT_exponent (hi32 d) \<noteq> 0 \<Longrightarrow> adjusted_T d = uint (ieeeT_exponent (hi32 d)) + 2"
  by (simp add: adjusted_T_def cdefs)

text \<open>
  Claim C5. For every finite IEEE single (double) input whose adjusted exponent \<open>e'\<close>
  exceeds \<open>2 * legacyBias - 1\<close>, the encoder returns the too-large error together with
  the pattern that has the sign bit of the input and all ones in the exponent and mantissa
  fields.
\<close>
theorem overflow_saturates:
  "(f AND IeeeSExponentMask \<noteq> IeeeSExponentMask \<and>
    2 * uint VaxFExponentBias - 1 < adjusted_S f \<longrightarrow>
      (\<exists>r. VaxFFloatfromFloat32 f = Some (r, Some ''IEEE S_Float too large for VAX F_Float'') \<and>
           uint32FromVax r = (f AND SignBit) OR NOT SignBit \<and>
           uint32FromVax r AND SignBit = f AND SignBit \<and>
           uint32FromVax r AND VaxFExponentMask = VaxFExponentMask \<and>
           uint32FromVax r AND VaxFMantissaMask = VaxFMantissaMask)) \<and>
   (hi32 d AND IeeeTExponentMask \<noteq> IeeeTExponentMask \<and>
    2 * uint VaxGExponentBias - 1 < adjusted_T d \<longrightarrow>
      (\<exists>r. VaxGFloatfromFloat64 d = Some (r, Some ''IEEE T_Float too large for VAX G_Float'') \<and>
           uint32FromVax (lo32 r) = (hi32 d AND SignBit) OR NOT SignBit \<and>
           uint32FromVax (lo32 r) AND SignBit = hi32 d AND SignBit \<and>
           uint32FromVax (lo32 r) AND VaxGExponentMask = VaxGExponentMask \<and>
           uint32FromVax (lo32 r) AND VaxGMantissaMask = VaxGMantissaMask \<and>
           uint32FromVax (hi32 r) = 0xFFFFFFFF))"
proof (intro conjI impI)
  assume a: "f AND IeeeSExponentMask \<noteq> IeeeSExponentMask \<and>
    2 * uint VaxFExponentBias - 1 < adjusted_S f"
  then have ne: "ieeeS_exponent f \<noteq> 255" by (simp only: ieeeS_mask_ones_iff) simp
  have big: "255 < adjusted_S f" using a by (simp add: cdefs)
  have nz: "ieeeS_exponent f \<noteq> 0" using big adjusted_S_subnormal[of f] by auto
  have lt: "uint (ieeeS_exponent f) < 256" by (rule ieeeS_exponent_lt)
  have n255: "uint (ieeeS_exponent f) \<noteq> 255" using ne by (simp add: word_uint_eq_iff)
  have "uint (ieeeS_exponent f) = 254"
    using big lt n255 unfolding adjusted_S_normal[OF nz] by linarith
  then show "\<exists>r. VaxFFloatfromFloat32 f = Some (r, Some ''IEEE S_Float too large for VAX F_Float'') \<and>
           uint32FromVax r = (f AND SignBit) OR NOT SignBit \<and>
           uint32FromVax r AND SignBit = f AND SignBit \<and>
           uint32FromVax r AND VaxFExponentMask = VaxFExponentMask \<and>
           uint32FromVax r AND VaxFMantissaMask = VaxFMantissaMask"
    by (simp add: F_enc_finite[OF nz ne] uint32FromVax_involution saturation_fields_F)
next
  assume a: "hi32 d AND IeeeTExponentMask \<noteq> IeeeTExponentMask \<and>
    2 * uint VaxGExponentBias - 1 < adjusted_T d"
  then have ne: "ieeeT_exponent (hi32 d) \<noteq> 2047" by (simp only: ieeeT_mask_ones_iff) simp
  have big: "2047 < adjusted_T d" using a by (simp add: cdefs)
  have nz: "ieeeT_exponent (hi32 d) \<noteq> 0" using big adjusted_T_subnormal[of d] by auto
  have lt: "uint (ieeeT_exponent (hi32 d)) < 2048" by (rule ieeeT_exponent_lt)
  have n2047: "uint (ieeeT_exponent (hi32 d)) \<noteq> 2047" using ne by (simp add: word_uint_eq_iff)
  have "uint (ieeeT_exponent (hi32 d)) = 2046"
    using big lt n2047 unfolding adjusted_T_normal[OF nz] by linarith
  then show "\<exists>r. VaxGFloatfromFloat64 d = Some (r, Some ''IEEE T_Float too large for VAX G_Float'') \<and>
           uint32FromVax (lo32 r) = (hi32 d AND SignBit) OR NOT SignBit \<and>
           uint32FromVax (lo32 r) AND SignBit = hi32 d AND SignBit \<and>
           uint32FromVax (lo32 r) AND VaxGExponentMask = VaxGExponentMask \<and>
           uint32FromVax (lo32 r) AND VaxGMantissaMask = VaxGMantissaMask \<and>
           uint32FromVax (hi32 r) = 0xFFFFFFFF"
    by (simp add: G_enc_finite[OF nz ne] uint32FromVax_involution saturation_fields_G
          hi32_join64 lo32_join64)
qed

theorem overflow_witness:
  "(0x7F000000 :: float32) AND IeeeSExponentMask \<noteq> IeeeSExponentMask \<and>
   2 * uint VaxFExponentBias - 1 < adjusted_S 0x7F000000 \<and>
   hi32 0xFFE0000000000000 AND IeeeTExponentMask \<noteq> IeeeTExponentMask \<and>
   2 * uint VaxGExponentBias - 1 < adjusted_T 0xFFE0000000000000 \<and>
   (\<exists>r. VaxFFloatfromFloat32 0x7F000000 =
          Some (r, Some ''IEEE S_Float too large for VAX F_Float'') \<and>
        uint32FromVax r = 0x7FFFFFFF) \<and>
   (\<exists>r. VaxGFloatfromFloat64 0xFFE0000000000000 =
          Some (r, Some ''IEEE T_Float too large for VAX G_Float'') \<and>
        uint32FromVax (lo32 r) = 0xFFFFFFFF \<and> uint32FromVax (hi32 r) = 0xFFFFFFFF)"
proof -
  have h1: "(0x7F000000 :: float32) AND IeeeSExponentMask \<noteq> IeeeSExponentMask \<and>
     2 * uint VaxFExponentBias - 1 < adjusted_S 0x7F000000"
    by (simp add: adjusted_S_def ieeeS_exponent_def cdefs)
  have h2: "hi32 0xFFE0000000000000 AND IeeeTExponentMask \<noteq> IeeeTExponentMask \<and>
     2 * uint VaxGExponentBias - 1 < adjusted_T 0xFFE0000000000000"
    by (simp add: adjusted_T_def ieeeT_exponent_def cdefs hi32_def)
  have v: "((0x7F000000 :: float32) AND SignBit) OR NOT SignBit = 0x7FFFFFFF"
    "(hi32 0xFFE0000000000000 AND SignBit) OR NOT SignBit = 0xFFFFFFFF"
    by (simp_all add: cdefs hi32_def)
  from overflow_saturates[of "0x7F000000" "0xFFE0000000000000"] h1 h2
  show ?thesis unfolding v by auto
qed

text \<open>
  Claim C2 says that a finite nonzero input whose adjusted exponent \<open>e'\<close> is at most 0 is
  encoded as zero with a nil error. The smallest subnormal single, with bit pattern 1, has
  \<open>e' = -20\<close>, and the smallest subnormal double has \<open>e' = -49\<close>; on both, the encoder
  returns the too-large error and the all-ones saturation pattern, because \<open>e\<close> is
  unsigned and has wrapped around.
\<close>
theorem underflow_signalled_as_overflow:
  "(1 :: float32) AND IeeeSExponentMask \<noteq> IeeeSExponentMask \<and> (1 :: float32) \<noteq> 0 \<and>
   adjusted_S 1 = - 20 \<and>
   VaxFFloatfromFloat32 1 =
     Some (0xFFFF7FFF, Some ''IEEE S_Float too large for VAX F_Float'') \<and>
   hi32 1 AND IeeeTExponentMask \<noteq> IeeeTExponentMask \<and> (1 :: float64) \<noteq> 0 \<and>
   adjusted_T 1 = - 49 \<and>
   VaxGFloatfromFloat64 1 =
     Some (0xFFFFFFFFFFFF7FFF, Some ''IEEE T_Float too large for VAX G_Float'')"
proof (intro conjI)
  show "adjusted_S 1 = - 20"
    by (simp add: adjusted_S_def ieeeS_exponent_def cdefs shifts_to_hidden.simps)
  show "adjusted_T 1 = - 49"
    by (simp add: adjusted_T_def ieeeT_exponent_def cdefs hi32_def lo32_def join64_def
          shifts_to_hidden.simps)
  show "VaxFFloatfromFloat32 1 =
     Some (0xFFFF7FFF, Some ''IEEE S_Float too large for VAX F_Float'')"
    by (simp add: VaxFFloatfromFloat32_def cdefs normalize_F.simps uint32FromVax_def)
  show "VaxGFloatfromFloat64 1 =
     Some (0xFFFFFFFFFFFF7FFF, Some ''IEEE T_Float too large for VAX G_Float'')"
    by (simp add: VaxGFloatfromFloat64_def cdefs normalize_G.simps uint32FromVax_def)
qed (simp_all add: cdefs hi32_def)

text \<open>
  Claim C6. IEEE +0 and IEEE -0 are both encoded as the legacy true zero (all bits zero)
  with no error, in both widths; and every legacy pattern whose exponent field is 0 and
  whose sign bit is 0, whatever its mantissa, is decoded as IEEE +0 with no error.
\<close>
theorem zero_canonicalization:
  "VaxFFloatfromFloat32 0 = Some (0, None) \<and>
   VaxFFloatfromFloat32 0x80000000 = Some (0, None) \<and>
   VaxGFloatfromFloat64 0 = Some (0, None) \<and>
   VaxGFloatfromFloat64 0x8000000000000000 = Some (0, None) \<and>
   (uint32FromVaxbits buf4 = Some w \<and> vaxF_exponent w = 0 \<and> w AND SignBit = 0 \<longrightarrow>
      Float32fromVaxFFloat buf4 = Some (0, None)) \<and>
   (unpack_G buf8 = Some (w1, w2) \<and> vaxG_exponent w1 = 0 \<and> w1 AND SignBit = 0 \<longrightarrow>
      Float64fromVaxGFloat buf8 = Some (0, None))"
proof (intro conjI impI)
  show "VaxFFloatfromFloat32 0 = Some (0, None)"
    by (rule F_enc_zero) simp
  show "VaxFFloatfromFloat32 0x80000000 = Some (0, None)"
    by (rule F_enc_zero) (simp add: SignBit_def)
  show "VaxGFloatfromFloat64 0 = Some (0, None)"
    by (rule G_enc_zero) (simp add: hi32_def lo32_def)
  show "VaxGFloatfromFloat64 0x8000000000000000 = Some (0, None)"
    by (rule G_enc_zero) (simp add: hi32_def lo32_def SignBit_def)
next
  assume a: "uint32FromVaxbits buf4 = Some w \<and> vaxF_exponent w = 0 \<and> w AND SignBit = 0"
  then have "w AND SignBit \<noteq> SignBit" using SignBit_nonzero by simp
  then show "Float32fromVaxFFloat buf4 = Some (0, None)"
    using a by (simp add: F_dec_zero)
next
  assume a: "unpack_G buf8 = Some (w1, w2) \<and> vaxG_exponent w1 = 0 \<and> w1 AND SignBit = 0"
  then have "w1 AND SignBit \<noteq> SignBit" using SignBit_nonzero by simp
  then show "Float64fromVaxGFloat buf8 = Some (0, None)"
    using a by (simp add: G_dec_zero)
qed

theorem zero_canonicalization_witness:
  "uint32FromVaxbits [0x12, 0x34, 0x00, 0x56] = Some 0x00561234 \<and>
   vaxF_exponent 0x00561234 = 0 \<and> (0x00561234 :: uint32) AND SignBit = 0 \<and>
   unpack_G [0x9A, 0xBC, 0xDE, 0xF0, 0x12, 0x34, 0x00, 0x05] = Some (0x00051234, 0xDEF09ABC) \<and>
   vaxG_exponent 0x00051234 = 0 \<and> (0x00051234 :: uint32) AND SignBit = 0 \<and>
   Float32fromVaxFFloat [0x12, 0x34, 0x00, 0x56] = Some (0, None) \<and>
   Float64fromVaxGFloat [0x9A, 0xBC, 0xDE, 0xF0, 0x12, 0x34, 0x00, 0x05] = Some (0, None)"
proof -
  have h1: "uint32FromVaxbits [0x12, 0x34, 0x00, 0x56] = Some 0x00561234 \<and>
     vaxF_exponent 0x00561234 = 0 \<and> (0x00561234 :: uint32) AND SignBit = 0"
    by (simp add: uint32FromVaxbits_4 vaxF_exponent_def cdefs)
  have h2: "unpack_G [0x9A, 0xBC, 0xDE, 0xF0, 0x12, 0x34, 0x00, 0x05]
       = Some (0x00051234, 0xDEF09ABC) \<and>
     vaxG_exponent 0x00051234 = 0 \<and> (0x00051234 :: uint32) AND SignBit = 0"
    by (simp add: unpack_G_8 uint32FromVaxbits_4 vaxG_exponent_def cdefs)
  from zero_canonicalization[of "[0x12, 0x34, 0x00, 0x56]" "0x00561234"
      "[0x9A, 0xBC, 0xDE, 0xF0, 0x12, 0x34, 0x00, 0x05]" "0x00051234" "0xDEF09ABC"] h1 h2
  show ?thesis by blast
qed

text \<open>
  Claim C7. For every legacy single input with a nonzero exponent field whose re-biased
  exponent \<open>e' = e - (1 + legacyBias - ieeeBias)\<close> is positive, the decoded IEEE pattern
  has the sign bit and the 23-bit mantissa field of the unpacked input, and its exponent
  field is \<open>e'\<close>; likewise for the double width with its 52-bit mantissa (20 bits in the
  high word and the whole low word).
\<close>
theorem normalized_decode_changes_only_the_exponent:
  "(uint32FromVaxbits buf4 = Some w \<and> vaxF_exponent w \<noteq> 0 \<and> 0 < rebiased_F w \<longrightarrow>
      (\<exists>x. Float32fromVaxFFloat buf4 = Some (x, None) \<and>
           x AND SignBit = w AND SignBit \<and>
           x AND IeeeSMantissaMask = w AND VaxFMantissaMask \<and>
           uint (ieeeS_exponent x) = rebiased_F w)) \<and>
   (unpack_G buf8 = Some (w1, w2) \<and> vaxG_exponent w1 \<noteq> 0 \<and> 0 < rebiased_G w1 \<longrightarrow>
      (\<exists>x. Float64fromVaxGFloat buf8 = Some (x, None) \<and>
           hi32 x AND SignBit = w1 AND SignBit \<and>
           hi32 x AND IeeeTMantissaMask = w1 AND VaxGMantissaMask \<and>
           lo32 x = w2 \<and>
           uint (ieeeT_exponent (hi32 x)) = rebiased_G w1))"
proof (intro conjI impI)
  assume a: "uint32FromVaxbits buf4 = Some w \<and> vaxF_exponent w \<noteq> 0 \<and> 0 < rebiased_F w"
  then have p: "0 < rebiased_F w" by simp
  have "Float32fromVaxFFloat buf4 = Some (w - 0x01000000, None)"
    using a by (simp add: F_dec_normal)
  then show "\<exists>x. Float32fromVaxFFloat buf4 = Some (x, None) \<and>
           x AND SignBit = w AND SignBit \<and>
           x AND IeeeSMantissaMask = w AND VaxFMantissaMask \<and>
           uint (ieeeS_exponent x) = rebiased_F w"
    by (simp add: F_normal_fields[OF p])
next
  assume a: "unpack_G buf8 = Some (w1, w2) \<and> vaxG_exponent w1 \<noteq> 0 \<and> 0 < rebiased_G w1"
  then have p: "0 < rebiased_G w1" by simp
  have "Float64fromVaxGFloat buf8 = Some (join64 (w1 - 0x00200000) w2, None)"
    using a by (simp add: G_dec_normal)
  then show "\<exists>x. Float64fromVaxGFloat buf8 = Some (x, None) \<and>
           hi32 x AND SignBit = w1 AND SignBit \<and>
           hi32 x AND IeeeTMantissaMask = w1 AND VaxGMantissaMask \<and>
           lo32 x = w2 \<and>
           uint (ieeeT_exponent (hi32 x)) = rebiased_G w1"
    by (simp add: G_normal_fields[OF p] hi32_join64 lo32_join64)
qed

theorem normalized_decode_witness:
  "uint32FromVaxbits [0x0F, 0xD0, 0xC1, 0x49] = Some 0xC1490FD0 \<and>
   vaxF_exponent 0xC1490FD0 \<noteq> 0 \<and> 0 < rebiased_F 0xC1490FD0 \<and>
   unpack_G [0x2D, 0x18, 0x54, 0x44, 0x21, 0xFB, 0x40, 0x29] = Some (0x402921FB, 0x54442D18) \<and>
   vaxG_exponent 0x402921FB \<noteq> 0 \<and> 0 < rebiased_G 0x402921FB \<and>
   (\<exists>x. Float32fromVaxFFloat [0x0F, 0xD0, 0xC1, 0x49] = Some (x, None) \<and>
        x AND SignBit = 0x80000000 \<and> x AND IeeeSMantissaMask = 0x490FD0 \<and>
        uint (ieeeS_exponent x) = 128) \<and>
   (\<exists>x. Float64fromVaxGFloat [0x2D, 0x18, 0x54, 0x44, 0x21, 0xFB, 0x40, 0x29] = Some (x, None) \<and>
        hi32 x AND SignBit = 0 \<and> hi32 x AND IeeeTMantissaMask = 0x921FB \<and>
        lo32 x = 0x54442D18 \<and> uint (ieeeT_exponent (hi32 x)) = 1024)"
proof -
  have h1: "uint32FromVaxbits [0x0F, 0xD0, 0xC1, 0x49] = Some 0xC1490FD0 \<and>
     vaxF_exponent 0xC1490FD0 \<noteq> 0 \<and> 0 < rebiased_F 0xC1490FD0"
    by (simp add: uint32FromVaxbits_4 rebiased_F_def vaxF_exponent_def cdefs)
  have h2: "unpack_G [0x2D, 0x18, 0x54, 0x44, 0x21, 0xFB, 0x40, 0x29]
       = Some (0x402921FB, 0x54442D18) \<and>
     vaxG_exponent 0x402921FB \<noteq> 0 \<and> 0 < rebiased_G 0x402921FB"
    by (simp add: unpack_G_8 uint32FromVaxbits_4 rebiased_G_def vaxG_exponent_def cdefs)
  have v: "(0xC1490FD0 :: uint32) AND SignBit = 0x80000000"
    "(0xC1490FD0 :: uint32) AND VaxFMantissaMask = 0x490FD0"
    "rebiased_F 0xC1490FD0 = 128"
    "(0x402921FB :: uint32) AND SignBit = 0"
    "(0x402921FB :: uint32) AND VaxGMantissaMask = 0x921FB"
    "rebiased_G 0x402921FB = 1024"
    by (simp_all add: rebiased_F_def rebiased_G_def vaxF_exponent_def vaxG_exponent_def cdefs)
  from normalized_decode_changes_only_the_exponent[of "[0x0F, 0xD0, 0xC1, 0x49]" "0xC1490FD0"
      "[0x2D, 0x18, 0x54, 0x44, 0x21, 0xFB, 0x40, 0x29]" "0x402921FB" "0x54442D18"] h1 h2
  show ?thesis unfolding v by blast
qed

section \<open>Decoding into subnormal form\<close>

lemma rebiased_F_shift:
  assumes "vaxF_exponent w \<noteq> 0" "rebiased_F w \<le> 0"
  shows "0 < nat (1 - rebiased_F w)" "nat (1 - rebiased_F w) \<le> 2"
proof -
  have "uint (vaxF_exponent w) \<noteq> 0" using assms(1) by (simp add: word_uint_eq_iff)
  moreover have "0 \<le> uint (vaxF_exponent w)" by simp
  ultimately have "1 \<le> uint (vaxF_exponent w)" by linarith
  then show "0 < nat (1 - rebiased_F w)" "nat (1 - rebiased_F w) \<le> 2"
    using assms(2) unfolding rebiased_F_eq by linarith+
qed

lemma rebiased_G_shift:
  assumes "vaxG_exponent w \<noteq> 0" "rebiased_G w \<le> 0"
  shows "0 < nat (1 - rebiased_G w)" "nat (1 - rebiased_G w) \<le> 2"
proof -
  have "uint (vaxG_exponent w) \<noteq> 0" using assms(1) by (simp add: word_uint_eq_iff)
  moreover have "0 \<le> uint (vaxG_exponent w)" by simp
  ultimately have "1 \<le> uint (vaxG_exponent w)" by linarith
  then show "0 < nat (1 - rebiased_G w)" "nat (1 - rebiased_G w) \<le> 2"
    using assms(2) unfolding rebiased_G_eq by linarith+
qed

lemma F_dec_subnormal_fields:
  assumes u: "uint32FromVaxbits buf = Some w"
    and e: "vaxF_exponent w \<noteq> 0" "rebiased_F w \<le> 0"
  shows "\<exists>x. Float32fromVaxFFloat buf = Some (x, None) \<and>
           x AND SignBit = w AND SignBit \<and>
           ieeeS_exponent x = 0 \<and>
           x AND IeeeSMantissaMask =
             drop_bit (nat (1 - rebiased_F w)) (VaxFHiddenBit OR (w AND VaxFMantissaMask))"
proof -
  note n = rebiased_F_shift[OF e]
  note f = F_subnormal_fields[OF n(1) refl]
  show ?thesis
    unfolding F_dec_subnormal[OF u e] using f by simp
qed

lemma G_dec_subnormal_fields:
  assumes u: "unpack_G buf = Some (w1, w2)"
    and e: "vaxG_exponent w1 \<noteq> 0" "rebiased_G w1 \<le> 0"
  shows "\<exists>x. Float64fromVaxGFloat buf = Some (x, None) \<and>
           hi32 x AND SignBit = w1 AND SignBit \<and>
           ieeeT_exponent (hi32 x) = 0 \<and>
           join64 (hi32 x AND IeeeTMantissaMask) (lo32 x) =
             drop_bit (nat (1 - rebiased_G w1))
               (join64 (VaxGHiddenBit OR (w1 AND VaxGMantissaMask)) w2)"
proof -
  note n = rebiased_G_shift[OF e]
  note f = G_subnormal_fields[OF n refl refl refl]
  show ?thesis
    unfolding G_dec_subnormal[OF u e] Let_def using f by (simp add: hi32_join64 lo32_join64)
qed

text \<open>
  Claim C8. For every legacy input with a nonzero exponent field whose re-biased exponent
  \<open>e'\<close> is at most 0, the decoder returns the IEEE subnormal (exponent field 0) with the
  sign of the input whose mantissa is the legacy mantissa with the hidden bit put in front,
  shifted right by \<open>1 - e'\<close>; the bits shifted out are dropped. The legacy single bytes
  \<open>1C EA 03 08\<close> decode to the float32 nearest to \<open>9.9999999E-38\<close>: that pattern is
  closer to the decimal than both of its neighbours.
\<close>
theorem subnormal_decode_chops:
  "(uint32FromVaxbits buf4 = Some w \<and> vaxF_exponent w \<noteq> 0 \<and> rebiased_F w \<le> 0 \<longrightarrow>
      (\<exists>x. Float32fromVaxFFloat buf4 = Some (x, None) \<and>
           x AND SignBit = w AND SignBit \<and>
           ieeeS_exponent x = 0 \<and>
           x AND IeeeSMantissaMask =
             drop_bit (nat (1 - rebiased_F w)) (VaxFHiddenBit OR (w AND VaxFMantissaMask)))) \<and>
   (unpack_G buf8 = Some (w1, w2) \<and> vaxG_exponent w1 \<noteq> 0 \<and> rebiased_G w1 \<le> 0 \<longrightarrow>
      (\<exists>x. Float64fromVaxGFloat buf8 = Some (x, None) \<and>
           hi32 x AND SignBit = w1 AND SignBit \<and>
           ieeeT_exponent (hi32 x) = 0 \<and>
           join64 (hi32 x AND IeeeTMantissaMask) (lo32 x) =
             drop_bit (nat (1 - rebiased_G w1))
               (join64 (VaxGHiddenBit OR (w1 AND VaxGMantissaMask)) w2))) \<and>
   (\<exists>x. Float32fromVaxFFloat [0x1C, 0xEA, 0x03, 0x08] = Some (x, None) \<and>
        \<bar>ieeeS_value x - 99999999 / 10 ^ 45\<bar> < \<bar>ieeeS_value (x - 1) - 99999999 / 10 ^ 45\<bar> \<and>
        \<bar>ieeeS_value x - 99999999 / 10 ^ 45\<bar> < \<bar>ieeeS_value (x + 1) - 99999999 / 10 ^ 45\<bar>)"
proof (intro conjI impI)
  assume "uint32FromVaxbits buf4 = Some w \<and> vaxF_exponent w \<noteq> 0 \<and> rebiased_F w \<le> 0"
  then show "\<exists>x. Float32fromVaxFFloat buf4 = Some (x, None) \<and>
           x AND SignBit = w AND SignBit \<and>
           ieeeS_exponent x = 0 \<and>
           x AND IeeeSMantissaMask =
             drop_bit (nat (1 - rebiased_F w)) (VaxFHiddenBit OR (w AND VaxFMantissaMask))"
    by (intro F_dec_subnormal_fields) simp_all
next
  assume "unpack_G buf8 = Some (w1, w2) \<and> vaxG_exponent w1 \<noteq> 0 \<and> rebiased_G w1 \<le> 0"
  then show "\<exists>x. Float64fromVaxGFloat buf8 = Some (x, None) \<and>
           hi32 x AND SignBit = w1 AND SignBit \<and>
           ieeeT_exponent (hi32 x) = 0 \<and>
           join64 (hi32 x AND IeeeTMantissaMask) (lo32 x) =
             drop_bit (nat (1 - rebiased_G w1))
               (join64 (VaxGHiddenBit OR (w1 AND VaxGMantissaMask)) w2)"
    by (intro G_dec_subnormal_fields) simp_all
next
  have d: "Float32fromVaxFFloat [0x1C, 0xEA, 0x03, 0x08] = Some (0x02081CEA, None)"
    by (simp add: Float32fromVaxFFloat_def uint32FromVaxbits_4 cdefs word_sless_alt)
  have n: "\<bar>ieeeS_value 0x02081CEA - 99999999 / 10 ^ 45\<bar>
             < \<bar>ieeeS_value 0x02081CE9 - 99999999 / 10 ^ 45\<bar>"
    "\<bar>ieeeS_value 0x02081CEA - 99999999 / 10 ^ 45\<bar>
             < \<bar>ieeeS_value 0x02081CEB - 99999999 / 10 ^ 45\<bar>"
    by (simp_all add: ieeeS_value_def ieeeS_exponent_def cdefs)
  show "\<exists>x. Float32fromVaxFFloat [0x1C, 0xEA, 0x03, 0x08] = Some (x, None) \<and>
        \<bar>ieeeS_value x - 99999999 / 10 ^ 45\<bar> < \<bar>ieeeS_value (x - 1) - 99999999 / 10 ^ 45\<bar> \<and>
        \<bar>ieeeS_value x - 99999999 / 10 ^ 45\<bar> < \<bar>ieeeS_value (x + 1) - 99999999 / 10 ^ 45\<bar>"
    unfolding d using n by simp
qed

theorem subnormal_decode_witness:
  "uint32FromVaxbits [0x00, 0x03, 0x80, 0x80] = Some 0x80800003 \<and>
   vaxF_exponent 0x80800003 \<noteq> 0 \<and> rebiased_F 0x80800003 \<le> 0 \<and>
   unpack_G [0x00, 0x03, 0x00, 0x00, 0x00, 0x01, 0x80, 0x10] = Some (0x80100001, 0x00000003) \<and>
   vaxG_exponent 0x80100001 \<noteq> 0 \<and> rebiased_G 0x80100001 \<le> 0 \<and>
   (\<exists>x. Float32fromVaxFFloat [0x00, 0x03, 0x80, 0x80] = Some (x, None) \<and>
        x AND SignBit = 0x80000000 \<and> ieeeS_exponent x = 0 \<and>
        x AND IeeeSMantissaMask = 0x200000) \<and>
   (\<exists>x. Float64fromVaxGFloat [0x00, 0x03, 0x00, 0x00, 0x00, 0x01, 0x80, 0x10] = Some (x, None) \<and>
        hi32 x AND SignBit = 0x80000000 \<and> ieeeT_exponent (hi32 x) = 0 \<and>
        join64 (hi32 x AND IeeeTMantissaMask) (lo32 x) = 0x0004000040000000)"
proof -
  have h1: "uint32FromVaxbits [0x00, 0x03, 0x80, 0x80] = Some 0x80800003 \<and>
     vaxF_exponent 0x80800003 \<noteq> 0 \<and> rebiased_F 0x80800003 \<le> 0"
    by (simp add: uint32FromVaxbits_4 rebiased_F_def vaxF_exponent_def cdefs)
  have h2: "unpack_G [0x00, 0x03, 0x00, 0x00, 0x00, 0x01, 0x80, 0x10]
       = Some (0x80100001, 0x00000003) \<and>
     vaxG_exponent 0x80100001 \<noteq> 0 \<and> rebiased_G 0x80100001 \<le> 0"
    by (simp add: unpack_G_8 uint32FromVaxbits_4 rebiased_G_def vaxG_exponent_def cdefs)
  have v: "(0x80800003 :: uint32) AND SignBit = 0x80000000"
    "drop_bit (nat (1 - rebiased_F 0x80800003))
       (VaxFHiddenBit OR ((0x80800003 :: uint32) AND VaxFMantissaMask)) = 0x200000"
    "(0x80100001 :: uint32) AND SignBit = 0x80000000"
    "drop_bit (nat (1 - rebiased_G 0x80100001))
       (join64 (VaxGHiddenBit OR ((0x80100001 :: uint32) AND VaxGMantissaMask)) 0x00000003)
     = 0x0004000040000000"
    by (simp_all add: rebiased_F_def rebiased_G_def vaxF_exponent_def vaxG_exponent_def cdefs
          join64_def)
  from subnormal_decode_chops[of "[0x00, 0x03, 0x80, 0x80]" "0x80800003"
      "[0x00, 0x03, 0x00, 0x00, 0x00, 0x01, 0x80, 0x10]" "0x80100001" "0x00000003"] h1 h2
  show ?thesis unfolding v by blast
qed

lemma boundary_vector_is_normalized:
  "uint32FromVaxbits [0x1C, 0xEA, 0x03, 0x08] = Some 0x03081CEA \<and> rebiased_F 0x03081CEA = 4"
  by (simp add: uint32FromVaxbits_4 rebiased_F_def vaxF_exponent_def cdefs)

lemma ieeeS_exponent_0: "ieeeS_exponent 0 = 0"
  by (simp add: ieeeS_exponent_def)

lemma ieeeT_exponent_0: "ieeeT_exponent 0 = 0"
  by (simp add: ieeeT_exponent_def)

lemma hi32_0: "hi32 0 = 0"
  by (simp add: hi32_def)

lemma F_dec_exponent:
  assumes u: "uint32FromVaxbits buf = Some w"
  shows "\<exists>x err. Float32fromVaxFFloat buf = Some (x, err) \<and>
           uint (ieeeS_exponent x) \<le> 255 - 2 \<and>
           (vaxF_exponent w \<noteq> 0 \<and> rebiased_F w \<le> 0 \<longrightarrow> ieeeS_exponent x = 0)"
proof -
  consider "vaxF_exponent w = 0" | "vaxF_exponent w \<noteq> 0" "0 < rebiased_F w"
    | "vaxF_exponent w \<noteq> 0" "rebiased_F w \<le> 0" by linarith
  then show ?thesis
  proof cases
    case 1
    then show ?thesis by (simp add: F_dec_zero[OF u] ieeeS_exponent_0)
  next
    case 2
    have "uint (vaxF_exponent w) < 256" by (rule vaxF_exponent_lt)
    then have "rebiased_F w \<le> 253" unfolding rebiased_F_eq by linarith
    then show ?thesis
      using 2 by (simp add: F_dec_normal[OF u 2] F_normal_fields[OF 2(2)])
  next
    case 3
    from F_dec_subnormal_fields[OF u 3] show ?thesis by auto
  qed
qed

lemma G_dec_exponent:
  assumes u: "unpack_G buf = Some (w1, w2)"
  shows "\<exists>x err. Float64fromVaxGFloat buf = Some (x, err) \<and>
           uint (ieeeT_exponent (hi32 x)) \<le> 2047 - 2 \<and>
           (vaxG_exponent w1 \<noteq> 0 \<and> rebiased_G w1 \<le> 0 \<longrightarrow> ieeeT_exponent (hi32 x) = 0)"
proof -
  consider "vaxG_exponent w1 = 0" | "vaxG_exponent w1 \<noteq> 0" "0 < rebiased_G w1"
    | "vaxG_exponent w1 \<noteq> 0" "rebiased_G w1 \<le> 0" by linarith
  then show ?thesis
  proof cases
    case 1
    then show ?thesis by (simp add: G_dec_zero[OF u] ieeeT_exponent_0 hi32_0)
  next
    case 2
    have "uint (vaxG_exponent w1) < 2048" by (rule vaxG_exponent_lt)
    then have "rebiased_G w1 \<le> 2045" unfolding rebiased_G_eq by linarith
    then show ?thesis
      using 2 by (simp add: G_dec_normal[OF u 2] G_normal_fields[OF 2(2)] hi32_join64)
  next
    case 3
    from G_dec_subnormal_fields[OF u 3] show ?thesis by auto
  qed
qed

text \<open>
  Claim C10. For every 4-byte input, the float32 returned by \<open>Float32fromVaxFFloat\<close>
  has an exponent field of at most 255 less the bias adjustment 2, so it is never an
  infinity or a NaN; likewise, with 2047, for every 8-byte input of
  \<open>Float64fromVaxGFloat\<close>. On the subnormal path the exponent field is 0.
\<close>
theorem decoded_value_is_finite:
  "(length buf4 = 4 \<longrightarrow>
      (\<exists>w x err. uint32FromVaxbits buf4 = Some w \<and>
           Float32fromVaxFFloat buf4 = Some (x, err) \<and>
           uint (ieeeS_exponent x) \<le> 255 - 2 \<and>
           x AND IeeeSExponentMask \<noteq> IeeeSExponentMask \<and>
           (vaxF_exponent w \<noteq> 0 \<and> rebiased_F w \<le> 0 \<longrightarrow> ieeeS_exponent x = 0))) \<and>
   (length buf8 = 8 \<longrightarrow>
      (\<exists>w1 w2 x err. unpack_G buf8 = Some (w1, w2) \<and>
           Float64fromVaxGFloat buf8 = Some (x, err) \<and>
           uint (ieeeT_exponent (hi32 x)) \<le> 2047 - 2 \<and>
           hi32 x AND IeeeTExponentMask \<noteq> IeeeTExponentMask \<and>
           (vaxG_exponent w1 \<noteq> 0 \<and> rebiased_G w1 \<le> 0 \<longrightarrow> ieeeT_exponent (hi32 x) = 0)))"
proof (intro conjI impI)
  assume "length buf4 = 4"
  then obtain w where u: "uint32FromVaxbits buf4 = Some w"
    using uint32FromVaxbits_total by blast
  from F_dec_exponent[OF u] obtain x err where
    x: "Float32fromVaxFFloat buf4 = Some (x, err)" "uint (ieeeS_exponent x) \<le> 255 - 2"
       "vaxF_exponent w \<noteq> 0 \<and> rebiased_F w \<le> 0 \<longrightarrow> ieeeS_exponent x = 0"
    by blast
  have "ieeeS_exponent x \<noteq> 255" using x(2) by auto
  then have "x AND IeeeSExponentMask \<noteq> IeeeSExponentMask" by (simp only: ieeeS_mask_ones_iff) simp
  with u x show "\<exists>w x err. uint32FromVaxbits buf4 = Some w \<and>
           Float32fromVaxFFloat buf4 = Some (x, err) \<and>
           uint (ieeeS_exponent x) \<le> 255 - 2 \<and>
           x AND IeeeSExponentMask \<noteq> IeeeSExponentMask \<and>
           (vaxF_exponent w \<noteq> 0 \<and> rebiased_F w \<le> 0 \<longrightarrow> ieeeS_exponent x = 0)"
    by blast
next
  assume "length buf8 = 8"
  then obtain w1 w2 where u: "unpack_G buf8 = Some (w1, w2)"
    using unpack_G_total by blast
  from G_dec_exponent[OF u] obtain x err where
    x: "Float64fromVaxGFloat buf8 = Some (x, err)" "uint (ieeeT_exponent (hi32 x)) \<le> 2047 - 2"
       "vaxG_exponent w1 \<noteq> 0 \<and> rebiased_G w1 \<le> 0 \<longrightarrow> ieeeT_exponent (hi32 x) = 0"
    by blast
  have "ieeeT_exponent (hi32 x) \<noteq> 2047" using x(2) by auto
  then have "hi32 x AND IeeeTExponentMask \<noteq> IeeeTExponentMask"
    by (simp only: ieeeT_mask_ones_iff) simp
  with u x show "\<exists>w1 w2 x err. unpack_G buf8 = Some (w1, w2) \<and>
           Float64fromVaxGFloat buf8 = Some (x, err) \<and>
           uint (ieeeT_exponent (hi32 x)) \<le> 2047 - 2 \<and>
           hi32 x AND IeeeTExponentMask \<noteq> IeeeTExponentMask \<and>
           (vaxG_exponent w1 \<noteq> 0 \<and> rebiased_G w1 \<le> 0 \<longrightarrow> ieeeT_exponent (hi32 x) = 0)"
    by blast
qed

theorem decoded_value_is_finite_witness:
  "length [0xFF, 0xFF, 0x00, 0xFF :: byte] = 4 \<and>
   length [0xFF, 0xFF, 0xFF, 0xFF, 0xFF, 0xFF, 0x80, 0x1F :: byte] = 8 \<and>
   vaxF_exponent 0x00FFFFFF \<noteq> 0 \<and> rebiased_F 0x00FFFFFF \<le> 0 \<and>
   vaxG_exponent 0x801FFFFF \<noteq> 0 \<and> rebiased_G 0x801FFFFF \<le> 0 \<and>
   (\<exists>x err. Float32fromVaxFFloat [0xFF, 0xFF, 0x00, 0xFF] = Some (x, err) \<and>
        x AND IeeeSExponentMask \<noteq> IeeeSExponentMask \<and> ieeeS_exponent x = 0) \<and>
   (\<exists>x err. Float64fromVaxGFloat [0xFF, 0xFF, 0xFF, 0xFF, 0xFF, 0xFF, 0x80, 0x1F] = Some (x, err) \<and>
        hi32 x AND IeeeTExponentMask \<noteq> IeeeTExponentMask \<and> ieeeT_exponent (hi32 x) = 0)"
proof -
  have h1: "length [0xFF, 0xFF, 0x00, 0xFF :: byte] = 4"
    "length [0xFF, 0xFF, 0xFF, 0xFF, 0xFF, 0xFF, 0x80, 0x1F :: byte] = 8"
    by simp_all
  have h2: "uint32FromVaxbits [0xFF, 0xFF, 0x00, 0xFF] = Some 0x00FFFFFF"
    "unpack_G [0xFF, 0xFF, 0xFF, 0xFF, 0xFF, 0xFF, 0x80, 0x1F] = Some (0x801FFFFF, 0xFFFFFFFF)"
    by (simp_all add: unpack_G_8 uint32FromVaxbits_4)
  have h3: "vaxF_exponent 0x00FFFFFF \<noteq> 0 \<and> rebiased_F 0x00FFFFFF \<le> 0"
    "vaxG_exponent 0x801FFFFF \<noteq> 0 \<and> rebiased_G 0x801FFFFF \<le> 0"
    by (simp_all add: rebiased_F_def rebiased_G_def vaxF_exponent_def vaxG_exponent_def cdefs)
  from decoded_value_is_finite[of "[0xFF, 0xFF, 0x00, 0xFF]"
      "[0xFF, 0xFF, 0xFF, 0xFF, 0xFF, 0xFF, 0x80, 0x1F]"] h1 h3
  show ?thesis unfolding h2 by auto
qed

section \<open>Round trip\<close>

text \<open>
  A word is determined by its sign, exponent and mantissa fields, so the round trip is
  proved field by field: for normalized IEEE inputs through the in-place exponent
  adjustment, and for the subnormal inputs that the legacy format still represents through
  the normalisation loop of the encoder and the subnormal branch of the decoder.
\<close>

lemma word_fields_32:
  fixes x :: uint32
  shows "x = (x AND SignBit) OR push_bit 23 (take_bit 8 (drop_bit 23 x)) OR take_bit 23 x"
proof (rule bit_eqI)
  fix n
  assume "possible_bit TYPE(uint32) n"
  then have n: "n < 32" by (simp add: possible_bit_word)
  consider "n < 23" | "23 \<le> n" "n < 31" | "n = 31" using n by linarith
  then show "bit x n = bit ((x AND SignBit) OR push_bit 23 (take_bit 8 (drop_bit 23 x)) OR take_bit 23 x) n"
  proof cases
    case 1
    then show ?thesis by (simp add: bit_simps bit_consts)
  next
    case 2
    define j where "j = n - 23"
    have j: "n = 23 + j" "j < 8" using 2 unfolding j_def by linarith+
    show ?thesis unfolding j(1) using j(2) by (simp add: bit_simps bit_consts)
  next
    case 3
    then show ?thesis by (simp add: bit_simps bit_consts)
  qed
qed

lemma ieeeS_fields_eq:
  assumes "x AND SignBit = y AND SignBit" "ieeeS_exponent x = ieeeS_exponent y"
    "x AND IeeeSMantissaMask = y AND IeeeSMantissaMask"
  shows "x = y"
proof -
  have "take_bit 23 x = take_bit 23 y"
    using assms(3) unfolding cvals by (simp add: take_bit_eq_mask)
  moreover have "take_bit 8 (drop_bit 23 x) = take_bit 8 (drop_bit 23 y)"
    using assms(2) unfolding ieeeS_exponent_eq .
  ultimately show ?thesis
    using assms(1) word_fields_32[of x] word_fields_32[of y] by simp
qed

lemma compose_fields_F:
  fixes s f e :: uint32
  assumes "uint e < 256"
  defines "c \<equiv> (s AND SignBit) OR push_bit 23 e OR (f AND VaxFMantissaMask)"
  shows "c AND SignBit = s AND SignBit"
    and "vaxF_exponent c = e"
    and "c AND VaxFMantissaMask = f AND VaxFMantissaMask"
proof -
  have "uint e < 2 ^ 8" using assms(1) by simp
  then have "e < 2 ^ 8" by (simp add: word_less_def)
  then have "e AND mask 8 = e" by (rule less_mask_eq)
  then have e: "take_bit 8 e = e" by (simp add: take_bit_eq_mask)
  have c: "c = (s AND SignBit) OR push_bit 23 (take_bit 8 e) OR (f AND VaxFMantissaMask)"
    unfolding c_def e ..
  show "c AND SignBit = s AND SignBit"
    unfolding c cvals by (rule bit_eqI) (auto simp add: bit_simps bit_consts)
  show "c AND VaxFMantissaMask = f AND VaxFMantissaMask"
    unfolding c cvals by (rule bit_eqI) (auto simp add: bit_simps bit_consts)
  have "vaxF_exponent c = take_bit 8 e"
    unfolding c cvals vaxF_exponent_eq by (rule bit_eqI) (auto simp add: bit_simps bit_consts)
  then show "vaxF_exponent c = e" unfolding e .
qed

lemma F_roundtrip_normal:
  assumes nz: "ieeeS_exponent f \<noteq> 0" and le: "uint (ieeeS_exponent f) \<le> 253"
  shows "\<exists>v. VaxFFloatfromFloat32 f = Some (v, None) \<and>
             Float32fromVaxFFloat (BigEndian_PutUint32 v) = Some (f, None)"
proof -
  let ?E = "ieeeS_exponent f"
  define r where "r = (f AND SignBit) OR push_bit 23 (?E + 2) OR (f AND VaxFMantissaMask)"
  have ne: "?E \<noteq> 255" using le by auto
  have n254: "uint ?E \<noteq> 254" using le by simp
  have enc: "VaxFFloatfromFloat32 f = Some (uint32FromVax r, None)"
    unfolding r_def using n254 by (simp add: F_enc_finite[OF nz ne])
  have u: "uint (?E + 2) = uint ?E + 2"
    using le by (intro uint_plus2) simp
  then have lt: "uint (?E + 2) < 256" using le by simp
  note c = compose_fields_F[OF lt, of f f, folded r_def]
  have "0 \<le> uint ?E" by simp
  moreover have "uint ?E \<noteq> 0" using nz by (simp add: word_uint_eq_iff)
  ultimately have pos: "0 < uint ?E" by linarith
  have rb: "rebiased_F r = uint ?E" unfolding rebiased_F_eq c u by simp
  then have p: "0 < rebiased_F r" using pos by simp
  have rnz: "vaxF_exponent r \<noteq> 0" unfolding c using u pos by auto
  have dec: "Float32fromVaxFFloat (BigEndian_PutUint32 (uint32FromVax r)) = Some (r - 0x01000000, None)"
    by (rule F_dec_normal[OF unpack_put32 rnz p])
  note g = F_normal_fields[OF p]
  have "r - 0x01000000 = f"
  proof (rule ieeeS_fields_eq)
    show "(r - 0x01000000) AND SignBit = f AND SignBit" unfolding g c ..
    show "(r - 0x01000000) AND IeeeSMantissaMask = f AND IeeeSMantissaMask"
      unfolding g c unfolding cvals ..
    show "ieeeS_exponent (r - 0x01000000) = ieeeS_exponent f"
      using g(3) rb by (simp add: word_uint_eq_iff)
  qed
  with enc dec show ?thesis by simp
qed

lemma F_enc_sub_consts:
  "ExponentAdjustment_toF = 2" "2 * VaxFExponentBias - 1 = 255" "unat VaxFMantissaSize = 23"
  by (simp_all add: cdefs)

lemma F_enc_sub0:
  assumes z: "ieeeS_exponent f = 0" and b: "bit f 22"
  shows "VaxFFloatfromFloat32 f =
    Some (uint32FromVax ((f AND SignBit) OR push_bit 23 2 OR
            (push_bit 1 (f AND VaxFMantissaMask) AND VaxFMantissaMask)), None)"
proof -
  define m1 where "m1 = push_bit 1 (f AND VaxFMantissaMask)"
  have "bit (f AND NOT SignBit) 22" using b by (simp add: bit_simps bit_consts)
  then have nz: "f AND NOT SignBit \<noteq> 0" by auto
  have "bit (m1 AND VaxFHiddenBit) 23"
    unfolding m1_def cvals using b by (simp add: bit_simps bit_consts del: push_bit_Suc)
  then have h: "m1 AND VaxFHiddenBit \<noteq> 0" by auto
  have loop: "normalize_F m1 0 = Some (m1, 0)"
    by (subst normalize_F.simps) (simp add: h)
  have ne: "f AND IeeeSExponentMask \<noteq> IeeeSExponentMask"
    unfolding ieeeS_mask_ones_iff z by simp
  have e: "drop_bit 23 (f AND IeeeSExponentMask) = 0"
    using z by (simp add: ieeeS_exponent_def IeeeSMantissaSize_def)
  show ?thesis
    unfolding VaxFFloatfromFloat32_def Let_def F_enc_sub_consts e m1_def[symmetric] loop
    using nz ne by simp
qed

lemma F_enc_sub1:
  assumes z: "ieeeS_exponent f = 0" and b: "\<not> bit f 22" "bit f 21"
  shows "VaxFFloatfromFloat32 f =
    Some (uint32FromVax ((f AND SignBit) OR push_bit 23 1 OR
            (push_bit 1 (push_bit 1 (f AND VaxFMantissaMask)) AND VaxFMantissaMask)), None)"
proof -
  define m1 where "m1 = push_bit 1 (f AND VaxFMantissaMask)"
  define m2 where "m2 = push_bit 1 m1"
  have "bit (f AND NOT SignBit) 21" using b by (simp add: bit_simps bit_consts)
  then have nz: "f AND NOT SignBit \<noteq> 0" by auto
  have h1: "m1 AND VaxFHiddenBit = 0"
    unfolding m1_def cvals using b
    by (intro bit_eqI) (auto simp add: bit_simps bit_consts simp del: push_bit_Suc)
  have "bit (m2 AND VaxFHiddenBit) 23"
    unfolding m2_def m1_def cvals using b by (simp add: bit_simps bit_consts del: push_bit_Suc)
  then have h2: "m2 AND VaxFHiddenBit \<noteq> 0" by auto
  have "normalize_F m2 (0 - 1) = Some (m2, 0 - 1)"
    by (subst normalize_F.simps) (simp add: h2)
  then have loop: "normalize_F m1 0 = Some (m2, 0 - 1)"
    by (subst normalize_F.simps) (simp add: h1 m2_def)
  have ne: "f AND IeeeSExponentMask \<noteq> IeeeSExponentMask"
    unfolding ieeeS_mask_ones_iff z by simp
  have e: "drop_bit 23 (f AND IeeeSExponentMask) = 0"
    using z by (simp add: ieeeS_exponent_def IeeeSMantissaSize_def)
  show ?thesis
    unfolding VaxFFloatfromFloat32_def Let_def F_enc_sub_consts e m1_def[symmetric] loop
    using nz ne by (simp add: m2_def)
qed

lemma unshift1_F:
  fixes f :: uint32
  assumes "bit f 22"
  shows "drop_bit 1 (VaxFHiddenBit OR (push_bit 1 (f AND VaxFMantissaMask) AND VaxFMantissaMask))
       = f AND IeeeSMantissaMask"
proof (rule bit_eqI)
  fix k
  assume "possible_bit TYPE(uint32) k"
  then have k: "k < 32" by (simp add: possible_bit_word)
  consider "k < 22" | "k = 22" | "22 < k" by linarith
  then show "bit (drop_bit 1 (VaxFHiddenBit OR (push_bit 1 (f AND VaxFMantissaMask) AND VaxFMantissaMask))) k
      = bit (f AND IeeeSMantissaMask) k"
    unfolding cvals using assms k
    by cases (auto simp add: bit_simps bit_consts simp del: push_bit_Suc drop_bit_Suc)
qed

lemma unshift2_F:
  fixes f :: uint32
  assumes "\<not> bit f 22" "bit f 21"
  shows "drop_bit 2 (VaxFHiddenBit OR
           (push_bit 1 (push_bit 1 (f AND VaxFMantissaMask)) AND VaxFMantissaMask))
       = f AND IeeeSMantissaMask"
proof (rule bit_eqI)
  fix k
  assume "possible_bit TYPE(uint32) k"
  then have k: "k < 32" by (simp add: possible_bit_word)
  consider "k < 21" | "k = 21" | "k = 22" | "22 < k" by linarith
  then show "bit (drop_bit 2 (VaxFHiddenBit OR
           (push_bit 1 (push_bit 1 (f AND VaxFMantissaMask)) AND VaxFMantissaMask))) k
      = bit (f AND IeeeSMantissaMask) k"
    unfolding cvals using assms k
    by cases (auto simp add: bit_simps bit_consts simp del: push_bit_Suc drop_bit_Suc)
qed

lemma F_roundtrip_subnormal:
  assumes z: "ieeeS_exponent f = 0"
    and enc: "VaxFFloatfromFloat32 f =
       Some (uint32FromVax ((f AND SignBit) OR push_bit 23 e OR (m AND VaxFMantissaMask)), None)"
    and e: "uint e = 1 \<or> uint e = 2"
    and m: "drop_bit (nat (3 - uint e)) (VaxFHiddenBit OR (m AND VaxFMantissaMask))
              = f AND IeeeSMantissaMask"
  shows "\<exists>v. VaxFFloatfromFloat32 f = Some (v, None) \<and>
             Float32fromVaxFFloat (BigEndian_PutUint32 v) = Some (f, None)"
proof -
  define r where "r = (f AND SignBit) OR push_bit 23 e OR (m AND VaxFMantissaMask)"
  have lt: "uint e < 256" using e by auto
  note c = compose_fields_F[OF lt, of f m, folded r_def]
  have rnz: "vaxF_exponent r \<noteq> 0" unfolding c using e by auto
  have rb: "rebiased_F r \<le> 0" "nat (1 - rebiased_F r) = nat (3 - uint e)"
    unfolding rebiased_F_eq c using e by auto
  from F_dec_subnormal_fields[OF unpack_put32 rnz rb(1)] obtain x where
    x: "Float32fromVaxFFloat (BigEndian_PutUint32 (uint32FromVax r)) = Some (x, None)"
       "x AND SignBit = r AND SignBit" "ieeeS_exponent x = 0"
       "x AND IeeeSMantissaMask =
          drop_bit (nat (1 - rebiased_F r)) (VaxFHiddenBit OR (r AND VaxFMantissaMask))"
    by blast
  have "x = f"
  proof (rule ieeeS_fields_eq)
    show "x AND SignBit = f AND SignBit" unfolding x(2) c ..
    show "ieeeS_exponent x = ieeeS_exponent f" unfolding x(3) z ..
    show "x AND IeeeSMantissaMask = f AND IeeeSMantissaMask"
      unfolding x(4) c rb(2) by (rule m)
  qed
  with x(1) enc show ?thesis unfolding r_def by simp
qed

lemma F_roundtrip_sub0:
  assumes z: "ieeeS_exponent f = 0" and b: "bit f 22"
  shows "\<exists>v. VaxFFloatfromFloat32 f = Some (v, None) \<and>
             Float32fromVaxFFloat (BigEndian_PutUint32 v) = Some (f, None)"
proof (rule F_roundtrip_subnormal[OF z F_enc_sub0[OF z b]])
  show "uint (2::uint32) = 1 \<or> uint (2::uint32) = 2" by simp
  have "nat (3 - uint (2::uint32)) = 1" by simp
  then show "drop_bit (nat (3 - uint (2::uint32)))
      (VaxFHiddenBit OR (push_bit 1 (f AND VaxFMantissaMask) AND VaxFMantissaMask))
      = f AND IeeeSMantissaMask"
    using unshift1_F[OF b] by (simp only:)
qed

lemma F_roundtrip_sub1:
  assumes z: "ieeeS_exponent f = 0" and b: "\<not> bit f 22" "bit f 21"
  shows "\<exists>v. VaxFFloatfromFloat32 f = Some (v, None) \<and>
             Float32fromVaxFFloat (BigEndian_PutUint32 v) = Some (f, None)"
proof (rule F_roundtrip_subnormal[OF z F_enc_sub1[OF z b]])
  show "uint (1::uint32) = 1 \<or> uint (1::uint32) = 2" by simp
  have "nat (3 - uint (1::uint32)) = 2" by simp
  then show "drop_bit (nat (3 - uint (1::uint32)))
      (VaxFHiddenBit OR (push_bit 1 (push_bit 1 (f AND VaxFMantissaMask)) AND VaxFMantissaMask))
      = f AND IeeeSMantissaMask"
    using unshift2_F[OF b] by (simp only:)
qed

lemma ieeeS_exponent_magnitude: "ieeeS_exponent f = drop_bit 23 (f AND NOT SignBit)"
  unfolding ieeeS_exponent_eq
proof (rule bit_eqI)
  fix k
  assume "possible_bit TYPE(uint32) k"
  then have k: "k < 32" by (simp add: possible_bit_word)
  show "bit (take_bit 8 (drop_bit 23 f)) k = bit (drop_bit 23 (f AND NOT SignBit)) k"
  proof (cases "k < 8")
    case True
    then have "23 + k \<noteq> 31" by linarith
    with True show ?thesis by (simp add: bit_simps bit_consts)
  next
    case False
    then have "23 + k = 31 \<or> 32 \<le> 23 + k" by linarith
    with False show ?thesis by (auto simp add: bit_simps bit_consts dest: bit_imp_le_length)
  qed
qed

lemma exponent_zero_bits:
  assumes "ieeeS_exponent f = 0" "23 \<le> n" "n < 31"
  shows "\<not> bit f n"
proof -
  define j where "j = n - 23"
  have j: "n = 23 + j" "j < 8" using assms(2,3) unfolding j_def by linarith+
  have "\<not> bit (take_bit 8 (drop_bit 23 f)) j"
    using assms(1) unfolding ieeeS_exponent_eq by simp
  then show ?thesis unfolding j(1) using j(2) by (simp add: bit_simps)
qed

lemma in_vaxF_range_cases:
  assumes "in_vaxF_range f"
  shows "(ieeeS_exponent f \<noteq> 0 \<and> uint (ieeeS_exponent f) \<le> 253) \<or>
         (ieeeS_exponent f = 0 \<and> bit f 22) \<or>
         (ieeeS_exponent f = 0 \<and> \<not> bit f 22 \<and> bit f 21)"
proof -
  define a where "a = f AND NOT SignBit"
  have lo: "0x00200000 \<le> a" and hi: "a \<le> 0x7EFFFFFF"
    using assms unfolding in_vaxF_range_def a_def by simp_all
  have "unat a \<le> 2130706431" using hi by (simp add: word_le_nat_alt)
  then have "unat a div 2 ^ 23 \<le> 2130706431 div 2 ^ 23" by (rule div_le_mono)
  then have "unat (ieeeS_exponent f) \<le> 253"
    unfolding ieeeS_exponent_magnitude a_def[symmetric] unat_drop_bit by simp
  moreover have "int (unat (ieeeS_exponent f)) = uint (ieeeS_exponent f)" by simp
  ultimately have le: "uint (ieeeS_exponent f) \<le> 253" by linarith
  show ?thesis
  proof (cases "ieeeS_exponent f = 0")
    case False
    with le show ?thesis by simp
  next
    case z: True
    have "bit f 22 \<or> bit f 21"
    proof (rule ccontr)
      assume n: "\<not> (bit f 22 \<or> bit f 21)"
      have "a = take_bit 21 f"
        unfolding a_def
      proof (rule bit_eqI)
        fix k
        assume "possible_bit TYPE(uint32) k"
        then have k: "k < 32" by (simp add: possible_bit_word)
        consider "k < 21" | "k = 21" | "k = 22" | "23 \<le> k" "k < 31" | "k = 31"
          using k by linarith
        then show "bit (f AND NOT SignBit) k = bit (take_bit 21 f) k"
        proof cases
          case 4
          then show ?thesis using exponent_zero_bits[OF z 4] by (simp add: bit_simps bit_consts)
        qed (use n in \<open>simp_all add: bit_simps bit_consts\<close>)
      qed
      then have "unat a = unat f mod 2 ^ 21" by (simp only: unat_take_bit)
      then have "unat a < 2097152" by simp
      moreover have "2097152 \<le> unat a" using lo by (simp add: word_le_nat_alt)
      ultimately show False by linarith
    qed
    with z show ?thesis by blast
  qed
qed

lemma F_roundtrip:
  assumes "in_vaxF_range f"
  shows "\<exists>v. VaxFFloatfromFloat32 f = Some (v, None) \<and>
             Float32fromVaxFFloat (BigEndian_PutUint32 v) = Some (f, None)"
  using in_vaxF_range_cases[OF assms] F_roundtrip_normal F_roundtrip_sub0 F_roundtrip_sub1
  by blast

lemma word_fields_32_T:
  fixes x :: uint32
  shows "x = (x AND SignBit) OR push_bit 20 (take_bit 11 (drop_bit 20 x)) OR take_bit 20 x"
proof (rule bit_eqI)
  fix n
  assume "possible_bit TYPE(uint32) n"
  then have n: "n < 32" by (simp add: possible_bit_word)
  consider "n < 20" | "20 \<le> n" "n < 31" | "n = 31" using n by linarith
  then show "bit x n = bit ((x AND SignBit) OR push_bit 20 (take_bit 11 (drop_bit 20 x)) OR take_bit 20 x) n"
  proof cases
    case 1
    then show ?thesis by (simp add: bit_simps bit_consts)
  next
    case 2
    define j where "j = n - 20"
    have j: "n = 20 + j" "j < 11" using 2 unfolding j_def by linarith+
    show ?thesis unfolding j(1) using j(2) by (simp add: bit_simps bit_consts)
  next
    case 3
    then show ?thesis by (simp add: bit_simps bit_consts)
  qed
qed

lemma ieeeT_fields_eq:
  assumes "x AND SignBit = y AND SignBit" "ieeeT_exponent x = ieeeT_exponent y"
    "x AND IeeeTMantissaMask = y AND IeeeTMantissaMask"
  shows "x = y"
proof -
  have "take_bit 20 x = take_bit 20 y"
    using assms(3) unfolding cvals by (simp add: take_bit_eq_mask)
  moreover have "take_bit 11 (drop_bit 20 x) = take_bit 11 (drop_bit 20 y)"
    using assms(2) unfolding ieeeT_exponent_eq .
  ultimately show ?thesis
    using assms(1) word_fields_32_T[of x] word_fields_32_T[of y] by simp
qed

lemma float64_fields_eq:
  assumes "hi32 x AND SignBit = hi32 y AND SignBit"
    "ieeeT_exponent (hi32 x) = ieeeT_exponent (hi32 y)"
    "join64 (hi32 x AND IeeeTMantissaMask) (lo32 x) = join64 (hi32 y AND IeeeTMantissaMask) (lo32 y)"
  shows "x = y"
proof -
  have "hi32 (join64 (hi32 x AND IeeeTMantissaMask) (lo32 x))
      = hi32 (join64 (hi32 y AND IeeeTMantissaMask) (lo32 y))"
    "lo32 (join64 (hi32 x AND IeeeTMantissaMask) (lo32 x))
      = lo32 (join64 (hi32 y AND IeeeTMantissaMask) (lo32 y))"
    using assms(3) by simp_all
  then have m: "hi32 x AND IeeeTMantissaMask = hi32 y AND IeeeTMantissaMask" "lo32 x = lo32 y"
    unfolding hi32_join64 lo32_join64 .
  have "hi32 x = hi32 y" by (rule ieeeT_fields_eq[OF assms(1,2) m(1)])
  then have "join64 (hi32 x) (lo32 x) = join64 (hi32 y) (lo32 y)" using m(2) by simp
  then show ?thesis unfolding join64_hi_lo .
qed

lemma compose_fields_G:
  fixes s f e :: uint32
  assumes "uint e < 2048"
  defines "c \<equiv> (s AND SignBit) OR push_bit 20 e OR (f AND VaxGMantissaMask)"
  shows "c AND SignBit = s AND SignBit"
    and "vaxG_exponent c = e"
    and "c AND VaxGMantissaMask = f AND VaxGMantissaMask"
proof -
  have "uint e < 2 ^ 11" using assms(1) by simp
  then have "e < 2 ^ 11" by (simp add: word_less_def)
  then have "e AND mask 11 = e" by (rule less_mask_eq)
  then have e: "take_bit 11 e = e" by (simp add: take_bit_eq_mask)
  have c: "c = (s AND SignBit) OR push_bit 20 (take_bit 11 e) OR (f AND VaxGMantissaMask)"
    unfolding c_def e ..
  show "c AND SignBit = s AND SignBit"
    unfolding c cvals by (rule bit_eqI) (auto simp add: bit_simps bit_consts)
  show "c AND VaxGMantissaMask = f AND VaxGMantissaMask"
    unfolding c cvals by (rule bit_eqI) (auto simp add: bit_simps bit_consts)
  have "vaxG_exponent c = take_bit 11 e"
    unfolding c cvals vaxG_exponent_eq by (rule bit_eqI) (auto simp add: bit_simps bit_consts)
  then show "vaxG_exponent c = e" unfolding e .
qed

lemma G_roundtrip_normal:
  assumes nz: "ieeeT_exponent (hi32 d) \<noteq> 0" and le: "uint (ieeeT_exponent (hi32 d)) \<le> 2045"
  shows "\<exists>v. VaxGFloatfromFloat64 d = Some (v, None) \<and>
             Float64fromVaxGFloat (BigEndian_PutUint64 v) = Some (d, None)"
proof -
  let ?E = "ieeeT_exponent (hi32 d)"
  define r where "r = (hi32 d AND SignBit) OR push_bit 20 (?E + 2) OR (hi32 d AND VaxGMantissaMask)"
  have ne: "?E \<noteq> 2047" using le by auto
  have n2046: "uint ?E \<noteq> 2046" using le by simp
  have enc: "VaxGFloatfromFloat64 d =
      Some (join64 (uint32FromVax (lo32 d)) (uint32FromVax r), None)"
    unfolding r_def using n2046 by (simp add: G_enc_finite[OF nz ne])
  have u: "uint (?E + 2) = uint ?E + 2"
    using le by (intro uint_plus2) simp
  then have lt: "uint (?E + 2) < 2048" using le by simp
  note c = compose_fields_G[OF lt, of "hi32 d" "hi32 d", folded r_def]
  have "0 \<le> uint ?E" by simp
  moreover have "uint ?E \<noteq> 0" using nz by (simp add: word_uint_eq_iff)
  ultimately have pos: "0 < uint ?E" by linarith
  have rb: "rebiased_G r = uint ?E" unfolding rebiased_G_eq c u by simp
  then have p: "0 < rebiased_G r" using pos by simp
  have rnz: "vaxG_exponent r \<noteq> 0" unfolding c using u pos by auto
  have dec: "Float64fromVaxGFloat
        (BigEndian_PutUint64 (join64 (uint32FromVax (lo32 d)) (uint32FromVax r)))
      = Some (join64 (r - 0x00200000) (lo32 d), None)"
    by (rule G_dec_normal[OF unpack_put64 rnz p])
  note g = G_normal_fields[OF p]
  have "r - 0x00200000 = hi32 d"
  proof (rule ieeeT_fields_eq)
    show "(r - 0x00200000) AND SignBit = hi32 d AND SignBit" unfolding g c ..
    show "(r - 0x00200000) AND IeeeTMantissaMask = hi32 d AND IeeeTMantissaMask"
      unfolding g c unfolding cvals ..
    show "ieeeT_exponent (r - 0x00200000) = ieeeT_exponent (hi32 d)"
      using g(3) rb by (simp add: word_uint_eq_iff)
  qed
  then have "join64 (r - 0x00200000) (lo32 d) = d" by (simp add: join64_hi_lo)
  with enc dec show ?thesis by simp
qed

lemma G_enc_sub_consts:
  "ExponentAdjustment_toG = 2" "2 * VaxGExponentBias - 1 = 2047" "unat VaxGMantissaSize = 20"
  by (simp_all add: cdefs)

lemma G_enc_sub_pre:
  assumes z: "ieeeT_exponent (hi32 d) = 0" and nz: "hi32 d AND NOT SignBit \<noteq> 0"
  shows "(hi32 d AND NOT SignBit) OR lo32 d \<noteq> 0"
    and "hi32 d AND IeeeTExponentMask \<noteq> IeeeTExponentMask"
    and "drop_bit 20 (hi32 d AND IeeeTExponentMask) = 0"
proof -
  show "(hi32 d AND NOT SignBit) OR lo32 d \<noteq> 0" using nz by (simp add: or_eq_0_iff)
  show "hi32 d AND IeeeTExponentMask \<noteq> IeeeTExponentMask"
    unfolding ieeeT_mask_ones_iff z by simp
  show "drop_bit 20 (hi32 d AND IeeeTExponentMask) = 0"
    using z by (simp add: ieeeT_exponent_def IeeeTMantissaSize_def)
qed

lemma G_enc_sub0:
  assumes z: "ieeeT_exponent (hi32 d) = 0" and b: "bit (hi32 d) 19"
  shows "VaxGFloatfromFloat64 d =
    Some (join64 (uint32FromVax (push_bit 1 (lo32 d)))
           (uint32FromVax ((hi32 d AND SignBit) OR push_bit 20 2 OR
              ((push_bit 1 (hi32 d AND VaxGMantissaMask) OR drop_bit 31 (lo32 d))
                 AND VaxGMantissaMask))), None)"
proof -
  define m1 where "m1 = push_bit 1 (hi32 d AND VaxGMantissaMask) OR drop_bit 31 (lo32 d)"
  define l1 where "l1 = push_bit 1 (lo32 d)"
  have "bit (hi32 d AND NOT SignBit) 19" using b by (simp add: bit_simps bit_consts)
  then have nz: "hi32 d AND NOT SignBit \<noteq> 0" by auto
  have "bit (m1 AND VaxGHiddenBit) 20"
    unfolding m1_def cvals using b by (simp add: bit_simps bit_consts del: push_bit_Suc)
  then have h: "m1 AND VaxGHiddenBit \<noteq> 0" by auto
  have loop: "normalize_G m1 l1 0 = Some (m1, l1, 0)"
    by (subst normalize_G.simps) (simp add: h)
  note p = G_enc_sub_pre[OF z nz]
  show ?thesis
    unfolding G_enc_unfold Let_def G_enc_sub_consts p(3) m1_def[symmetric] l1_def[symmetric] loop
    using p(1,2) by simp
qed

lemma G_enc_sub1:
  assumes z: "ieeeT_exponent (hi32 d) = 0" and b: "\<not> bit (hi32 d) 19" "bit (hi32 d) 18"
  shows "VaxGFloatfromFloat64 d =
    Some (join64 (uint32FromVax (push_bit 1 (push_bit 1 (lo32 d))))
           (uint32FromVax ((hi32 d AND SignBit) OR push_bit 20 1 OR
              ((push_bit 1 (push_bit 1 (hi32 d AND VaxGMantissaMask) OR drop_bit 31 (lo32 d))
                  OR drop_bit 31 (push_bit 1 (lo32 d)))
                 AND VaxGMantissaMask))), None)"
proof -
  define m1 where "m1 = push_bit 1 (hi32 d AND VaxGMantissaMask) OR drop_bit 31 (lo32 d)"
  define l1 where "l1 = push_bit 1 (lo32 d)"
  define m2 where "m2 = push_bit 1 m1 OR drop_bit 31 l1"
  define l2 where "l2 = push_bit 1 l1"
  have "bit (hi32 d AND NOT SignBit) 18" using b by (simp add: bit_simps bit_consts)
  then have nz: "hi32 d AND NOT SignBit \<noteq> 0" by auto
  have h1: "m1 AND VaxGHiddenBit = 0"
    unfolding m1_def cvals using b
    by (intro bit_eqI) (auto simp add: bit_simps bit_consts simp del: push_bit_Suc
          dest: bit_imp_le_length)
  have "bit (m2 AND VaxGHiddenBit) 20"
    unfolding m2_def m1_def cvals using b by (simp add: bit_simps bit_consts del: push_bit_Suc)
  then have h2: "m2 AND VaxGHiddenBit \<noteq> 0" by auto
  have "normalize_G m2 l2 (0 - 1) = Some (m2, l2, 0 - 1)"
    by (subst normalize_G.simps) (simp add: h2)
  then have loop: "normalize_G m1 l1 0 = Some (m2, l2, 0 - 1)"
    by (subst normalize_G.simps) (simp add: h1 m2_def l2_def)
  note p = G_enc_sub_pre[OF z nz]
  show ?thesis
    unfolding G_enc_unfold Let_def G_enc_sub_consts p(3) m1_def[symmetric] l1_def[symmetric] loop
    using p(1,2) by (simp add: m2_def l2_def)
qed

lemma unshift1_G:
  fixes h l :: uint32
  assumes b: "bit h 19"
  shows "drop_bit 1 (join64 (VaxGHiddenBit OR
             ((push_bit 1 (h AND VaxGMantissaMask) OR drop_bit 31 l) AND VaxGMantissaMask))
           (push_bit 1 l))
       = join64 (h AND IeeeTMantissaMask) l"
proof (rule bit_eqI)
  fix k
  assume "possible_bit TYPE(uint64) k"
  then have k: "k < 64" by (simp add: possible_bit_word)
  let ?L = "drop_bit 1 (join64 (VaxGHiddenBit OR
             ((push_bit 1 (h AND VaxGMantissaMask) OR drop_bit 31 l) AND VaxGMantissaMask))
           (push_bit 1 l))"
  let ?R = "join64 (h AND IeeeTMantissaMask) l"
  consider "k < 31" | "k = 31" | "32 \<le> k" "k < 51" | "k = 51" | "51 < k" by linarith
  then show "bit ?L k = bit ?R k"
  proof cases
    case 1
    then show ?thesis unfolding cvals
      by (simp add: bit_drop_bit_eq bit_join64 bit_simps bit_consts del: push_bit_Suc drop_bit_Suc)
  next
    case 2
    then show ?thesis unfolding cvals
      by (simp add: bit_drop_bit_eq bit_join64 bit_simps bit_consts del: push_bit_Suc drop_bit_Suc)
  next
    case 3
    define j where "j = k - 32"
    have j: "k = 32 + j" "j < 19" using 3 unfolding j_def by linarith+
    show ?thesis unfolding j(1) cvals using j(2)
      by (auto simp add: bit_drop_bit_eq bit_join64 bit_simps bit_consts
            simp del: push_bit_Suc drop_bit_Suc dest: bit_imp_le_length)
  next
    case 4
    then show ?thesis unfolding cvals using b
      by (simp add: bit_drop_bit_eq bit_join64 bit_simps bit_consts del: push_bit_Suc drop_bit_Suc)
  next
    case 5
    define j where "j = k - 52"
    have j: "k = 52 + j" "j < 12" using 5 k unfolding j_def by linarith+
    show ?thesis unfolding j(1) cvals using j(2)
      by (auto simp add: bit_drop_bit_eq bit_join64 bit_simps bit_consts
            simp del: push_bit_Suc drop_bit_Suc dest: bit_imp_le_length)
  qed
qed

lemma unshift2_G:
  fixes h l :: uint32
  assumes b: "\<not> bit h 19" "bit h 18"
  shows "drop_bit 2 (join64 (VaxGHiddenBit OR
             ((push_bit 1 (push_bit 1 (h AND VaxGMantissaMask) OR drop_bit 31 l)
                  OR drop_bit 31 (push_bit 1 l)) AND VaxGMantissaMask))
           (push_bit 1 (push_bit 1 l)))
       = join64 (h AND IeeeTMantissaMask) l"
proof (rule bit_eqI)
  fix k
  assume "possible_bit TYPE(uint64) k"
  then have k: "k < 64" by (simp add: possible_bit_word)
  let ?L = "drop_bit 2 (join64 (VaxGHiddenBit OR
             ((push_bit 1 (push_bit 1 (h AND VaxGMantissaMask) OR drop_bit 31 l)
                  OR drop_bit 31 (push_bit 1 l)) AND VaxGMantissaMask))
           (push_bit 1 (push_bit 1 l)))"
  let ?R = "join64 (h AND IeeeTMantissaMask) l"
  consider "k < 30" | "k = 30" | "k = 31" | "32 \<le> k" "k < 50" | "k = 50" | "k = 51" | "51 < k"
    by linarith
  then show "bit ?L k = bit ?R k"
  proof cases
    case 1
    then show ?thesis unfolding cvals
      by (simp add: bit_drop_bit_eq bit_join64 bit_simps bit_consts del: push_bit_Suc drop_bit_Suc)
  next
    case 2
    then show ?thesis unfolding cvals
      by (simp add: bit_drop_bit_eq bit_join64 bit_simps bit_consts del: push_bit_Suc drop_bit_Suc)
  next
    case 3
    then show ?thesis unfolding cvals
      by (simp add: bit_drop_bit_eq bit_join64 bit_simps bit_consts del: push_bit_Suc drop_bit_Suc)
  next
    case 4
    define j where "j = k - 32"
    have j: "k = 32 + j" "j < 18" using 4 unfolding j_def by linarith+
    show ?thesis unfolding j(1) cvals using j(2)
      by (auto simp add: bit_drop_bit_eq bit_join64 bit_simps bit_consts
            simp del: push_bit_Suc drop_bit_Suc dest: bit_imp_le_length)
  next
    case 5
    then show ?thesis unfolding cvals using b
      by (simp add: bit_drop_bit_eq bit_join64 bit_simps bit_consts del: push_bit_Suc drop_bit_Suc)
  next
    case 6
    then show ?thesis unfolding cvals using b
      by (simp add: bit_drop_bit_eq bit_join64 bit_simps bit_consts del: push_bit_Suc drop_bit_Suc)
  next
    case 7
    define j where "j = k - 52"
    have j: "k = 52 + j" "j < 12" using 7 k unfolding j_def by linarith+
    show ?thesis unfolding j(1) cvals using j(2)
      by (auto simp add: bit_drop_bit_eq bit_join64 bit_simps bit_consts
            simp del: push_bit_Suc drop_bit_Suc dest: bit_imp_le_length)
  qed
qed

lemma G_roundtrip_subnormal:
  assumes z: "ieeeT_exponent (hi32 d) = 0"
    and enc: "VaxGFloatfromFloat64 d =
       Some (join64 (uint32FromVax l)
              (uint32FromVax ((hi32 d AND SignBit) OR push_bit 20 e OR (m AND VaxGMantissaMask))),
             None)"
    and e: "uint e = 1 \<or> uint e = 2"
    and m: "drop_bit (nat (3 - uint e)) (join64 (VaxGHiddenBit OR (m AND VaxGMantissaMask)) l)
              = join64 (hi32 d AND IeeeTMantissaMask) (lo32 d)"
  shows "\<exists>v. VaxGFloatfromFloat64 d = Some (v, None) \<and>
             Float64fromVaxGFloat (BigEndian_PutUint64 v) = Some (d, None)"
proof -
  define r where "r = (hi32 d AND SignBit) OR push_bit 20 e OR (m AND VaxGMantissaMask)"
  have lt: "uint e < 2048" using e by auto
  note c = compose_fields_G[OF lt, of "hi32 d" m, folded r_def]
  have rnz: "vaxG_exponent r \<noteq> 0" unfolding c using e by auto
  have rb: "rebiased_G r \<le> 0" "nat (1 - rebiased_G r) = nat (3 - uint e)"
    unfolding rebiased_G_eq c using e by auto
  from G_dec_subnormal_fields[OF unpack_put64 rnz rb(1)] obtain x where
    x: "Float64fromVaxGFloat (BigEndian_PutUint64 (join64 (uint32FromVax l) (uint32FromVax r)))
          = Some (x, None)"
       "hi32 x AND SignBit = r AND SignBit" "ieeeT_exponent (hi32 x) = 0"
       "join64 (hi32 x AND IeeeTMantissaMask) (lo32 x) =
          drop_bit (nat (1 - rebiased_G r)) (join64 (VaxGHiddenBit OR (r AND VaxGMantissaMask)) l)"
    by blast
  have "x = d"
  proof (rule float64_fields_eq)
    show "hi32 x AND SignBit = hi32 d AND SignBit" unfolding x(2) c ..
    show "ieeeT_exponent (hi32 x) = ieeeT_exponent (hi32 d)" unfolding x(3) z ..
    show "join64 (hi32 x AND IeeeTMantissaMask) (lo32 x)
        = join64 (hi32 d AND IeeeTMantissaMask) (lo32 d)"
      unfolding x(4) c rb(2) by (rule m)
  qed
  with x(1) enc show ?thesis unfolding r_def by simp
qed

lemma G_roundtrip_sub0:
  assumes z: "ieeeT_exponent (hi32 d) = 0" and b: "bit (hi32 d) 19"
  shows "\<exists>v. VaxGFloatfromFloat64 d = Some (v, None) \<and>
             Float64fromVaxGFloat (BigEndian_PutUint64 v) = Some (d, None)"
proof (rule G_roundtrip_subnormal[OF z G_enc_sub0[OF z b]])
  show "uint (2::uint32) = 1 \<or> uint (2::uint32) = 2" by simp
  have "nat (3 - uint (2::uint32)) = 1" by simp
  then show "drop_bit (nat (3 - uint (2::uint32)))
      (join64 (VaxGHiddenBit OR
          ((push_bit 1 (hi32 d AND VaxGMantissaMask) OR drop_bit 31 (lo32 d)) AND VaxGMantissaMask))
        (push_bit 1 (lo32 d)))
      = join64 (hi32 d AND IeeeTMantissaMask) (lo32 d)"
    using unshift1_G[OF b] by (simp only:)
qed

lemma G_roundtrip_sub1:
  assumes z: "ieeeT_exponent (hi32 d) = 0" and b: "\<not> bit (hi32 d) 19" "bit (hi32 d) 18"
  shows "\<exists>v. VaxGFloatfromFloat64 d = Some (v, None) \<and>
             Float64fromVaxGFloat (BigEndian_PutUint64 v) = Some (d, None)"
proof (rule G_roundtrip_subnormal[OF z G_enc_sub1[OF z b]])
  show "uint (1::uint32) = 1 \<or> uint (1::uint32) = 2" by simp
  have "nat (3 - uint (1::uint32)) = 2" by simp
  then show "drop_bit (nat (3 - uint (1::uint32)))
      (join64 (VaxGHiddenBit OR
          ((push_bit 1 (push_bit 1 (hi32 d AND VaxGMantissaMask) OR drop_bit 31 (lo32 d))
              OR drop_bit 31 (push_bit 1 (lo32 d))) AND VaxGMantissaMask))
        (push_bit 1 (push_bit 1 (lo32 d))))
      = join64 (hi32 d AND IeeeTMantissaMask) (lo32 d)"
    using unshift2_G[OF b] by (simp only:)
qed

lemma bit_hi32: "bit (hi32 d) j \<longleftrightarrow> j < 32 \<and> bit d (32 + j)"
  unfolding hi32_def by (auto simp add: bit_simps dest: bit_imp_le_length)

lemma m63: "(0x7FFFFFFFFFFFFFFF :: uint64) = mask 63"
  by (simp add: mask_eq_exp_minus_1)

lemma ieeeT_exponent_magnitude:
  "ieeeT_exponent (hi32 d) = ucast (drop_bit 52 (d AND 0x7FFFFFFFFFFFFFFF))"
  unfolding ieeeT_exponent_eq m63
proof (rule bit_eqI)
  fix k
  assume "possible_bit TYPE(uint32) k"
  then have k: "k < 32" by (simp add: possible_bit_word)
  show "bit (take_bit 11 (drop_bit 20 (hi32 d))) k = bit (ucast (drop_bit 52 (d AND mask 63)) :: uint32) k"
  proof (cases "k < 11")
    case True
    then show ?thesis by (simp add: bit_simps bit_hi32 add.commute add.left_commute)
  next
    case False
    then show ?thesis using k by (auto simp add: bit_simps dest: bit_imp_le_length)
  qed
qed

lemma exponent_zero_bits_T:
  assumes "ieeeT_exponent (hi32 d) = 0" "52 \<le> n" "n < 63"
  shows "\<not> bit d n"
proof -
  define j where "j = n - 52"
  have j: "n = 52 + j" "j < 11" using assms(2,3) unfolding j_def by linarith+
  have "\<not> bit (take_bit 11 (drop_bit 20 (hi32 d))) j"
    using assms(1) unfolding ieeeT_exponent_eq by simp
  then show ?thesis unfolding j(1) using j(2)
    by (simp add: bit_simps bit_hi32 add.commute add.left_commute)
qed

lemma in_vaxG_range_cases:
  assumes "in_vaxG_range d"
  shows "(ieeeT_exponent (hi32 d) \<noteq> 0 \<and> uint (ieeeT_exponent (hi32 d)) \<le> 2045) \<or>
         (ieeeT_exponent (hi32 d) = 0 \<and> bit (hi32 d) 19) \<or>
         (ieeeT_exponent (hi32 d) = 0 \<and> \<not> bit (hi32 d) 19 \<and> bit (hi32 d) 18)"
proof -
  define a where "a = d AND 0x7FFFFFFFFFFFFFFF"
  have lo: "0x0004000000000000 \<le> a" and hi: "a \<le> 0x7FDFFFFFFFFFFFFF"
    using assms unfolding in_vaxG_range_def a_def by simp_all
  have "unat a \<le> 9214364837600034815" using hi by (simp add: word_le_nat_alt)
  then have "unat a div 2 ^ 52 \<le> 9214364837600034815 div 2 ^ 52" by (rule div_le_mono)
  then have q: "unat (drop_bit 52 a) \<le> 2045" unfolding unat_drop_bit by simp
  have "unat (ieeeT_exponent (hi32 d)) = take_bit 32 (unat (drop_bit 52 a))"
    unfolding ieeeT_exponent_magnitude a_def[symmetric] by (simp only: unsigned_ucast_eq) simp
  also have "\<dots> \<le> unat (drop_bit 52 a)" unfolding take_bit_eq_mod by (rule mod_less_eq_dividend)
  finally have "unat (ieeeT_exponent (hi32 d)) \<le> 2045" using q by linarith
  moreover have "int (unat (ieeeT_exponent (hi32 d))) = uint (ieeeT_exponent (hi32 d))" by simp
  ultimately have le: "uint (ieeeT_exponent (hi32 d)) \<le> 2045" by linarith
  show ?thesis
  proof (cases "ieeeT_exponent (hi32 d) = 0")
    case False
    with le show ?thesis by simp
  next
    case z: True
    have "bit (hi32 d) 19 \<or> bit (hi32 d) 18"
    proof (rule ccontr)
      assume "\<not> (bit (hi32 d) 19 \<or> bit (hi32 d) 18)"
      then have n: "\<not> bit d 51" "\<not> bit d 50" by (simp_all add: bit_hi32)
      have "a = take_bit 50 d"
        unfolding a_def m63
      proof (rule bit_eqI)
        fix k
        assume "possible_bit TYPE(uint64) k"
        then have k: "k < 64" by (simp add: possible_bit_word)
        consider "k < 50" | "k = 50" | "k = 51" | "52 \<le> k" "k < 63" | "k = 63"
          using k by linarith
        then show "bit (d AND mask 63) k = bit (take_bit 50 d) k"
        proof cases
          case 4
          then show ?thesis using exponent_zero_bits_T[OF z 4] by (simp add: bit_simps)
        qed (use n in \<open>simp_all add: bit_simps\<close>)
      qed
      then have "unat a = unat d mod 2 ^ 50" by (simp only: unat_take_bit)
      then have "unat a < 1125899906842624" by simp
      moreover have "1125899906842624 \<le> unat a" using lo by (simp add: word_le_nat_alt)
      ultimately show False by linarith
    qed
    with z show ?thesis by blast
  qed
qed

lemma G_roundtrip:
  assumes "in_vaxG_range d"
  shows "\<exists>v. VaxGFloatfromFloat64 d = Some (v, None) \<and>
             Float64fromVaxGFloat (BigEndian_PutUint64 v) = Some (d, None)"
  using in_vaxG_range_cases[OF assms] G_roundtrip_normal G_roundtrip_sub0 G_roundtrip_sub1
  by blast

text \<open>
  Claim C1. For every IEEE single value in the representable normalized range of the
  F_floating format, \<open>VaxFFloatfromFloat32\<close> returns no error, and
  \<open>Float32fromVaxFFloat\<close> applied to the four big-endian bytes of its result returns the
  same bit pattern with no error; likewise for doubles, \<open>VaxGFloatfromFloat64\<close>,
  \<open>Float64fromVaxGFloat\<close> and eight bytes.
\<close>
theorem round_trip_in_legacy_range:
  "(in_vaxF_range f \<longrightarrow>
      (\<exists>v. VaxFFloatfromFloat32 f = Some (v, None) \<and>
           Float32fromVaxFFloat (BigEndian_PutUint32 v) = Some (f, None))) \<and>
   (in_vaxG_range d \<longrightarrow>
      (\<exists>v. VaxGFloatfromFloat64 d = Some (v, None) \<and>
           Float64fromVaxGFloat (BigEndian_PutUint64 v) = Some (d, None)))"
  using F_roundtrip G_roundtrip by blast

theorem round_trip_witness:
  "in_vaxF_range 0x80200001 \<and> in_vaxG_range 0x400921FB54442D18 \<and>
   (\<exists>v. VaxFFloatfromFloat32 0x80200001 = Some (v, None) \<and>
        Float32fromVaxFFloat (BigEndian_PutUint32 v) = Some (0x80200001, None)) \<and>
   (\<exists>v. VaxGFloatfromFloat64 0x400921FB54442D18 = Some (v, None) \<and>
        Float64fromVaxGFloat (BigEndian_PutUint64 v) = Some (0x400921FB54442D18, None))"
proof -
  have h: "in_vaxF_range 0x80200001" "in_vaxG_range 0x400921FB54442D18"
    by (simp_all add: in_vaxF_range_def in_vaxG_range_def SignBit_def)
  from round_trip_in_legacy_range[of "0x80200001" "0x400921FB54442D18"] h
  show ?thesis by blast
qed

lemma legacy_range_endpoints:
  "VaxFFloatfromFloat32 0x00200000 = Some (uint32FromVax 0x00800000, None)"
  "VaxFFloatfromFloat32 0x7EFFFFFF = Some (uint32FromVax 0x7FFFFFFF, None)"
  "VaxFFloatfromFloat32 0x001FFFFF = Some (0, None)"
  "VaxFFloatfromFloat32 0x7F000000 =
     Some (uint32FromVax 0x7FFFFFFF, Some ''IEEE S_Float too large for VAX F_Float'')"
  "VaxGFloatfromFloat64 0x0004000000000000 =
     Some (join64 (uint32FromVax 0) (uint32FromVax 0x00100000), None)"
  "VaxGFloatfromFloat64 0x7FDFFFFFFFFFFFFF =
     Some (join64 (uint32FromVax 0xFFFFFFFF) (uint32FromVax 0x7FFFFFFF), None)"
  "VaxGFloatfromFloat64 0x0003FFFFFFFFFFFF = Some (0, None)"
  "VaxGFloatfromFloat64 0x7FE0000000000000 =
     Some (join64 (uint32FromVax 0xFFFFFFFF) (uint32FromVax 0x7FFFFFFF),
           Some ''IEEE T_Float too large for VAX G_Float'')"
  by (simp_all add: VaxFFloatfromFloat32_def VaxGFloatfromFloat64_def cdefs join64_def
        normalize_F.simps normalize_G.simps uint32FromVax_def)

section \<open>Subnormal inputs of the encoders\<close>

text \<open>
  The normalisation loop ends on every nonzero mantissa, after \<open>shifts_to_hidden\<close> passes,
  so both encoders return on every input. On a nonzero subnormal input, the unsigned
  exponent that the loop has decremented is tested after the adjustment: an adjusted
  exponent of exactly 0 gives the silent underflow to zero, and every negative one has
  wrapped around and is reported as too large.
\<close>

lemma hidden_bit_set:
  fixes m :: uint32
  assumes "2 ^ 23 \<le> unat m" "unat m < 2 ^ 24"
  shows "m AND VaxFHiddenBit \<noteq> 0"
proof -
  have "unat (drop_bit 23 m) = unat m div 2 ^ 23" by (rule unat_drop_bit)
  also have "\<dots> = 1" using assms by simp
  finally have "drop_bit 23 m = 1" by (simp add: word_unat_eq_iff)
  then have "bit (drop_bit 23 m) 0" by simp
  then have "bit m 23" by (simp add: bit_simps)
  then have "bit (m AND VaxFHiddenBit) 23" by (simp add: bit_simps bit_consts)
  then show ?thesis by auto
qed

lemma hidden_bit_clear:
  fixes m :: uint32
  assumes "unat m < 2 ^ 23"
  shows "m AND VaxFHiddenBit = 0"
proof -
  have "m < 2 ^ 23" using assms by (simp add: word_less_nat_alt)
  then have "m AND mask 23 = m" by (rule less_mask_eq)
  then have m: "m = take_bit 23 m" by (simp add: take_bit_eq_mask)
  show ?thesis
    by (subst m, rule bit_eqI) (auto simp add: bit_simps bit_consts)
qed

lemma unat_shift1:
  fixes m :: uint32
  assumes "unat m < 2 ^ 23"
  shows "unat (push_bit 1 m) = 2 * unat m"
proof -
  have "unat (push_bit 1 m) = take_bit 32 (push_bit 1 (unat m))"
    by (simp only: unsigned_push_bit_eq) simp
  also have "\<dots> = push_bit 1 (unat m)"
    using assms by (intro take_bit_nat_eq_self) (simp add: push_bit_eq_mult)
  finally show ?thesis by (simp add: push_bit_eq_mult)
qed

lemma normalize_F_shifts:
  "unat m = n \<Longrightarrow> n \<noteq> 0 \<Longrightarrow> n < 2 ^ 24 \<Longrightarrow> h = 2 ^ 23 \<Longrightarrow>
   normalize_F m e = Some (push_bit (shifts_to_hidden h n) m, e - of_nat (shifts_to_hidden h n))"
proof (induction h n arbitrary: m e rule: shifts_to_hidden.induct)
  case (1 h n)
  show ?case
  proof (cases "h \<le> n")
    case True
    then have "m AND VaxFHiddenBit \<noteq> 0"
      using 1(2,4,5) by (intro hidden_bit_set) simp_all
    moreover have "shifts_to_hidden h n = 0"
      using True by (subst shifts_to_hidden.simps) simp
    ultimately show ?thesis by (subst normalize_F.simps) simp
  next
    case False
    then have lt: "unat m < 2 ^ 23" using 1(2,5) by simp
    then have c: "m AND VaxFHiddenBit = 0" by (rule hidden_bit_clear)
    have u: "unat (push_bit 1 m) = 2 * n" using unat_shift1[OF lt] 1(2) by simp
    have s: "shifts_to_hidden h n = Suc (shifts_to_hidden h (2 * n))"
      using False 1(3) by (subst shifts_to_hidden.simps) simp
    have "normalize_F (push_bit 1 m) (e - 1) =
        Some (push_bit (shifts_to_hidden h (2 * n)) (push_bit 1 m),
              e - 1 - of_nat (shifts_to_hidden h (2 * n)))"
      using False 1(3,5) lt 1(2) by (intro 1(1)[OF _ u]) simp_all
    then show ?thesis
      by (subst normalize_F.simps) (simp add: c s push_bit_eq_mult algebra_simps)
  qed
qed

lemma shifts_to_hidden_range:
  "0 < m \<Longrightarrow> m < 2 * h \<Longrightarrow>
   h \<le> m * 2 ^ shifts_to_hidden h m \<and> m * 2 ^ shifts_to_hidden h m < 2 * h"
proof (induction h m rule: shifts_to_hidden.induct)
  case (1 h m)
  show ?case
  proof (cases "h \<le> m")
    case True
    then have "shifts_to_hidden h m = 0" by (subst shifts_to_hidden.simps) simp
    then show ?thesis using True 1(3) by simp
  next
    case False
    then have s: "shifts_to_hidden h m = Suc (shifts_to_hidden h (2 * m))"
      using 1(2) by (subst shifts_to_hidden.simps) simp
    have "h \<le> 2 * m * 2 ^ shifts_to_hidden h (2 * m) \<and>
          2 * m * 2 ^ shifts_to_hidden h (2 * m) < 2 * h"
      using False 1(2) by (intro 1(1)) simp_all
    then show ?thesis unfolding s by (simp add: algebra_simps)
  qed
qed

lemma shifts_to_hidden_bound:
  assumes "0 < m" "m < 2 * 2 ^ j"
  shows "shifts_to_hidden (2 ^ j) m \<le> j"
proof -
  let ?k = "shifts_to_hidden (2 ^ j) m"
  have "m * 2 ^ ?k < 2 * 2 ^ j" using shifts_to_hidden_range[OF assms] by simp
  moreover have "1 * 2 ^ ?k \<le> m * 2 ^ ?k" using assms(1) by (intro mult_le_mono1) simp
  then have "2 ^ ?k \<le> m * 2 ^ ?k" by (simp only: mult_1)
  ultimately have "(2::nat) ^ ?k < 2 * 2 ^ j" by (rule le_less_trans[rotated])
  then have "(2::nat) ^ ?k < 2 ^ Suc j" by simp
  then have "?k < Suc j" by (simp only: power_strict_increasing_iff) 
  then show ?thesis by simp
qed

lemma magnitude_subnormal_F:
  assumes z: "ieeeS_exponent f = 0"
  shows "f AND NOT SignBit = f AND VaxFMantissaMask"
proof (rule bit_eqI)
  fix k
  assume "possible_bit TYPE(uint32) k"
  then have k: "k < 32" by (simp add: possible_bit_word)
  consider "k < 23" | "23 \<le> k" "k < 31" | "k = 31" using k by linarith
  then show "bit (f AND NOT SignBit) k = bit (f AND VaxFMantissaMask) k"
  proof cases
    case 2
    then show ?thesis using exponent_zero_bits[OF z 2] unfolding cvals
      by (simp add: bit_simps bit_consts)
  qed (simp_all add: cvals bit_simps bit_consts)
qed

lemma unat_mantissa_F: "unat (f AND VaxFMantissaMask) < 2 ^ 23"
proof -
  have "f AND VaxFMantissaMask = take_bit 23 f" unfolding cvals by (simp add: take_bit_eq_mask)
  then show ?thesis by (simp only: unat_take_bit) simp
qed

lemma small_exponent_word:
  fixes e :: uint32
  assumes k: "k \<le> 64" and e: "e = 0 - of_nat k + 2"
  shows "(e = 0) = (k = 2)" and "k \<le> 2 \<Longrightarrow> unat e = 2 - k"
    and "2 < k \<Longrightarrow> 2 ^ 31 \<le> unat e"
proof -
  have uk: "unat (of_nat k :: uint32) = k"
    using k by (intro of_nat_inverse[OF refl]) simp
  have sum: "of_nat k + e = 2" unfolding e by simp
  have small: "k \<le> 2" if "unat e < 2 ^ 31"
  proof -
    have "unat (of_nat k :: uint32) + unat e < 2 ^ LENGTH(32)" using that uk k by simp
    then have "unat (of_nat k + e) = unat (of_nat k :: uint32) + unat e"
      by (simp only: unat_add_lem)
    then have "k + unat e = 2" unfolding sum uk by simp
    then show ?thesis by linarith
  qed
  have cases: "e = 2 - of_nat k" unfolding e by simp
  show le2: "unat e = 2 - k" if "k \<le> 2"
  proof -
    from that consider "k = 0" | "k = 1" | "k = 2" by linarith
    then show ?thesis by cases (simp_all add: cases)
  qed
  show "(e = 0) = (k = 2)"
  proof
    assume "e = 0"
    then have "k \<le> 2" by (intro small) simp
    with le2 \<open>e = 0\<close> show "k = 2" by fastforce
  next
    assume "k = 2"
    then show "e = 0" by (simp add: cases)
  qed
  show "2 ^ 31 \<le> unat e" if "2 < k"
    using small that by fastforce
qed

lemma small_exponent_tests:
  fixes e :: uint32
  assumes k: "k \<le> 64" and e: "e = 0 - of_nat k + 2"
  shows "(255 < e) = (2 < k)" and "(2047 < e) = (2 < k)"
proof -
  note w = small_exponent_word[OF k e]
  show "(255 < e) = (2 < k)"
  proof (cases "2 < k")
    case True
    with w(3) have "2 ^ 31 \<le> unat e" by simp
    then have "255 < unat e" by simp
    with True show ?thesis by (simp add: word_less_nat_alt)
  next
    case False
    with w(2) have "unat e \<le> 2" by simp
    with False show ?thesis by (simp add: word_less_nat_alt)
  qed
  show "(2047 < e) = (2 < k)"
  proof (cases "2 < k")
    case True
    with w(3) have "2 ^ 31 \<le> unat e" by simp
    then have "2047 < unat e" by simp
    with True show ?thesis by (simp add: word_less_nat_alt)
  next
    case False
    with w(2) have "unat e \<le> 2" by simp
    with False show ?thesis by (simp add: word_less_nat_alt)
  qed
qed

lemma F_enc_subnormal_all:
  assumes z: "ieeeS_exponent f = 0" and nz: "f AND NOT SignBit \<noteq> 0"
  defines "k \<equiv> shifts_to_hidden (2 ^ 23) (2 * unat (f AND VaxFMantissaMask))"
  shows "VaxFFloatfromFloat32 f =
    (if k = 2 then Some (0, None)
     else if 2 < k
     then Some (uint32FromVax ((f AND SignBit) OR NOT SignBit),
                Some ''IEEE S_Float too large for VAX F_Float'')
     else Some (uint32FromVax ((f AND SignBit) OR push_bit 23 (0 - of_nat k + 2) OR
                  (push_bit k (push_bit 1 (f AND VaxFMantissaMask)) AND VaxFMantissaMask)),
                None))"
proof -
  define m where "m = f AND VaxFMantissaMask"
  define m1 where "m1 = push_bit 1 m"
  have lt: "unat m < 2 ^ 23" unfolding m_def by (rule unat_mantissa_F)
  have "m \<noteq> 0" using nz unfolding magnitude_subnormal_F[OF z] m_def .
  then have pos: "unat m \<noteq> 0" by (simp add: unat_eq_0)
  have u1: "unat m1 = 2 * unat m" unfolding m1_def by (rule unat_shift1[OF lt])
  have k: "k = shifts_to_hidden (2 ^ 23) (unat m1)" unfolding k_def u1 m_def ..
  have loop: "normalize_F m1 0 = Some (push_bit k m1, 0 - of_nat k)"
    unfolding k using pos lt u1 by (intro normalize_F_shifts[OF refl]) simp_all
  have "k \<le> 23"
    unfolding k u1 using pos lt by (intro shifts_to_hidden_bound) simp_all
  then have kb: "k \<le> 64" by simp
  note w = small_exponent_word(1)[OF kb refl] small_exponent_tests(1)[OF kb refl]
  have ne: "f AND IeeeSExponentMask \<noteq> IeeeSExponentMask"
    unfolding ieeeS_mask_ones_iff z by simp
  have e: "drop_bit 23 (f AND IeeeSExponentMask) = 0"
    using z by (simp add: ieeeS_exponent_def IeeeSMantissaSize_def)
  show ?thesis
    unfolding VaxFFloatfromFloat32_def Let_def F_enc_sub_consts e m_def[symmetric]
      m1_def[symmetric] loop
    using nz ne w by (simp add: uint32FromVax_def)
qed

lemma adjusted_S_subnormal_eq:
  "ieeeS_exponent f = 0 \<Longrightarrow>
   adjusted_S f = 2 - int (shifts_to_hidden (2 ^ 23) (2 * unat (f AND IeeeSMantissaMask)))"
  by (simp add: adjusted_S_def cdefs)

lemma F_underflow_behaviour:
  assumes z: "ieeeS_exponent f = 0" and nz: "f AND NOT SignBit \<noteq> 0"
  shows "adjusted_S f = 0 \<Longrightarrow> VaxFFloatfromFloat32 f = Some (0, None)"
    and "adjusted_S f < 0 \<Longrightarrow> VaxFFloatfromFloat32 f =
           Some (uint32FromVax ((f AND SignBit) OR NOT SignBit),
                 Some ''IEEE S_Float too large for VAX F_Float'')"
proof -
  have m: "IeeeSMantissaMask = VaxFMantissaMask" by (simp add: cdefs)
  show "adjusted_S f = 0 \<Longrightarrow> VaxFFloatfromFloat32 f = Some (0, None)"
    unfolding adjusted_S_subnormal_eq[OF z] m F_enc_subnormal_all[OF z nz] by simp
  show "adjusted_S f < 0 \<Longrightarrow> VaxFFloatfromFloat32 f =
           Some (uint32FromVax ((f AND SignBit) OR NOT SignBit),
                 Some ''IEEE S_Float too large for VAX F_Float'')"
    unfolding adjusted_S_subnormal_eq[OF z] m F_enc_subnormal_all[OF z nz] by simp
qed

lemma bit_join64_hi: "bit (join64 m l) (32 + j) \<longleftrightarrow> bit m j"
  by (simp add: bit_join64)

lemma hidden_bit_set_G:
  assumes "2 ^ 52 \<le> unat (join64 m l)" "unat (join64 m l) < 2 ^ 53"
  shows "m AND VaxGHiddenBit \<noteq> 0"
proof -
  have "unat (drop_bit 52 (join64 m l)) = unat (join64 m l) div 2 ^ 52" by (rule unat_drop_bit)
  also have "\<dots> = 1" using assms by simp
  finally have "drop_bit 52 (join64 m l) = 1" by (simp add: word_unat_eq_iff)
  then have "bit (drop_bit 52 (join64 m l)) 0" by simp
  then have "bit (join64 m l) (32 + 20)" by (simp add: bit_drop_bit_eq)
  then have "bit m 20" using bit_join64_hi[of m l 20] by blast
  then have "bit (m AND VaxGHiddenBit) 20" by (simp add: bit_simps bit_consts)
  then show ?thesis by auto
qed

lemma high_bits_clear_G:
  assumes "unat (join64 m l) < 2 ^ 52" "20 \<le> j"
  shows "\<not> bit m j"
proof -
  have "join64 m l < 2 ^ 52" using assms(1) by (simp add: word_less_nat_alt)
  then have "join64 m l AND mask 52 = join64 m l" by (rule less_mask_eq)
  then have x: "join64 m l = take_bit 52 (join64 m l)" by (simp add: take_bit_eq_mask)
  have "\<not> bit (take_bit 52 (join64 m l)) (32 + j)" using assms(2) by (simp add: bit_simps)
  then have "\<not> bit (join64 m l) (32 + j)" using x by simp
  then show ?thesis using bit_join64_hi[of m l j] by blast
qed

lemma hidden_bit_clear_G:
  assumes "unat (join64 m l) < 2 ^ 52"
  shows "m AND VaxGHiddenBit = 0"
proof -
  have "\<not> bit m 20" using high_bits_clear_G[OF assms] by simp
  then show ?thesis
    by (intro bit_eqI) (auto simp add: bit_simps bit_consts)
qed

lemma shift1_join64:
  assumes "unat (join64 m l) < 2 ^ 52"
  shows "join64 (push_bit 1 m OR drop_bit 31 l) (push_bit 1 l) = push_bit 1 (join64 m l)"
proof (rule bit_eqI)
  fix k
  assume "possible_bit TYPE(uint64) k"
  then have k: "k < 64" by (simp add: possible_bit_word)
  note hb = high_bits_clear_G[OF assms]
  consider "k = 0" | "0 < k" "k < 32" | "k = 32" | "32 < k" by linarith
  then show "bit (join64 (push_bit 1 m OR drop_bit 31 l) (push_bit 1 l)) k
      = bit (push_bit 1 (join64 m l)) k"
  proof cases
    case 1
    then show ?thesis
      by (simp add: bit_join64 bit_simps del: push_bit_Suc drop_bit_Suc)
  next
    case 2
    define j where "j = k - 1"
    have j: "k = 1 + j" "j < 31" using 2 unfolding j_def by linarith+
    show ?thesis unfolding j(1) using j(2)
      by (simp add: bit_join64 bit_simps del: push_bit_Suc drop_bit_Suc)
  next
    case 3
    then show ?thesis
      by (simp add: bit_join64 bit_simps del: push_bit_Suc drop_bit_Suc)
  next
    case 4
    define j where "j = k - 33"
    have j: "k = 33 + j" "j < 31" using 4 k unfolding j_def by linarith+
    have "\<not> bit m 31" using hb by simp
    then show ?thesis unfolding j(1) using j(2)
      by (auto simp add: bit_join64 bit_simps simp del: push_bit_Suc drop_bit_Suc
            dest: bit_imp_le_length)
  qed
qed

lemma unat_shift1_64:
  fixes x :: uint64
  assumes "unat x < 2 ^ 52"
  shows "unat (push_bit 1 x) = 2 * unat x"
proof -
  have "unat (push_bit 1 x) = take_bit 64 (push_bit 1 (unat x))"
    by (simp only: unsigned_push_bit_eq) simp
  also have "\<dots> = push_bit 1 (unat x)"
    using assms by (intro take_bit_nat_eq_self) (simp add: push_bit_eq_mult)
  finally show ?thesis by (simp add: push_bit_eq_mult)
qed

lemma normalize_G_shifts:
  "unat (join64 m l) = n \<Longrightarrow> n \<noteq> 0 \<Longrightarrow> n < 2 ^ 53 \<Longrightarrow> h = 2 ^ 52 \<Longrightarrow>
   \<exists>m' l'. normalize_G m l e = Some (m', l', e - of_nat (shifts_to_hidden h n)) \<and>
           join64 m' l' = push_bit (shifts_to_hidden h n) (join64 m l)"
proof (induction h n arbitrary: m l e rule: shifts_to_hidden.induct)
  case (1 h n)
  show ?case
  proof (cases "h \<le> n")
    case True
    then have "m AND VaxGHiddenBit \<noteq> 0"
      using 1(2,4,5) by (intro hidden_bit_set_G[of m l]) simp_all
    moreover have "shifts_to_hidden h n = 0"
      using True by (subst shifts_to_hidden.simps) simp
    ultimately show ?thesis by (subst normalize_G.simps) simp
  next
    case False
    then have lt: "unat (join64 m l) < 2 ^ 52" using 1(2,5) by simp
    then have c: "m AND VaxGHiddenBit = 0" by (rule hidden_bit_clear_G)
    note st = shift1_join64[OF lt]
    have u: "unat (join64 (push_bit 1 m OR drop_bit 31 l) (push_bit 1 l)) = 2 * n"
      unfolding st using unat_shift1_64[OF lt] 1(2) by simp
    have s: "shifts_to_hidden h n = Suc (shifts_to_hidden h (2 * n))"
      using False 1(3) by (subst shifts_to_hidden.simps) simp
    have "\<exists>m' l'. normalize_G (push_bit 1 m OR drop_bit 31 l) (push_bit 1 l) (e - 1) =
        Some (m', l', e - 1 - of_nat (shifts_to_hidden h (2 * n))) \<and>
        join64 m' l' = push_bit (shifts_to_hidden h (2 * n))
          (join64 (push_bit 1 m OR drop_bit 31 l) (push_bit 1 l))"
      using False 1(3,5) lt 1(2) by (intro 1(1)[OF _ u]) simp_all
    then obtain m' l' where
      r: "normalize_G (push_bit 1 m OR drop_bit 31 l) (push_bit 1 l) (e - 1) =
            Some (m', l', e - 1 - of_nat (shifts_to_hidden h (2 * n)))"
         "join64 m' l' = push_bit (shifts_to_hidden h (2 * n)) (push_bit 1 (join64 m l))"
      unfolding st by blast
    have "normalize_G m l e = Some (m', l', e - of_nat (shifts_to_hidden h n))"
      using r(1) by (subst normalize_G.simps) (simp add: c s algebra_simps)
    moreover have "join64 m' l' = push_bit (shifts_to_hidden h n) (join64 m l)"
      unfolding r(2) s by (simp add: push_bit_eq_mult algebra_simps)
    ultimately show ?thesis by blast
  qed
qed

lemma magnitude_subnormal_T:
  assumes z: "ieeeT_exponent h = 0"
  shows "h AND NOT SignBit = h AND VaxGMantissaMask"
proof (rule bit_eqI)
  fix k
  assume "possible_bit TYPE(uint32) k"
  then have k: "k < 32" by (simp add: possible_bit_word)
  consider "k < 20" | "20 \<le> k" "k < 31" | "k = 31" using k by linarith
  then show "bit (h AND NOT SignBit) k = bit (h AND VaxGMantissaMask) k"
  proof cases
    case 2
    define j where "j = k - 20"
    have j: "k = 20 + j" "j < 11" using 2 unfolding j_def by linarith+
    have "\<not> bit (take_bit 11 (drop_bit 20 h)) j"
      using z unfolding ieeeT_exponent_eq by simp
    then have "\<not> bit h k" unfolding j(1) using j(2) by (simp add: bit_simps)
    then show ?thesis unfolding cvals using 2 by (simp add: bit_simps bit_consts)
  qed (simp_all add: cvals bit_simps bit_consts)
qed

lemma unat_mantissa_G: "unat (join64 (h AND VaxGMantissaMask) l) < 2 ^ 52"
proof -
  have "join64 (h AND VaxGMantissaMask) l = take_bit 52 (join64 (h AND VaxGMantissaMask) l)"
  proof (rule bit_eqI)
    fix k
    show "bit (join64 (h AND VaxGMantissaMask) l) k
        = bit (take_bit 52 (join64 (h AND VaxGMantissaMask) l)) k"
    proof (cases "k < 52")
      case True
      then show ?thesis by (simp add: bit_simps)
    next
      case False
      then have "\<not> k < 32" "\<not> k - 32 < 20" by linarith+
      then show ?thesis unfolding cvals using False by (simp add: bit_join64 bit_simps)
    qed
  qed
  then have "unat (join64 (h AND VaxGMantissaMask) l)
      = unat (join64 (h AND VaxGMantissaMask) l) mod 2 ^ 52"
    using unat_take_bit[of 52 "join64 (h AND VaxGMantissaMask) l"] by simp
  then show ?thesis
    using mod_less_divisor[of "2 ^ 52" "unat (join64 (h AND VaxGMantissaMask) l)"] by simp
qed

lemma join64_eq_0: "join64 m l = 0 \<Longrightarrow> m = 0 \<and> l = 0"
proof -
  assume "join64 m l = 0"
  then have "hi32 (join64 m l) = hi32 0" "lo32 (join64 m l) = lo32 0" by simp_all
  then show ?thesis unfolding hi32_join64 lo32_join64 by (simp add: hi32_def lo32_def)
qed

lemma G_enc_subnormal_all:
  assumes z: "ieeeT_exponent (hi32 d) = 0" and nz: "(hi32 d AND NOT SignBit) OR lo32 d \<noteq> 0"
  defines "k \<equiv> shifts_to_hidden (2 ^ 52)
                  (2 * unat (join64 (hi32 d AND VaxGMantissaMask) (lo32 d)))"
  shows "\<exists>m' l'. VaxGFloatfromFloat64 d =
    (if k = 2 then Some (0, None)
     else if 2 < k
     then Some (join64 (uint32FromVax 0xFFFFFFFF)
                  (uint32FromVax ((hi32 d AND SignBit) OR NOT SignBit)),
                Some ''IEEE T_Float too large for VAX G_Float'')
     else Some (join64 (uint32FromVax l')
                  (uint32FromVax ((hi32 d AND SignBit) OR push_bit 20 (0 - of_nat k + 2) OR
                     (m' AND VaxGMantissaMask))), None))"
proof -
  define m where "m = hi32 d AND VaxGMantissaMask"
  define m1 where "m1 = push_bit 1 m OR drop_bit 31 (lo32 d)"
  define l1 where "l1 = push_bit 1 (lo32 d)"
  have lt: "unat (join64 m (lo32 d)) < 2 ^ 52" unfolding m_def by (rule unat_mantissa_G)
  have "m OR lo32 d \<noteq> 0" using nz unfolding magnitude_subnormal_T[OF z] m_def .
  then have "join64 m (lo32 d) \<noteq> 0" using join64_eq_0[of m "lo32 d"] by auto
  then have pos: "unat (join64 m (lo32 d)) \<noteq> 0" by (simp add: unat_eq_0)
  have j1: "join64 m1 l1 = push_bit 1 (join64 m (lo32 d))"
    unfolding m1_def l1_def by (rule shift1_join64[OF lt])
  have u1: "unat (join64 m1 l1) = 2 * unat (join64 m (lo32 d))"
    unfolding j1 by (rule unat_shift1_64[OF lt])
  have k: "k = shifts_to_hidden (2 ^ 52) (unat (join64 m1 l1))" unfolding k_def u1 m_def ..
  have "\<exists>m' l'. normalize_G m1 l1 0 = Some (m', l', 0 - of_nat k) \<and>
          join64 m' l' = push_bit k (join64 m1 l1)"
    unfolding k using pos lt u1 by (intro normalize_G_shifts[OF refl]) simp_all
  then obtain m' l' where loop: "normalize_G m1 l1 0 = Some (m', l', 0 - of_nat k)" by blast
  have "k \<le> 52"
    unfolding k u1 using pos lt by (intro shifts_to_hidden_bound) simp_all
  then have kb: "k \<le> 64" by simp
  note w = small_exponent_word(1)[OF kb refl] small_exponent_tests(2)[OF kb refl]
  have ne: "hi32 d AND IeeeTExponentMask \<noteq> IeeeTExponentMask"
    unfolding ieeeT_mask_ones_iff z by simp
  have e: "drop_bit 20 (hi32 d AND IeeeTExponentMask) = 0"
    using z by (simp add: ieeeT_exponent_def IeeeTMantissaSize_def)
  have "VaxGFloatfromFloat64 d =
    (if k = 2 then Some (0, None)
     else if 2 < k
     then Some (join64 (uint32FromVax 0xFFFFFFFF)
                  (uint32FromVax ((hi32 d AND SignBit) OR NOT SignBit)),
                Some ''IEEE T_Float too large for VAX G_Float'')
     else Some (join64 (uint32FromVax l')
                  (uint32FromVax ((hi32 d AND SignBit) OR push_bit 20 (0 - of_nat k + 2) OR
                     (m' AND VaxGMantissaMask))), None))"
    unfolding G_enc_unfold Let_def G_enc_sub_consts e m_def[symmetric]
      m1_def[symmetric] l1_def[symmetric] loop
    using nz ne w by (simp add: uint32FromVax_def join64_def)
  then show ?thesis by blast
qed

lemma adjusted_T_subnormal_eq:
  "ieeeT_exponent (hi32 d) = 0 \<Longrightarrow>
   adjusted_T d = 2 - int (shifts_to_hidden (2 ^ 52)
                    (2 * unat (join64 (hi32 d AND IeeeTMantissaMask) (lo32 d))))"
  by (simp add: adjusted_T_def cdefs)

lemma G_underflow_behaviour:
  assumes z: "ieeeT_exponent (hi32 d) = 0" and nz: "(hi32 d AND NOT SignBit) OR lo32 d \<noteq> 0"
  shows "adjusted_T d = 0 \<Longrightarrow> VaxGFloatfromFloat64 d = Some (0, None)"
    and "adjusted_T d < 0 \<Longrightarrow> VaxGFloatfromFloat64 d =
           Some (join64 (uint32FromVax 0xFFFFFFFF)
                   (uint32FromVax ((hi32 d AND SignBit) OR NOT SignBit)),
                 Some ''IEEE T_Float too large for VAX G_Float'')"
proof -
  have m: "IeeeTMantissaMask = VaxGMantissaMask" by (simp add: cdefs)
  from G_enc_subnormal_all[OF z nz] obtain m' l' where
    r: "VaxGFloatfromFloat64 d =
    (if shifts_to_hidden (2 ^ 52) (2 * unat (join64 (hi32 d AND VaxGMantissaMask) (lo32 d))) = 2
     then Some (0, None)
     else if 2 < shifts_to_hidden (2 ^ 52)
                   (2 * unat (join64 (hi32 d AND VaxGMantissaMask) (lo32 d)))
     then Some (join64 (uint32FromVax 0xFFFFFFFF)
                  (uint32FromVax ((hi32 d AND SignBit) OR NOT SignBit)),
                Some ''IEEE T_Float too large for VAX G_Float'')
     else Some (join64 (uint32FromVax l')
                  (uint32FromVax ((hi32 d AND SignBit) OR push_bit 20
                     (0 - of_nat (shifts_to_hidden (2 ^ 52)
                        (2 * unat (join64 (hi32 d AND VaxGMantissaMask) (lo32 d)))) + 2) OR
                     (m' AND VaxGMantissaMask))), None))"
    by blast
  show "adjusted_T d = 0 \<Longrightarrow> VaxGFloatfromFloat64 d = Some (0, None)"
    unfolding adjusted_T_subnormal_eq[OF z] m r by simp
  show "adjusted_T d < 0 \<Longrightarrow> VaxGFloatfromFloat64 d =
           Some (join64 (uint32FromVax 0xFFFFFFFF)
                   (uint32FromVax ((hi32 d AND SignBit) OR NOT SignBit)),
                 Some ''IEEE T_Float too large for VAX G_Float'')"
    unfolding adjusted_T_subnormal_eq[OF z] m r by simp
qed

lemma VaxFFloatfromFloat32_total: "\<exists>r err. VaxFFloatfromFloat32 f = Some (r, err)"
proof -
  consider "f AND NOT SignBit = 0" | "ieeeS_exponent f = 255"
    | "ieeeS_exponent f \<noteq> 0" "ieeeS_exponent f \<noteq> 255"
    | "ieeeS_exponent f = 0" "f AND NOT SignBit \<noteq> 0" by blast
  then show ?thesis
  proof cases
    case 1
    then show ?thesis by (simp add: F_enc_zero)
  next
    case 2
    then show ?thesis by (simp add: F_enc_infnan)
  next
    case 3
    then show ?thesis by (simp add: F_enc_finite)
  next
    case 4
    then show ?thesis by (simp add: F_enc_subnormal_all)
  qed
qed

lemma VaxGFloatfromFloat64_total: "\<exists>r err. VaxGFloatfromFloat64 d = Some (r, err)"
proof -
  consider "(hi32 d AND NOT SignBit) OR lo32 d = 0" | "ieeeT_exponent (hi32 d) = 2047"
    | "ieeeT_exponent (hi32 d) \<noteq> 0" "ieeeT_exponent (hi32 d) \<noteq> 2047"
    | "ieeeT_exponent (hi32 d) = 0" "(hi32 d AND NOT SignBit) OR lo32 d \<noteq> 0" by blast
  then show ?thesis
  proof cases
    case 1
    then show ?thesis by (simp add: G_enc_zero)
  next
    case 2
    then show ?thesis by (simp add: G_enc_infnan)
  next
    case 3
    then show ?thesis by (simp add: G_enc_finite)
  next
    case 4
    from G_enc_subnormal_all[OF 4] show ?thesis by (auto split: if_splits)
  qed
qed

end
